(* ===== verification/Prelude.thy ===== *)
theory Prelude
  imports Main "HOL-Library.Word" "HOL-Library.AList" "HOL-Library.Sublist"
begin

text \<open>
  Shared vocabulary of the development: Go's machine integers and durations, the
  functions of package \<^verbatim>\<open>strings\<close> the gateway calls, Go maps that are iterated
  over (association lists), and the named collections of simplification rules.

  Go strings are byte sequences, as \<^typ>\<open>string\<close> is. Case folding
  (\<^verbatim>\<open>strings.ToLower\<close>, \<^verbatim>\<open>ToUpper\<close>, \<^verbatim>\<open>EqualFold\<close>) and
  \<^verbatim>\<open>strings.Fields\<close> are modelled on ASCII: bytes from 128 on are left as they are.
\<close>

named_theorems go_str \<open>characterisations of the functions of package strings\<close>
named_theorems go_map \<open>lookups after updates and deletions of Go maps\<close>

section \<open>Machine integers and durations\<close>

text \<open>A Go \<^verbatim>\<open>int\<close>, \<^verbatim>\<open>int64\<close> or \<^verbatim>\<open>time.Duration\<close>: two's complement, 64 bits.\<close>

definition i64 :: "int \<Rightarrow> int" where
  "i64 x = (x + 2 ^ 63) mod 2 ^ 64 - 2 ^ 63"

definition in_i64 :: "int \<Rightarrow> bool" where
  "in_i64 x \<longleftrightarrow> - (2 ^ 63) \<le> x \<and> x < 2 ^ 63"

lemma i64_id: "in_i64 x \<Longrightarrow> i64 x = x"
  by (simp add: i64_def in_i64_def)

lemma in_i64_i64: "in_i64 (i64 x)"
proof -
  have "0 \<le> (x + 2 ^ 63) mod 2 ^ 64" "(x + 2 ^ 63) mod 2 ^ 64 < (2 ^ 64 :: int)"
    by (rule pos_mod_sign, simp) (rule pos_mod_bound, simp)
  then show ?thesis by (simp add: i64_def in_i64_def)
qed

text \<open>Durations are counted in nanoseconds.\<close>

type_synonym duration = int
type_synonym instant = int

abbreviation Millisecond :: duration where "Millisecond \<equiv> 1000000"
abbreviation Second :: duration where "Second \<equiv> 1000000000"
abbreviation Minute :: duration where "Minute \<equiv> 60000000000"

text \<open>\<^verbatim>\<open>time.Duration(n) * unit\<close>: the product wraps at 64 bits.\<close>

definition Duration :: "int \<Rightarrow> duration \<Rightarrow> duration" where
  "Duration n u = i64 (n * u)"

lemma Duration_seconds: "0 < n \<Longrightarrow> n \<le> 9223372036 \<Longrightarrow> Duration n Second = n * Second"
  unfolding Duration_def by (rule i64_id) (simp add: in_i64_def)

lemma Duration_millis: "0 < n \<Longrightarrow> n \<le> 9223372036854 \<Longrightarrow> Duration n Millisecond = n * Millisecond"
  unfolding Duration_def by (rule i64_id) (simp add: in_i64_def)

section \<open>Package strings\<close>

definition HasPrefix :: "string \<Rightarrow> string \<Rightarrow> bool" where
  "HasPrefix s p \<longleftrightarrow> length p \<le> length s \<and> take (length p) s = p"

definition HasSuffix :: "string \<Rightarrow> string \<Rightarrow> bool" where
  "HasSuffix s p \<longleftrightarrow> length p \<le> length s \<and> drop (length s - length p) s = p"

definition TrimPrefix :: "string \<Rightarrow> string \<Rightarrow> string" where
  "TrimPrefix s p = (if HasPrefix s p then drop (length p) s else s)"

definition TrimSuffix :: "string \<Rightarrow> string \<Rightarrow> string" where
  "TrimSuffix s p = (if HasSuffix s p then take (length s - length p) s else s)"

text \<open>\<^verbatim>\<open>strings.Contains\<close> and \<^verbatim>\<open>strings.Split\<close> with a separator of one byte.\<close>

definition Contains :: "string \<Rightarrow> char \<Rightarrow> bool" where
  "Contains s c \<longleftrightarrow> c \<in> set s"

fun Split :: "string \<Rightarrow> char \<Rightarrow> string list" where
  "Split [] c = [[]]"
| "Split (x # xs) c =
     (if x = c then [] # Split xs c
      else (case Split xs c of [] \<Rightarrow> [[x]] | p # ps \<Rightarrow> (x # p) # ps))"

definition lower_char :: "char \<Rightarrow> char" where
  "lower_char c = (let n = of_char c :: nat in if 65 \<le> n \<and> n \<le> 90 then char_of (n + 32) else c)"

definition upper_char :: "char \<Rightarrow> char" where
  "upper_char c = (let n = of_char c :: nat in if 97 \<le> n \<and> n \<le> 122 then char_of (n - 32) else c)"

definition ToLower :: "string \<Rightarrow> string" where "ToLower s = map lower_char s"
definition ToUpper :: "string \<Rightarrow> string" where "ToUpper s = map upper_char s"
definition EqualFold :: "string \<Rightarrow> string \<Rightarrow> bool" where "EqualFold s t \<longleftrightarrow> ToLower s = ToLower t"

text \<open>\<^verbatim>\<open>strconv.Itoa\<close>; the first argument of the digits is a bound on their number.\<close>

fun dec_digits :: "nat \<Rightarrow> nat \<Rightarrow> string" where
  "dec_digits 0 n = []"
| "dec_digits (Suc k) n = (if n < 10 then [''0123456789'' ! n] else dec_digits k (n div 10) @ [''0123456789'' ! (n mod 10)])"

definition Itoa :: "int \<Rightarrow> string" where
  "Itoa i = (if i < 0 then CHR ''-'' # dec_digits (Suc (nat (- i))) (nat (- i)) else dec_digits (Suc (nat i)) (nat i))"

text \<open>\<^verbatim>\<open>strings.Fields\<close>: the maximal runs of non-space bytes.\<close>

definition is_space :: "char \<Rightarrow> bool" where
  "is_space c \<longleftrightarrow> of_char c \<in> {9, 10, 11, 12, 13, 32 :: nat}"

fun fields_acc :: "string \<Rightarrow> string \<Rightarrow> string list" where
  "fields_acc [] acc = (if acc = [] then [] else [rev acc])"
| "fields_acc (x # xs) acc =
     (if is_space x then (if acc = [] then fields_acc xs [] else rev acc # fields_acc xs [])
      else fields_acc xs (x # acc))"

definition Fields :: "string \<Rightarrow> string list" where "Fields s = fields_acc s []"

lemma HasPrefix_iff [go_str]: "HasPrefix s p \<longleftrightarrow> prefix p s"
  by (auto simp: HasPrefix_def prefix_def) (metis append_take_drop_id)

lemma HasSuffix_iff [go_str]: "HasSuffix s p \<longleftrightarrow> suffix p s"
  by (auto simp: HasSuffix_def suffix_def) (metis append_take_drop_id)

lemma TrimPrefix_append [go_str]: "TrimPrefix (p @ s) p = s"
  by (simp add: TrimPrefix_def HasPrefix_def)

lemma TrimSuffix_append [go_str]: "TrimSuffix (s @ p) p = s"
  by (simp add: TrimSuffix_def HasSuffix_def)

lemma Split_not_Nil [simp]: "Split s c \<noteq> []"
  by (cases s) (auto split: list.splits)

lemma hd_Split [go_str]: "hd (Split s c) = takeWhile (\<lambda>x. x \<noteq> c) s"
  by (induction s) (auto split: list.splits)

lemma EqualFold_refl [simp]: "EqualFold s s"
  by (simp add: EqualFold_def)

lemma fields_acc_nonempty: "f \<in> set (fields_acc s acc) \<Longrightarrow> f \<noteq> []"
  by (induction s acc rule: fields_acc.induct) (auto split: if_splits)

lemma Fields_nonempty: "f \<in> set (Fields s) \<Longrightarrow> f \<noteq> []"
  unfolding Fields_def by (rule fields_acc_nonempty)

section \<open>Go maps that are iterated over\<close>

text \<open>
  A Go map whose entries the code ranges over is an association list with distinct keys;
  the order of the list is the (unspecified) order of one iteration. \<^const>\<open>map_of\<close> looks a
  key up, \<^const>\<open>AList.update\<close> stores and \<^const>\<open>AList.delete\<close> removes.
\<close>

type_synonym ('k, 'v) gomap = "('k \<times> 'v) list"

definition wf_gomap :: "('k, 'v) gomap \<Rightarrow> bool" where
  "wf_gomap m \<longleftrightarrow> distinct (map fst m)"

lemma wf_gomap_Nil [simp]: "wf_gomap []"
  by (simp add: wf_gomap_def)

lemma wf_gomap_update [simp]: "wf_gomap m \<Longrightarrow> wf_gomap (AList.update k v m)"
  by (simp add: wf_gomap_def distinct_update)

lemma wf_gomap_delete [simp]: "wf_gomap m \<Longrightarrow> wf_gomap (AList.delete k m)"
  by (simp add: wf_gomap_def distinct_delete)

lemma wf_gomap_filter [simp]: "wf_gomap m \<Longrightarrow> wf_gomap (filter P m)"
  by (auto simp: wf_gomap_def distinct_map intro: inj_on_subset)

lemma lookup_update [go_map]: "map_of (AList.update k v m) k' = (if k' = k then Some v else map_of m k')"
  by (auto simp: update_conv')

lemma lookup_delete [go_map]: "map_of (AList.delete k m) k' = (if k' = k then None else map_of m k')"
  by (auto simp: delete_conv')

lemma wf_lookup [go_map]: "wf_gomap m \<Longrightarrow> (k, v) \<in> set m \<longleftrightarrow> map_of m k = Some v"
  by (simp add: wf_gomap_def)

lemma lookup_filter [go_map]:
  "wf_gomap m \<Longrightarrow> map_of (filter P m) k
     = (case map_of m k of None \<Rightarrow> None | Some v \<Rightarrow> if P (k, v) then Some v else None)"
proof (induction m)
  case (Cons a m)
  then have "wf_gomap m" by (simp add: wf_gomap_def)
  moreover have "map_of m (fst a) = None"
    using Cons.prems by (simp add: wf_gomap_def map_of_eq_None_iff)
  ultimately show ?case using Cons.IH by (cases a) auto
qed simp

section \<open>Searching lists\<close>

text \<open>Facts on \<^const>\<open>List.find\<close>, which the loops that stop at a first hit are related to.\<close>

lemma find_first_index:
  "List.find P xs = Some x \<longleftrightarrow> (\<exists>i < length xs. xs ! i = x \<and> P x \<and> (\<forall>j < i. \<not> P (xs ! j)))"
  by (auto simp: find_Some_iff)

lemma find_None_set: "List.find P xs = None \<longleftrightarrow> (\<forall>x \<in> set xs. \<not> P x)"
  by (auto simp: find_None_iff)

section \<open>Outcomes\<close>

text \<open>The result of a Go function that returns an error, or panics.\<close>

datatype 'a outcome = Ok 'a | Err string | Panic string

fun bind_outcome :: "'a outcome \<Rightarrow> ('a \<Rightarrow> 'b outcome) \<Rightarrow> 'b outcome" where
  "bind_outcome (Ok x) f = f x"
| "bind_outcome (Err e) f = Err e"
| "bind_outcome (Panic e) f = Panic e"

lemma bind_outcome_Ok: "bind_outcome x f = Ok y \<longleftrightarrow> (\<exists>z. x = Ok z \<and> f z = Ok y)"
  by (cases x) auto

end
