(* ===== verification/Config.thy ===== *)
theory Config
  imports Prelude
begin

text \<open>
  The configuration model (\<^verbatim>\<open>src/app/config/config.go\<close>): one record per struct,
  optional (pointer) fields as options, nil slices as empty lists, YAML values of type
  \<^verbatim>\<open>any\<close> as a datatype, and \<^verbatim>\<open>validateAndSetDefaults\<close> with every early return as an
  error value. The lemmas show what a configuration that passed validation guarantees to the
  rest of the gateway.
\<close>

section \<open>Data\<close>

text \<open>A decoded YAML value (\<^verbatim>\<open>any\<close>).\<close>

datatype any = AString string | AInt int | ABool bool | AFloat string | ANull
  | AList "any list" | AMap "(string \<times> any) list"

type_synonym any_map = "(string, any) gomap"

text \<open>The type assertions \<^verbatim>\<open>m[k].(string)\<close>, \<^verbatim>\<open>.(int)\<close>; a missing key asserts to failure.\<close>

definition get_string :: "any_map \<Rightarrow> string \<Rightarrow> string option" where
  "get_string m k = (case map_of m k of Some (AString s) \<Rightarrow> Some s | _ \<Rightarrow> None)"

definition get_int :: "any_map \<Rightarrow> string \<Rightarrow> int option" where
  "get_int m k = (case map_of m k of Some (AInt i) \<Rightarrow> Some i | _ \<Rightarrow> None)"

definition get_list :: "any_map \<Rightarrow> string \<Rightarrow> any list option" where
  "get_list m k = (case map_of m k of Some (AList l) \<Rightarrow> Some l | _ \<Rightarrow> None)"

record GlobalConfig =
  Port :: int
  LogLevel :: string
  EnableHTTPS :: bool
  DefaultTimeoutMs :: int
  ProxyHeaders :: "string list"
  ReadTimeoutSec :: "int option"
  WriteTimeoutSec :: "int option"
  IdleTimeoutSec :: "int option"
  ReadHeaderTimeoutSec :: "int option"
  FailOnServiceInitError :: "bool option"
  TransportDialTimeoutSec :: "int option"
  TransportKeepAliveSec :: "int option"
  TransportMaxIdleConns :: "int option"
  TransportMaxIdleConnsPerHost :: "int option"
  TransportIdleConnTimeoutSec :: "int option"
  TransportTLSHandshakeTimeoutSec :: "int option"
  TransportExpectContinueTimeoutSec :: "int option"
  TransportResponseHeaderTimeoutSec :: "int option"

record TargetConfig =
  tc_URL :: string
  tc_Weight :: int

record HealthCheckConfig =
  Ready :: string
  Live :: string
  Interval :: int
  Timeout :: int
  UnhealthyThreshold :: int
  HealthyThreshold :: int

record LoadBalancingConfig =
  Strategy :: string
  Targets :: "TargetConfig list"
  HealthChecks :: "HealthCheckConfig option"

record ServiceConfig =
  svc_Name :: string
  UpstreamURLs :: "string list"
  UpstreamURL :: string
  LoadBalancing :: "LoadBalancingConfig option"

record PluginInstanceConfig =
  pi_Name :: string
  pi_Config :: "any_map option"

record RouteConfig =
  ID :: string
  Paths :: "string list"
  Methods :: "string list"
  rt_Host :: string
  Service :: string
  rt_Plugins :: "PluginInstanceConfig list"

record PluginsConfig =
  pc_Authentication :: "any_map option"
  pc_RateLimiting :: "any_map option"
  pc_Caching :: "any_map option"
  pc_Logging :: "any_map option"

record CertificateConfig =
  Hostname :: string
  CertFile :: string
  KeyFile :: string

record TLSConfig =
  Certificates :: "CertificateConfig list"

record Config =
  Global :: GlobalConfig
  Services :: "ServiceConfig list"
  Routes :: "RouteConfig list"
  Plugins :: PluginsConfig
  TLS :: "TLSConfig option"

section \<open>Validation and defaults\<close>

text \<open>One constructor per \<^verbatim>\<open>fmt.Errorf\<close> of the validation, with the values it prints.\<close>

datatype config_error =
    HTTPSWithoutCertificates
  | CertHostnameRequired nat
  | CertFileRequired nat string
  | KeyFileRequired nat string
  | ServiceNameRequired nat
  | ServiceNameNotUnique string
  | NoUpstream string
  | UpstreamConflict string
  | TargetsEmpty string
  | StrategyRequired string
  | StrategyInvalid string string
  | ProbeRequired string
  | RouteIDRequired nat
  | RouteIDNotUnique string
  | RoutePathsRequired string
  | RouteServiceRequired string
  | RouteServiceNotFound string string

definition global_defaults :: "GlobalConfig \<Rightarrow> GlobalConfig" where
  "global_defaults g =
     (let g = (if Port g = 0 then g\<lparr>Port := 8080\<rparr> else g);
          g = (if LogLevel g = [] then g\<lparr>LogLevel := ''info''\<rparr> else g)
      in if DefaultTimeoutMs g = 0 then g\<lparr>DefaultTimeoutMs := 5000\<rparr> else g)"

fun check_certificates :: "nat \<Rightarrow> CertificateConfig list \<Rightarrow> config_error option" where
  "check_certificates i [] = None"
| "check_certificates i (c # cs) =
     (if Hostname c = [] then Some (CertHostnameRequired i)
      else if CertFile c = [] then Some (CertFileRequired i (Hostname c))
      else if KeyFile c = [] then Some (KeyFileRequired i (Hostname c))
      else check_certificates (Suc i) cs)"

definition check_tls :: "GlobalConfig \<Rightarrow> TLSConfig option \<Rightarrow> config_error option" where
  "check_tls g tls =
     (if EnableHTTPS g
      then (case tls of
              None \<Rightarrow> Some HTTPSWithoutCertificates
            | Some t \<Rightarrow> (if Certificates t = [] then Some HTTPSWithoutCertificates
                        else check_certificates 0 (Certificates t)))
      else None)"

definition no_targets :: "LoadBalancingConfig option \<Rightarrow> bool" where
  "no_targets lb = (case lb of None \<Rightarrow> True | Some l \<Rightarrow> Targets l = [])"

text \<open>\<^verbatim>\<open>&LoadBalancingConfig{}\<close>, and the load balancing object a service ends up with.\<close>

definition empty_lb :: LoadBalancingConfig where
  "empty_lb = \<lparr>Strategy = [], Targets = [], HealthChecks = None\<rparr>"

definition lb_or_new :: "LoadBalancingConfig option \<Rightarrow> LoadBalancingConfig" where
  "lb_or_new lb = (case lb of None \<Rightarrow> empty_lb | Some l \<Rightarrow> l)"

text \<open>The two branches that fill \<^verbatim>\<open>LoadBalancing.Targets\<close> from the upstream fields.\<close>

definition populate_targets :: "ServiceConfig \<Rightarrow> ServiceConfig" where
  "populate_targets s =
     (if UpstreamURL s \<noteq> [] \<and> no_targets (LoadBalancing s)
      then s\<lparr>LoadBalancing := Some ((lb_or_new (LoadBalancing s))
                  \<lparr>Targets := [\<lparr>tc_URL = UpstreamURL s, tc_Weight = 0\<rparr>]\<rparr>),
             UpstreamURL := []\<rparr>
      else if UpstreamURLs s \<noteq> [] \<and> no_targets (LoadBalancing s)
      then (let lb = lb_or_new (LoadBalancing s);
                lb = (if Strategy lb = [] then lb\<lparr>Strategy := ''round-robin''\<rparr> else lb)
            in s\<lparr>LoadBalancing := Some (lb
                  \<lparr>Targets := map (\<lambda>u. \<lparr>tc_URL = u, tc_Weight = 0\<rparr>) (UpstreamURLs s)\<rparr>),
                 UpstreamURLs := []\<rparr>)
      else s)"

definition validStrategies :: "string list" where
  "validStrategies = [''round-robin'', ''least-connections'', ''random'', ''weighted'']"

definition default_if_nonpos :: "int \<Rightarrow> int \<Rightarrow> int" where
  "default_if_nonpos d x = (if x \<le> 0 then d else x)"

definition check_health :: "string \<Rightarrow> HealthCheckConfig \<Rightarrow> config_error + HealthCheckConfig" where
  "check_health name hc =
     (let hc = hc\<lparr>Interval := default_if_nonpos 30 (Interval hc)\<rparr>;
          hc = hc\<lparr>Timeout := default_if_nonpos 5 (Timeout hc)\<rparr>;
          hc = hc\<lparr>UnhealthyThreshold := default_if_nonpos 2 (UnhealthyThreshold hc)\<rparr>;
          hc = hc\<lparr>HealthyThreshold := default_if_nonpos 1 (HealthyThreshold hc)\<rparr>
      in if Ready hc = [] \<and> Live hc = [] then Inl (ProbeRequired name) else Inr hc)"

definition check_lb :: "string \<Rightarrow> LoadBalancingConfig \<Rightarrow> config_error + LoadBalancingConfig" where
  "check_lb name lb =
     (if Targets lb = [] then Inl (TargetsEmpty name)
      else if Strategy lb = [] \<and> length (Targets lb) > 1 then Inl (StrategyRequired name)
      else
        let lb = (if Strategy lb = [] then lb\<lparr>Strategy := ''round-robin''\<rparr> else lb)
        in if Strategy lb \<notin> set validStrategies then Inl (StrategyInvalid name (Strategy lb))
           else (case HealthChecks lb of
                   None \<Rightarrow> Inr lb
                 | Some hc \<Rightarrow> (case check_health name hc of
                                 Inl e \<Rightarrow> Inl e
                               | Inr hc' \<Rightarrow> Inr (lb\<lparr>HealthChecks := Some hc'\<rparr>))))"

text \<open>
  The body of the loop over the services, after the checks of the name. The loop variable
  \<^verbatim>\<open>service\<close> is a copy made before the targets are filled in: its \<^verbatim>\<open>LoadBalancing\<close> pointer
  stays nil when the code allocates a new object for \<^verbatim>\<open>cfg.Services[i]\<close>, and aliases the
  configured object otherwise. So the last block runs exactly for the services whose
  \<^verbatim>\<open>load_balancing\<close> was present in the file, and it sees the targets just filled in.
\<close>

definition check_service :: "ServiceConfig \<Rightarrow> config_error + ServiceConfig" where
  "check_service s =
     (if UpstreamURLs s = [] \<and> UpstreamURL s = [] \<and> no_targets (LoadBalancing s)
      then Inl (NoUpstream (svc_Name s))
      else if UpstreamURL s \<noteq> [] \<and> (UpstreamURLs s \<noteq> [] \<or> \<not> no_targets (LoadBalancing s))
      then Inl (UpstreamConflict (svc_Name s))
      else
        let s' = populate_targets s
        in case LoadBalancing s of
             None \<Rightarrow> Inr s'
           | Some _ \<Rightarrow>
               (case check_lb (svc_Name s) (lb_or_new (LoadBalancing s')) of
                  Inl e \<Rightarrow> Inl e
                | Inr lb \<Rightarrow> Inr (s'\<lparr>LoadBalancing := Some lb\<rparr>)))"

fun check_services :: "nat \<Rightarrow> string list \<Rightarrow> ServiceConfig list
    \<Rightarrow> config_error + (ServiceConfig list \<times> string list)" where
  "check_services i names [] = Inr ([], names)"
| "check_services i names (s # ss) =
     (if svc_Name s = [] then Inl (ServiceNameRequired i)
      else if svc_Name s \<in> set names then Inl (ServiceNameNotUnique (svc_Name s))
      else (case check_service s of
              Inl e \<Rightarrow> Inl e
            | Inr s' \<Rightarrow> (case check_services (Suc i) (svc_Name s # names) ss of
                          Inl e \<Rightarrow> Inl e
                        | Inr (ss', ns) \<Rightarrow> Inr (s' # ss', ns))))"

fun check_routes :: "nat \<Rightarrow> string list \<Rightarrow> string list \<Rightarrow> RouteConfig list \<Rightarrow> config_error option" where
  "check_routes i serviceNames ids [] = None"
| "check_routes i serviceNames ids (r # rs) =
     (if ID r = [] then Some (RouteIDRequired i)
      else if ID r \<in> set ids then Some (RouteIDNotUnique (ID r))
      else if Paths r = [] then Some (RoutePathsRequired (ID r))
      else if Service r = [] then Some (RouteServiceRequired (ID r))
      else if Service r \<notin> set serviceNames then Some (RouteServiceNotFound (ID r) (Service r))
      else check_routes (Suc i) serviceNames (ID r # ids) rs)"

definition validateAndSetDefaults :: "Config \<Rightarrow> config_error + Config" where
  "validateAndSetDefaults cfg =
     (let g = global_defaults (Global cfg)
      in case check_tls g (TLS cfg) of
           Some e \<Rightarrow> Inl e
         | None \<Rightarrow>
             (case check_services 0 [] (Services cfg) of
                Inl e \<Rightarrow> Inl e
              | Inr (ss, names) \<Rightarrow>
                  (case check_routes 0 names [] (Routes cfg) of
                     Some e \<Rightarrow> Inl e
                   | None \<Rightarrow> Inr (cfg\<lparr>Global := g, Services := ss\<rparr>))))"

text \<open>
  \<^verbatim>\<open>LoadConfig\<close>: reading the file and decoding the YAML are arguments
  (\<^verbatim>\<open>os.ReadFile\<close> touches the file system, \<^verbatim>\<open>yaml.Unmarshal\<close> is third-party code).
\<close>

datatype load_error = ReadFailed | UnmarshalFailed | ValidationFailed config_error

definition LoadConfig :: "(string \<Rightarrow> string option) \<Rightarrow> (string \<Rightarrow> Config option) \<Rightarrow> string
    \<Rightarrow> load_error + Config" where
  "LoadConfig readFile unmarshal path =
     (case readFile path of
        None \<Rightarrow> Inl ReadFailed
      | Some bytes \<Rightarrow>
          (case unmarshal bytes of
             None \<Rightarrow> Inl UnmarshalFailed
           | Some cfg \<Rightarrow> (case validateAndSetDefaults cfg of
                            Inl e \<Rightarrow> Inl (ValidationFailed e)
                          | Inr c \<Rightarrow> Inr c)))"

text \<open>\<^verbatim>\<open>(gc *GlobalConfig) GetDefaultTimeout\<close>; the receiver may be nil.\<close>

definition GetDefaultTimeout :: "GlobalConfig option \<Rightarrow> duration" where
  "GetDefaultTimeout gc =
     (case gc of
        None \<Rightarrow> 10 * Second
      | Some g \<Rightarrow> if DefaultTimeoutMs g \<le> 0 then 10 * Second
                  else Duration (DefaultTimeoutMs g) Millisecond)"

section \<open>What a validated configuration guarantees\<close>

definition valid_health :: "HealthCheckConfig \<Rightarrow> bool" where
  "valid_health hc \<longleftrightarrow> 0 < Interval hc \<and> 0 < Timeout hc \<and> 0 < UnhealthyThreshold hc
     \<and> 0 < HealthyThreshold hc \<and> (Ready hc \<noteq> [] \<or> Live hc \<noteq> [])"

text \<open>
  A strategy may still be empty, but only for a single target without health checks: the case
  of \<^verbatim>\<open>upstream_url\<close> alone, which the validation of \<^verbatim>\<open>load_balancing\<close> never sees.
\<close>

definition valid_lb :: "LoadBalancingConfig \<Rightarrow> bool" where
  "valid_lb lb \<longleftrightarrow> Targets lb \<noteq> []
     \<and> (Strategy lb \<in> set validStrategies
        \<or> Strategy lb = [] \<and> length (Targets lb) = 1 \<and> HealthChecks lb = None)
     \<and> (case HealthChecks lb of None \<Rightarrow> True | Some hc \<Rightarrow> valid_health hc)"

definition valid_service :: "ServiceConfig \<Rightarrow> bool" where
  "valid_service s \<longleftrightarrow> svc_Name s \<noteq> [] \<and> UpstreamURL s = []
     \<and> (case LoadBalancing s of None \<Rightarrow> False | Some lb \<Rightarrow> valid_lb lb)"

definition valid_route :: "string list \<Rightarrow> RouteConfig \<Rightarrow> bool" where
  "valid_route names r \<longleftrightarrow> ID r \<noteq> [] \<and> Paths r \<noteq> [] \<and> Service r \<noteq> [] \<and> Service r \<in> set names"

definition valid_certificate :: "CertificateConfig \<Rightarrow> bool" where
  "valid_certificate c \<longleftrightarrow> Hostname c \<noteq> [] \<and> CertFile c \<noteq> [] \<and> KeyFile c \<noteq> []"

definition valid_tls :: "GlobalConfig \<Rightarrow> TLSConfig option \<Rightarrow> bool" where
  "valid_tls g tls \<longleftrightarrow> EnableHTTPS g \<longrightarrow>
     (case tls of None \<Rightarrow> False
      | Some t \<Rightarrow> Certificates t \<noteq> [] \<and> list_all valid_certificate (Certificates t))"

definition valid_config :: "Config \<Rightarrow> bool" where
  "valid_config cfg \<longleftrightarrow>
     Port (Global cfg) \<noteq> 0 \<and> LogLevel (Global cfg) \<noteq> [] \<and> DefaultTimeoutMs (Global cfg) \<noteq> 0
     \<and> valid_tls (Global cfg) (TLS cfg)
     \<and> list_all valid_service (Services cfg) \<and> distinct (map svc_Name (Services cfg))
     \<and> list_all (valid_route (map svc_Name (Services cfg))) (Routes cfg)
     \<and> distinct (map ID (Routes cfg))"

lemma check_certificates_None: "check_certificates i cs = None \<longleftrightarrow> list_all valid_certificate cs"
  by (induction i cs rule: check_certificates.induct) (auto simp: valid_certificate_def)

lemma check_tls_None: "check_tls g tls = None \<longleftrightarrow> valid_tls g tls"
  by (auto simp: check_tls_def valid_tls_def check_certificates_None split: option.splits)

lemma check_health_valid: "check_health n hc = Inr hc' \<Longrightarrow> valid_health hc'"
  by (auto simp: check_health_def valid_health_def default_if_nonpos_def Let_def split: if_splits)

lemma check_health_fixed: "valid_health hc \<Longrightarrow> check_health n hc = Inr hc"
  by (auto simp: check_health_def valid_health_def default_if_nonpos_def Let_def)

lemma check_lb_valid:
  "check_lb n lb = Inr lb' \<Longrightarrow> valid_lb lb' \<and> Strategy lb' \<noteq> [] \<and> Targets lb' = Targets lb"
  by (auto simp: check_lb_def valid_lb_def validStrategies_def Let_def dest: check_health_valid
      split: if_splits option.splits sum.splits)

lemma check_lb_fixed: "valid_lb lb \<Longrightarrow> Strategy lb \<noteq> [] \<Longrightarrow> check_lb n lb = Inr lb"
  by (auto simp: check_lb_def valid_lb_def Let_def check_health_fixed split: option.splits)

lemma check_lb_default:
  "valid_lb lb \<Longrightarrow> Strategy lb = [] \<Longrightarrow> check_lb n lb = Inr (lb\<lparr>Strategy := ''round-robin''\<rparr>)"
  by (auto simp: check_lb_def valid_lb_def validStrategies_def Let_def)

lemma populate_name [simp]: "svc_Name (populate_targets s) = svc_Name s"
  by (simp add: populate_targets_def Let_def)

text \<open>After the targets are filled in, every service that has an upstream has targets.\<close>

lemma populate_has_targets:
  "\<not> (UpstreamURLs s = [] \<and> UpstreamURL s = [] \<and> no_targets (LoadBalancing s))
   \<Longrightarrow> \<not> no_targets (LoadBalancing (populate_targets s))"
  by (auto simp: populate_targets_def no_targets_def Let_def)

lemma check_service_valid:
  assumes "check_service s = Inr s'" and "svc_Name s \<noteq> []"
  shows "valid_service s'" and "svc_Name s' = svc_Name s"
proof -
  show "svc_Name s' = svc_Name s"
    using assms by (auto simp: check_service_def Let_def split: if_splits option.splits sum.splits)
  show "valid_service s'"
  proof (cases "LoadBalancing s")
    case None
    with assms show ?thesis
      by (auto simp: check_service_def populate_targets_def valid_service_def valid_lb_def
          lb_or_new_def empty_lb_def no_targets_def validStrategies_def Let_def split: if_splits)
  next
    case (Some lb)
    with assms obtain lb' where
      "check_lb (svc_Name s) (lb_or_new (LoadBalancing (populate_targets s))) = Inr lb'"
      and s': "s' = (populate_targets s)\<lparr>LoadBalancing := Some lb'\<rparr>"
      by (auto simp: check_service_def Let_def split: if_splits sum.splits)
    then have "valid_lb lb'" by (simp add: check_lb_valid)
    moreover have "UpstreamURL (populate_targets s) = []"
      using assms by (auto simp: check_service_def populate_targets_def Let_def split: if_splits)
    ultimately show ?thesis using s' assms(2) by (simp add: valid_service_def)
  qed
qed

lemma check_services_valid:
  assumes "check_services i names ss = Inr (ss', ns)" and "distinct names"
  shows "list_all valid_service ss' \<and> map svc_Name ss' = map svc_Name ss
     \<and> ns = rev (map svc_Name ss) @ names \<and> distinct ns"
  using assms
proof (induction ss arbitrary: i names ss' ns)
  case (Cons s ss)
  then obtain s1 ss1 where s1: "check_service s = Inr s1" and ss': "ss' = s1 # ss1"
    and rec: "check_services (Suc i) (svc_Name s # names) ss = Inr (ss1, ns)"
    and nm: "svc_Name s \<noteq> []" "svc_Name s \<notin> set names"
    by (auto split: if_splits sum.splits prod.splits)
  with Cons.IH [OF rec] Cons.prems(2) check_service_valid [OF s1 nm(1)]
  show ?case by (auto simp del: distinct_append)
qed auto

lemma check_routes_None:
  "check_routes i names ids rs = None \<longleftrightarrow>
     list_all (valid_route names) rs \<and> distinct (map ID rs) \<and> set (map ID rs) \<inter> set ids = {}"
  by (induction rs arbitrary: i ids) (auto simp: valid_route_def)

lemma global_defaults_set:
  "Port (global_defaults g) \<noteq> 0" "LogLevel (global_defaults g) \<noteq> []"
  "DefaultTimeoutMs (global_defaults g) \<noteq> 0"
  by (simp_all add: global_defaults_def Let_def)

lemma global_defaults_fixed:
  "Port g \<noteq> 0 \<Longrightarrow> LogLevel g \<noteq> [] \<Longrightarrow> DefaultTimeoutMs g \<noteq> 0 \<Longrightarrow> global_defaults g = g"
  by (simp add: global_defaults_def)

lemma valid_route_set_cong: "set ns = set ns' \<Longrightarrow> valid_route ns = valid_route ns'"
  by (simp add: valid_route_def fun_eq_iff)

lemma validate_parts:
  assumes "validateAndSetDefaults cfg = Inr c"
  obtains ss ns where "check_tls (global_defaults (Global cfg)) (TLS cfg) = None"
    "check_services 0 [] (Services cfg) = Inr (ss, ns)"
    "check_routes 0 ns [] (Routes cfg) = None"
    "c = cfg\<lparr>Global := global_defaults (Global cfg), Services := ss\<rparr>"
  using assms
  by (auto simp: validateAndSetDefaults_def Let_def split: option.splits sum.splits prod.splits)

lemma validate_sound_aux:
  assumes "validateAndSetDefaults cfg = Inr c"
  shows "valid_config c"
proof -
  obtain ss ns where tls: "check_tls (global_defaults (Global cfg)) (TLS cfg) = None"
    and sv: "check_services 0 [] (Services cfg) = Inr (ss, ns)"
    and rt: "check_routes 0 ns [] (Routes cfg) = None"
    and c: "c = cfg\<lparr>Global := global_defaults (Global cfg), Services := ss\<rparr>"
    using assms by (rule validate_parts)
  from check_services_valid [OF sv] have
    ss: "list_all valid_service ss" "map svc_Name ss = map svc_Name (Services cfg)"
    and ns: "ns = rev (map svc_Name ss)" "distinct ns" by auto
  have "list_all (valid_route (map svc_Name ss)) (Routes cfg)" "distinct (map ID (Routes cfg))"
    using rt ns(1) valid_route_set_cong [of ns "map svc_Name ss"] by (auto simp: check_routes_None)
  moreover have "distinct (map svc_Name ss)" using ns by simp
  ultimately show ?thesis
    using tls ss(1) c by (simp add: valid_config_def global_defaults_set check_tls_None)
qed

text \<open>
  C13. A configuration that passes validation has the defaults filled in, certificates when HTTPS
  is on, services with unique names that each have at least one target and positive health
  check parameters, and routes with unique IDs that name an existing service.
\<close>

theorem validate_sound: "validateAndSetDefaults cfg = Inr c \<Longrightarrow> valid_config c"
  by (rule validate_sound_aux)

text \<open>
  The sample configuration shipped with the gateway (\<^verbatim>\<open>app/config-sample.yaml\<close>), as it is
  decoded: one service with an upstream URL and health checks, one route with a path rewrite.
\<close>

definition sample_global :: GlobalConfig where
  "sample_global = \<lparr>Port = 8080, LogLevel = ''info'', EnableHTTPS = False, DefaultTimeoutMs = 10000,
     ProxyHeaders = [''X-Request-ID'', ''X-Forwarded-For'', ''X-Forwarded-Proto'', ''X-Forwarded-Host''],
     ReadTimeoutSec = None, WriteTimeoutSec = None, IdleTimeoutSec = None,
     ReadHeaderTimeoutSec = None, FailOnServiceInitError = None,
     TransportDialTimeoutSec = None, TransportKeepAliveSec = None, TransportMaxIdleConns = None,
     TransportMaxIdleConnsPerHost = None, TransportIdleConnTimeoutSec = None,
     TransportTLSHandshakeTimeoutSec = None, TransportExpectContinueTimeoutSec = None,
     TransportResponseHeaderTimeoutSec = None\<rparr>"

definition sample_health :: HealthCheckConfig where
  "sample_health = \<lparr>Ready = ''/health/ready'', Live = ''/health/live'', Interval = 15, Timeout = 5,
     UnhealthyThreshold = 3, HealthyThreshold = 2\<rparr>"

definition sample_service :: ServiceConfig where
  "sample_service = \<lparr>svc_Name = ''my-backend-service-1'', UpstreamURLs = [''http://localhost:8081''],
     UpstreamURL = [], LoadBalancing = Some \<lparr>Strategy = ''round-robin'', Targets = [],
       HealthChecks = Some sample_health\<rparr>\<rparr>"

definition sample_route :: RouteConfig where
  "sample_route = \<lparr>ID = ''route-for-service-1'', Paths = [''/service1/data/*'', ''/service1/info''],
     Methods = [''GET'', ''POST''], rt_Host = [], Service = ''my-backend-service-1'',
     rt_Plugins = [\<lparr>pi_Name = ''path-rewrite'', pi_Config =
       Some [(''regex'', AString ''^/service1/data(/.*)$''), (''replacement'', AString ''/api/v1$1'')]\<rparr>]\<rparr>"

definition sample_config :: Config where
  "sample_config = \<lparr>Global = sample_global, Services = [sample_service], Routes = [sample_route],
     Plugins = \<lparr>pc_Authentication = Some [(''provider'', AString ''none'')],
       pc_RateLimiting = Some [(''strategy'', AString ''ip-address'')],
       pc_Caching = Some [(''enabled'', ABool True), (''default_ttl_seconds'', AInt 300)],
       pc_Logging = Some [(''format'', AString ''json'')]\<rparr>, TLS = None\<rparr>"

lemmas sample_defs = sample_config_def sample_global_def sample_service_def sample_route_def
  sample_health_def

lemmas validate_defs = validateAndSetDefaults_def global_defaults_def check_tls_def
  check_service_def populate_targets_def no_targets_def lb_or_new_def check_lb_def check_health_def
  default_if_nonpos_def validStrategies_def Let_def

definition sample_validated_service :: ServiceConfig where
  "sample_validated_service = sample_service\<lparr>UpstreamURLs := [], LoadBalancing :=
     Some \<lparr>Strategy = ''round-robin'', Targets = [\<lparr>tc_URL = ''http://localhost:8081'', tc_Weight = 0\<rparr>],
       HealthChecks = Some sample_health\<rparr>\<rparr>"

lemma sample_validates:
  "validateAndSetDefaults sample_config
     = Inr (sample_config\<lparr>Services := [sample_validated_service]\<rparr>)"
  by (simp add: validate_defs sample_defs sample_validated_service_def)

theorem validate_sound_witness:
  "valid_config (sample_config\<lparr>Services := [sample_validated_service]\<rparr>)"
  by (rule validate_sound [OF sample_validates])

section \<open>Validating again\<close>

text \<open>
  On a valid service a second pass only supplies the default strategy of a single target, so
  validation is stable from its second run on.
\<close>

definition default_strategy :: "ServiceConfig \<Rightarrow> ServiceConfig" where
  "default_strategy s =
     (case LoadBalancing s of
        None \<Rightarrow> s
      | Some lb \<Rightarrow> if Strategy lb = [] then s\<lparr>LoadBalancing := Some (lb\<lparr>Strategy := ''round-robin''\<rparr>)\<rparr>
                   else s)"

lemma default_strategy_name [simp]: "svc_Name (default_strategy s) = svc_Name s"
  by (simp add: default_strategy_def split: option.splits)

lemma default_strategy_names [simp]: "svc_Name \<circ> default_strategy = svc_Name"
  by (simp add: fun_eq_iff)

lemma default_strategy_idem [simp]: "default_strategy (default_strategy s) = default_strategy s"
  by (simp add: default_strategy_def split: option.splits)

lemma valid_default_strategy: "valid_service s \<Longrightarrow> valid_service (default_strategy s)"
  by (auto simp: valid_service_def default_strategy_def valid_lb_def validStrategies_def
      split: option.splits)

lemma check_service_again:
  assumes "valid_service s"
  shows "check_service s = Inr (default_strategy s)"
proof -
  obtain lb where lb: "LoadBalancing s = Some lb" "valid_lb lb" and u: "UpstreamURL s = []"
    using assms by (auto simp: valid_service_def split: option.splits)
  have t: "Targets lb \<noteq> []" using lb(2) by (simp add: valid_lb_def)
  have "populate_targets s = s" using lb t u by (simp add: populate_targets_def no_targets_def)
  then show ?thesis
    using lb t u check_lb_fixed [OF lb(2)] check_lb_default [OF lb(2)]
    by (cases "Strategy lb = []")
       (simp_all add: check_service_def no_targets_def lb_or_new_def default_strategy_def)
qed

lemma check_services_again:
  "list_all valid_service ss \<Longrightarrow> distinct (map svc_Name ss) \<Longrightarrow>
   set (map svc_Name ss) \<inter> set names = {} \<Longrightarrow>
   check_services i names ss = Inr (map default_strategy ss, rev (map svc_Name ss) @ names)"
  by (induction ss arbitrary: i names) (auto simp: check_service_again valid_service_def)

lemma validate_again:
  assumes "valid_config c"
  shows "validateAndSetDefaults c = Inr (c\<lparr>Services := map default_strategy (Services c)\<rparr>)"
proof -
  let ?ns = "map svc_Name (Services c)"
  have "check_services 0 [] (Services c) = Inr (map default_strategy (Services c), rev ?ns)"
    using assms check_services_again [of "Services c" "[]" 0] by (simp add: valid_config_def)
  moreover have "check_routes 0 (rev ?ns) [] (Routes c) = None"
    using assms valid_route_set_cong [of "rev ?ns" ?ns] by (simp add: check_routes_None valid_config_def)
  moreover have "global_defaults (Global c) = Global c"
    using assms by (simp add: global_defaults_fixed valid_config_def)
  moreover have "check_tls (Global c) (TLS c) = None"
    using assms by (simp add: check_tls_None valid_config_def)
  ultimately show ?thesis by (simp add: validateAndSetDefaults_def)
qed

text \<open>
  C31. Validation accepts its own output, and is idempotent from then on: a configuration that
  has passed passes again, and a third pass changes nothing.
\<close>

theorem validate_stable:
  assumes "validateAndSetDefaults cfg = Inr c"
  shows "\<exists>c'. validateAndSetDefaults c = Inr c' \<and> validateAndSetDefaults c' = Inr c'"
proof -
  have v: "valid_config c" using assms by (rule validate_sound_aux)
  let ?c' = "c\<lparr>Services := map default_strategy (Services c)\<rparr>"
  have "valid_config ?c'"
    using v valid_default_strategy by (simp add: valid_config_def list_all_iff)
  then have "validateAndSetDefaults ?c' = Inr ?c'"
    by (simp add: validate_again comp_def)
  with validate_again [OF v] show ?thesis by blast
qed

theorem validate_stable_witness:
  "\<exists>c'. validateAndSetDefaults (sample_config\<lparr>Services := [sample_validated_service]\<rparr>) = Inr c'
     \<and> validateAndSetDefaults c' = Inr c'"
  by (rule validate_stable [OF sample_validates])

text \<open>
  The check that \<^verbatim>\<open>load_balancing.targets\<close> is not empty can never fire: whenever it is reached
  the targets have been configured or filled in from the upstream fields.
\<close>

theorem targets_empty_unreachable: "validateAndSetDefaults cfg \<noteq> Inl (TargetsEmpty n)"
proof -
  have lb: "check_lb m lb \<noteq> Inl (TargetsEmpty n)" if "Targets lb \<noteq> []" for m lb
    using that by (auto simp: check_lb_def check_health_def Let_def split: option.splits sum.splits if_splits)
  have "check_service s \<noteq> Inl (TargetsEmpty n)" for s
    using populate_has_targets [of s] lb
    by (auto simp: check_service_def no_targets_def lb_or_new_def Let_def split: option.splits sum.splits)
  then have "check_services i ns ss \<noteq> Inl (TargetsEmpty n)" for i ns ss
    by (induction ss arbitrary: i ns) (auto split: sum.splits)
  moreover have "check_routes i ns ids rs \<noteq> Some (TargetsEmpty n)" for i ns ids rs
    by (induction rs arbitrary: i ids) auto
  moreover have "check_certificates i cs \<noteq> Some (TargetsEmpty n)" for i cs
    by (induction cs arbitrary: i) auto
  ultimately show ?thesis
    by (auto simp: validateAndSetDefaults_def check_tls_def Let_def split: option.splits sum.splits)
qed

end
