(* ===== verification/Http.thy ===== *)
theory Http
  imports Config
begin

text \<open>
  The part of Go's standard library the gateway is written against: header maps with canonical
  keys, URLs, requests with their context, response writers (the server's and the recorder of
  \<^verbatim>\<open>net/http/httptest\<close>), \<^verbatim>\<open>http.Error\<close>, \<^verbatim>\<open>net.SplitHostPort\<close> and
  \<^verbatim>\<open>URL.RequestURI\<close>. The context values are those the gateway itself stores
  (\<^verbatim>\<open>router.MatchedRouteKey\<close>, \<^verbatim>\<open>plugins.UserContextKey\<close>). The writer does not model
  content sniffing: every handler of the gateway calls \<^verbatim>\<open>WriteHeader\<close> before it writes.
\<close>

section \<open>Headers\<close>

type_synonym header = "(string, string list) gomap"

definition is_alnum :: "char \<Rightarrow> bool" where
  "is_alnum c \<longleftrightarrow> (let n = of_char c :: nat in 48 \<le> n \<and> n \<le> 57 \<or> 65 \<le> n \<and> n \<le> 90 \<or> 97 \<le> n \<and> n \<le> 122)"

definition is_token_char :: "char \<Rightarrow> bool" where
  "is_token_char c \<longleftrightarrow> is_alnum c \<or> c \<in> set (CHR 0x27 # CHR 0x60 # ''!#$%&*+-.^_|~'')"

fun canon_from :: "bool \<Rightarrow> string \<Rightarrow> string" where
  "canon_from up [] = []"
| "canon_from up (c # cs) = (if up then upper_char c else lower_char c) # canon_from (c = CHR ''-'') cs"

text \<open>\<^verbatim>\<open>textproto.CanonicalMIMEHeaderKey\<close>: a key with a byte that is no token byte is left alone.\<close>

definition CanonicalKey :: "string \<Rightarrow> string" where
  "CanonicalKey s = (if list_all is_token_char s then canon_from True s else s)"

definition hValues :: "header \<Rightarrow> string \<Rightarrow> string list" where
  "hValues h k = (case map_of h (CanonicalKey k) of None \<Rightarrow> [] | Some vs \<Rightarrow> vs)"

definition hGet :: "header \<Rightarrow> string \<Rightarrow> string" where
  "hGet h k = (case hValues h k of [] \<Rightarrow> [] | v # _ \<Rightarrow> v)"

definition hSet :: "header \<Rightarrow> string \<Rightarrow> string \<Rightarrow> header" where
  "hSet h k v = AList.update (CanonicalKey k) [v] h"

definition hAdd :: "header \<Rightarrow> string \<Rightarrow> string \<Rightarrow> header" where
  "hAdd h k v = AList.update (CanonicalKey k) (hValues h k @ [v]) h"

definition hDel :: "header \<Rightarrow> string \<Rightarrow> header" where
  "hDel h k = AList.delete (CanonicalKey k) h"

text \<open>The loop \<^verbatim>\<open>for key, values := range src { for _, v := range values { dst.Add(key, v) } }\<close>.\<close>

definition add_values :: "string \<Rightarrow> string list \<Rightarrow> header \<Rightarrow> header" where
  "add_values k vs h = fold (\<lambda>v h. hAdd h k v) vs h"

definition copy_header :: "header \<Rightarrow> header \<Rightarrow> header" where
  "copy_header src dst = fold (\<lambda>(k, vs). add_values k vs) src dst"

section \<open>URLs\<close>

record url =
  u_Scheme :: string
  u_Opaque :: string
  u_User :: "string option"
  u_Host :: string
  u_Path :: string
  u_RawPath :: string
  u_OmitHost :: bool
  u_ForceQuery :: bool
  u_RawQuery :: string
  u_Fragment :: string
  u_RawFragment :: string

text \<open>\<^verbatim>\<open>shouldEscape(c, encodePath)\<close>.\<close>

definition should_escape :: "char \<Rightarrow> bool" where
  "should_escape c \<longleftrightarrow> \<not> (is_alnum c \<or> c \<in> set ''-_.~$&+,/:;=@'')"

definition hex_digit :: "nat \<Rightarrow> char" where
  "hex_digit n = (''0123456789ABCDEF'' ! (n mod 16))"

definition unhex :: "char \<Rightarrow> nat option" where
  "unhex c = (let n = of_char c :: nat in
     if 48 \<le> n \<and> n \<le> 57 then Some (n - 48)
     else if 97 \<le> n \<and> n \<le> 102 then Some (n - 87)
     else if 65 \<le> n \<and> n \<le> 70 then Some (n - 55) else None)"

fun path_escape :: "string \<Rightarrow> string" where
  "path_escape [] = []"
| "path_escape (c # cs) =
     (if should_escape c
      then CHR ''%'' # hex_digit (of_char c div 16) # hex_digit (of_char c) # path_escape cs
      else c # path_escape cs)"

fun path_unescape :: "string \<Rightarrow> string option" where
  "path_unescape [] = Some []"
| "path_unescape (c # cs) =
     (if c = CHR ''%''
      then (case cs of
              a # b # rest \<Rightarrow>
                (case (unhex a, unhex b) of
                   (Some x, Some y) \<Rightarrow> map_option (\<lambda>r. char_of (16 * x + y) # r) (path_unescape rest)
                 | _ \<Rightarrow> None)
            | _ \<Rightarrow> None)
      else map_option (\<lambda>r. c # r) (path_unescape cs))"

definition valid_encoded :: "string \<Rightarrow> bool" where
  "valid_encoded s \<longleftrightarrow> list_all (\<lambda>c. c \<in> set (CHR 0x27 # ''!$&()*+,;=:@[]%'') \<or> \<not> should_escape c) s"

definition EscapedPath :: "url \<Rightarrow> string" where
  "EscapedPath u =
     (if u_RawPath u \<noteq> [] \<and> valid_encoded (u_RawPath u) \<and> path_unescape (u_RawPath u) = Some (u_Path u)
      then u_RawPath u
      else if u_Path u = ''*'' then ''*''
      else path_escape (u_Path u))"

definition RequestURI :: "url \<Rightarrow> string" where
  "RequestURI u =
     (let base = (if u_Opaque u = []
                  then (if EscapedPath u = [] then ''/'' else EscapedPath u)
                  else if HasPrefix (u_Opaque u) ''//'' then u_Scheme u @ '':'' @ u_Opaque u
                  else u_Opaque u)
      in if u_ForceQuery u \<or> u_RawQuery u \<noteq> [] then base @ ''?'' @ u_RawQuery u else base)"

section \<open>Requests, responses and response writers\<close>

text \<open>\<^verbatim>\<open>router.MatchedRouteInfo\<close> and \<^verbatim>\<open>plugins.AuthenticatedUser\<close>, the two context values.\<close>

record MatchedRouteInfo =
  mi_RouteConfig :: RouteConfig
  mi_ServiceConfig :: ServiceConfig

record AuthenticatedUser =
  au_ID :: string
  au_Claims :: "any_map option"

record request =
  Method :: string
  URL :: url
  Host :: string
  Header :: header
  Body :: string
  RemoteAddr :: string
  ctxMatchedRoute :: "MatchedRouteInfo option"
  ctxUser :: "AuthenticatedUser option"

record response =
  StatusCode :: int
  rsHeader :: header
  rsBody :: string

text \<open>
  A response writer: the live header map, the status once \<^verbatim>\<open>WriteHeader\<close> has been called with
  the headers as they were then (what the client receives), and the body so far. A later
  \<^verbatim>\<open>WriteHeader\<close> is ignored. \<^verbatim>\<open>rwHijacked\<close> marks a connection taken over by an upgrade, which only a
  writer with \<^verbatim>\<open>rwHijacker\<close> supports: the server's, not the recorder.
\<close>

record writer =
  rwHeader :: header
  rwStatus :: "int option"
  rwSent :: header
  rwBody :: string
  rwHijacked :: bool
  rwHijacker :: bool

definition new_writer :: writer where
  "new_writer = \<lparr>rwHeader = [], rwStatus = None, rwSent = [], rwBody = [], rwHijacked = False, rwHijacker = True\<rparr>"

text \<open>\<^verbatim>\<open>httptest.NewRecorder()\<close>.\<close>

definition new_recorder :: writer where
  "new_recorder = new_writer\<lparr>rwHijacker := False\<rparr>"

definition set_header :: "string \<Rightarrow> string \<Rightarrow> writer \<Rightarrow> writer" where
  "set_header k v w = w\<lparr>rwHeader := hSet (rwHeader w) k v\<rparr>"

definition WriteHeader :: "int \<Rightarrow> writer \<Rightarrow> writer" where
  "WriteHeader code w =
     (case rwStatus w of
        None \<Rightarrow> w\<lparr>rwStatus := Some code, rwSent := rwHeader w\<rparr>
      | Some _ \<Rightarrow> w)"

definition Write :: "string \<Rightarrow> writer \<Rightarrow> writer" where
  "Write b w = (let w = (if rwStatus w = None then WriteHeader 200 w else w)
                in w\<lparr>rwBody := rwBody w @ b\<rparr>)"

text \<open>\<^verbatim>\<open>recorder.Code\<close>: 200 until something else is written.\<close>

definition rec_code :: "writer \<Rightarrow> int" where
  "rec_code w = (case rwStatus w of None \<Rightarrow> 200 | Some c \<Rightarrow> c)"

definition http_Error :: "string \<Rightarrow> int \<Rightarrow> writer \<Rightarrow> writer" where
  "http_Error msg code w =
     (let w = w\<lparr>rwHeader := hDel (rwHeader w) ''Content-Length''\<rparr>;
          w = set_header ''Content-Type'' ''text/plain; charset=utf-8'' w;
          w = set_header ''X-Content-Type-Options'' ''nosniff'' w;
          w = WriteHeader code w
      in Write (msg @ [CHR 0x0A]) w)"

definition http_NotFound :: "writer \<Rightarrow> writer" where
  "http_NotFound w = http_Error ''404 page not found'' 404 w"

section \<open>net.SplitHostPort\<close>

fun index_of :: "char \<Rightarrow> string \<Rightarrow> nat option" where
  "index_of c [] = None"
| "index_of c (x # xs) = (if x = c then Some 0 else map_option Suc (index_of c xs))"

definition last_index :: "char \<Rightarrow> string \<Rightarrow> nat option" where
  "last_index c s = map_option (\<lambda>i. length s - Suc i) (index_of c (rev s))"

definition SplitHostPort :: "string \<Rightarrow> (string \<times> string) option" where
  "SplitHostPort hp =
     (case last_index (CHR '':'') hp of
        None \<Rightarrow> None
      | Some i \<Rightarrow>
          (if HasPrefix hp ''[''
           then (case index_of (CHR '']'') hp of
                   None \<Rightarrow> None
                 | Some e \<Rightarrow>
                     (if e + 1 = i \<and> e + 1 < length hp
                         \<and> \<not> Contains (drop 1 hp) (CHR ''['') \<and> \<not> Contains (drop (e + 1) hp) (CHR '']'')
                      then Some (take (e - 1) (drop 1 hp), drop (i + 1) hp) else None))
           else (if \<not> Contains (take i hp) (CHR '':'')
                    \<and> \<not> Contains hp (CHR ''['') \<and> \<not> Contains hp (CHR '']'')
                 then Some (take i hp, drop (i + 1) hp) else None)))"

section \<open>Facts on headers and writers\<close>

lemma of_char_upper: "(of_char (upper_char c) :: nat) =
    (if 97 \<le> (of_char c :: nat) \<and> (of_char c :: nat) \<le> 122 then of_char c - 32 else of_char c)"
  by (auto simp: upper_char_def Let_def intro!: mod_less)

lemma of_char_lower: "(of_char (lower_char c) :: nat) =
    (if 65 \<le> (of_char c :: nat) \<and> (of_char c :: nat) \<le> 90 then of_char c + 32 else of_char c)"
  by (auto simp: lower_char_def Let_def)

lemma char_eq_iff_nat: "c = d \<longleftrightarrow> (of_char c :: nat) = of_char d"
  by simp

lemma upper_upper [simp]: "upper_char (upper_char c) = upper_char c"
  by (auto simp: char_eq_iff_nat of_char_upper simp del: of_char_eq_iff)

lemma lower_lower [simp]: "lower_char (lower_char c) = lower_char c"
  by (simp add: char_eq_iff_nat of_char_lower del: of_char_eq_iff)

lemma is_alnum_upper [simp]: "is_alnum (upper_char c) = is_alnum c"
  by (auto simp: is_alnum_def of_char_upper Let_def)

lemma is_alnum_lower [simp]: "is_alnum (lower_char c) = is_alnum c"
  by (auto simp: is_alnum_def of_char_lower Let_def)

lemma non_alnum_fixed: "\<not> is_alnum c \<Longrightarrow> upper_char c = c" "\<not> is_alnum c \<Longrightarrow> lower_char c = c"
  by (auto simp: is_alnum_def upper_char_def lower_char_def Let_def)

lemma dash_fixed [simp]: "upper_char c = CHR ''-'' \<longleftrightarrow> c = CHR ''-''" "lower_char c = CHR ''-'' \<longleftrightarrow> c = CHR ''-''"
  by (auto simp: char_eq_iff_nat of_char_upper of_char_lower simp del: of_char_eq_iff split: if_splits)

lemma is_token_case [simp]: "is_token_char (upper_char c) = is_token_char c"
  "is_token_char (lower_char c) = is_token_char c"
  by (cases "is_alnum c"; simp add: is_token_char_def non_alnum_fixed)+

lemma canon_from_idem: "canon_from up (canon_from up s) = canon_from up s"
  by (induction up s rule: canon_from.induct) auto

lemma canon_from_token: "list_all is_token_char (canon_from up s) = list_all is_token_char s"
  by (induction up s rule: canon_from.induct) auto

lemma CanonicalKey_idem [simp]: "CanonicalKey (CanonicalKey k) = CanonicalKey k"
  by (simp add: CanonicalKey_def canon_from_idem canon_from_token)

lemma hValues_hSet [go_map]:
  "hValues (hSet h k v) k' = (if CanonicalKey k' = CanonicalKey k then [v] else hValues h k')"
  by (simp add: hValues_def hSet_def lookup_update)

lemma hValues_hAdd [go_map]:
  "hValues (hAdd h k v) k' = (if CanonicalKey k' = CanonicalKey k then hValues h k @ [v] else hValues h k')"
  by (simp add: hValues_def hAdd_def lookup_update)

lemma hValues_hDel [go_map]:
  "hValues (hDel h k) k' = (if CanonicalKey k' = CanonicalKey k then [] else hValues h k')"
  by (simp add: hValues_def hDel_def lookup_delete)

lemma hGet_hSet [go_map]:
  "hGet (hSet h k v) k' = (if CanonicalKey k' = CanonicalKey k then v else hGet h k')"
  by (simp add: hGet_def hValues_hSet)

lemma wf_header [simp]:
  "wf_gomap h \<Longrightarrow> wf_gomap (hSet h k v)" "wf_gomap h \<Longrightarrow> wf_gomap (hAdd h k v)"
  "wf_gomap h \<Longrightarrow> wf_gomap (hDel h k)"
  by (simp_all add: hSet_def hAdd_def hDel_def)

lemma hValues_add_values [go_map]:
  "hValues (add_values k vs h) k' = (if CanonicalKey k' = CanonicalKey k then hValues h k @ vs else hValues h k')"
proof (induction vs arbitrary: h)
  case Nil
  then show ?case by (simp add: add_values_def hValues_def)
next
  case (Cons v vs)
  have "add_values k (v # vs) h = add_values k vs (hAdd h k v)" by (simp add: add_values_def)
  then show ?case by (simp add: Cons.IH hValues_hAdd)
qed

text \<open>The copy loop appends, for every key, the values of all source keys with that canonical form.\<close>

lemma hValues_copy_header:
  "hValues (copy_header src dst) k =
     hValues dst k @ concat (map snd (filter (\<lambda>(k', _). CanonicalKey k' = CanonicalKey k) src))"
  by (induction src arbitrary: dst) (auto simp: copy_header_def hValues_add_values, simp_all add: hValues_def)

lemma rwStatus_http_Error [simp]:
  "rwStatus (http_Error m c w) = (case rwStatus w of None \<Rightarrow> Some c | Some c' \<Rightarrow> Some c')"
  by (simp add: http_Error_def Write_def WriteHeader_def set_header_def Let_def split: option.splits)

lemma rwBody_http_Error: "rwBody (http_Error m c w) = rwBody w @ m @ [CHR 0x0A]"
  by (simp add: http_Error_def Write_def WriteHeader_def set_header_def Let_def split: option.splits)

lemma set_header_status [simp]: "rwStatus (set_header k v w) = rwStatus w"
  "rwBody (set_header k v w) = rwBody w" "rwSent (set_header k v w) = rwSent w"
  "rwHijacked (set_header k v w) = rwHijacked w"
  by (simp_all add: set_header_def)

end
