(* ===== verification/LoadBalancer.thy ===== *)
theory LoadBalancer
  imports Http
begin

text \<open>
  Upstream targets and the four load balancers (\<^verbatim>\<open>src/app/proxy/loadbalancer.go\<close>).
  \<^verbatim>\<open>*UpstreamTarget\<close> pointers are shared between a balancer, the requests in flight and the
  health updates, so targets live in a store and balancers hold addresses. The value of
  \<^verbatim>\<open>rand.Intn\<close> is an argument of \<^verbatim>\<open>Next\<close>. The interface \<^verbatim>\<open>LoadBalancer\<close> is a locale, and
  each strategy interprets it.
\<close>

section \<open>Upstream targets\<close>

record UpstreamTarget =
  ut_URL :: url
  Healthy :: bool
  Weight :: int
  activeConnections :: int

type_synonym addr = nat
type_synonym target_heap = "addr \<Rightarrow> UpstreamTarget"

definition SetHealth :: "bool \<Rightarrow> UpstreamTarget \<Rightarrow> UpstreamTarget" where
  "SetHealth b t = t\<lparr>Healthy := b\<rparr>"

definition IsHealthy :: "UpstreamTarget \<Rightarrow> bool" where
  "IsHealthy t = Healthy t"

definition IncrementActiveConnections :: "UpstreamTarget \<Rightarrow> UpstreamTarget" where
  "IncrementActiveConnections t = t\<lparr>activeConnections := i64 (activeConnections t + 1)\<rparr>"

definition DecrementActiveConnections :: "UpstreamTarget \<Rightarrow> UpstreamTarget" where
  "DecrementActiveConnections t = t\<lparr>activeConnections := i64 (activeConnections t - 1)\<rparr>"

definition GetActiveConnections :: "UpstreamTarget \<Rightarrow> int" where
  "GetActiveConnections t = activeConnections t"

text \<open>The addresses of the healthy targets, in order.\<close>

definition healthyTargets :: "target_heap \<Rightarrow> addr list \<Rightarrow> addr list" where
  "healthyTargets h ts = filter (\<lambda>a. IsHealthy (h a)) ts"

section \<open>Balancers\<close>

record roundRobinLoadBalancer =
  rr_serviceName :: string
  rr_targets :: "addr list"
  rr_nextIndex :: "32 word"

record randomLoadBalancer =
  rd_serviceName :: string
  rd_targets :: "addr list"

record weightedRandomLoadBalancer =
  wr_serviceName :: string
  wr_targets :: "addr list"

record leastConnectionsLoadBalancer =
  lc_serviceName :: string
  lc_targets :: "addr list"

datatype LoadBalancer =
    RoundRobin roundRobinLoadBalancer
  | Random randomLoadBalancer
  | Weighted weightedRandomLoadBalancer
  | LeastConnections leastConnectionsLoadBalancer

datatype lb_error =
    ConfigOrTargetsMissing string
  | NoValidTargets string
  | NoTargetsAvailable string
  | NoHealthyTargets string

subsection \<open>Round robin\<close>

definition newRoundRobinLoadBalancer :: "string \<Rightarrow> addr list \<Rightarrow> roundRobinLoadBalancer" where
  "newRoundRobinLoadBalancer name ts = \<lparr>rr_serviceName = name, rr_targets = ts, rr_nextIndex = 0\<rparr>"

text \<open>
  The loop \<^verbatim>\<open>for range numTargets\<close>: each round adds one to the shared 32-bit index, looks at the
  target the old value selects modulo the number of targets, and stops at a healthy one.
\<close>

fun rr_loop :: "nat \<Rightarrow> target_heap \<Rightarrow> addr list \<Rightarrow> 32 word \<Rightarrow> 32 word \<times> addr option" where
  "rr_loop 0 h ts idx = (idx, None)"
| "rr_loop (Suc k) h ts idx =
     (let idx' = idx + 1;
          currentIndex = idx' - 1;
          target = ts ! unat (currentIndex mod word_of_nat (length ts))
      in if IsHealthy (h target) then (idx', Some target) else rr_loop k h ts idx')"

definition rr_Next :: "target_heap \<Rightarrow> roundRobinLoadBalancer
    \<Rightarrow> roundRobinLoadBalancer \<times> (lb_error + addr)" where
  "rr_Next h lb =
     (if rr_targets lb = [] then (lb, Inl (NoTargetsAvailable (rr_serviceName lb)))
      else
        let (idx, r) = rr_loop (length (rr_targets lb)) h (rr_targets lb) (rr_nextIndex lb)
        in (lb\<lparr>rr_nextIndex := idx\<rparr>,
            case r of Some a \<Rightarrow> Inr a | None \<Rightarrow> Inl (NoHealthyTargets (rr_serviceName lb))))"

definition rr_UpdateTargets :: "addr list \<Rightarrow> roundRobinLoadBalancer \<Rightarrow> roundRobinLoadBalancer" where
  "rr_UpdateTargets ts lb = lb\<lparr>rr_targets := ts, rr_nextIndex := 0\<rparr>"

subsection \<open>Random\<close>

definition newRandomLoadBalancer :: "string \<Rightarrow> addr list \<Rightarrow> randomLoadBalancer" where
  "newRandomLoadBalancer name ts = \<lparr>rd_serviceName = name, rd_targets = ts\<rparr>"

definition rd_Next :: "(int \<Rightarrow> int) \<Rightarrow> target_heap \<Rightarrow> randomLoadBalancer
    \<Rightarrow> randomLoadBalancer \<times> (lb_error + addr)" where
  "rd_Next intn h lb =
     (if rd_targets lb = [] then (lb, Inl (NoTargetsAvailable (rd_serviceName lb)))
      else
        let healthy = healthyTargets h (rd_targets lb)
        in if healthy = [] then (lb, Inl (NoHealthyTargets (rd_serviceName lb)))
           else (lb, Inr (healthy ! nat (intn (int (length healthy))))))"

definition rd_UpdateTargets :: "addr list \<Rightarrow> randomLoadBalancer \<Rightarrow> randomLoadBalancer" where
  "rd_UpdateTargets ts lb = lb\<lparr>rd_targets := ts\<rparr>"

subsection \<open>Weighted random\<close>

definition newWeightedRandomLoadBalancer :: "string \<Rightarrow> addr list \<Rightarrow> weightedRandomLoadBalancer" where
  "newWeightedRandomLoadBalancer name ts = \<lparr>wr_serviceName = name, wr_targets = ts\<rparr>"

definition totalWeight :: "target_heap \<Rightarrow> addr list \<Rightarrow> int" where
  "totalWeight h ts = foldl (\<lambda>acc a. i64 (acc + Weight (h a))) 0 ts"

fun weighted_loop :: "target_heap \<Rightarrow> int \<Rightarrow> int \<Rightarrow> addr list \<Rightarrow> addr option" where
  "weighted_loop h randomNumber cumulativeWeight [] = None"
| "weighted_loop h randomNumber cumulativeWeight (a # as) =
     (let cumulativeWeight' = i64 (cumulativeWeight + Weight (h a))
      in if randomNumber < cumulativeWeight' then Some a
         else weighted_loop h randomNumber cumulativeWeight' as)"

definition wr_Next :: "(int \<Rightarrow> int) \<Rightarrow> target_heap \<Rightarrow> weightedRandomLoadBalancer
    \<Rightarrow> weightedRandomLoadBalancer \<times> (lb_error + addr)" where
  "wr_Next intn h lb =
     (if wr_targets lb = [] then (lb, Inl (NoTargetsAvailable (wr_serviceName lb)))
      else
        let healthy = healthyTargets h (wr_targets lb);
            total = totalWeight h healthy
        in if healthy = [] then (lb, Inl (NoHealthyTargets (wr_serviceName lb)))
           else if total \<le> 0 then (lb, Inr (healthy ! nat (intn (int (length healthy)))))
           else (case weighted_loop h (intn total) 0 healthy of
                   Some a \<Rightarrow> (lb, Inr a)
                 | None \<Rightarrow> (lb, Inr (last healthy))))"

definition wr_UpdateTargets :: "addr list \<Rightarrow> weightedRandomLoadBalancer \<Rightarrow> weightedRandomLoadBalancer" where
  "wr_UpdateTargets ts lb = lb\<lparr>wr_targets := ts\<rparr>"

subsection \<open>Least connections\<close>

definition newLeastConnectionsLoadBalancer :: "string \<Rightarrow> addr list \<Rightarrow> leastConnectionsLoadBalancer" where
  "newLeastConnectionsLoadBalancer name ts = \<lparr>lc_serviceName = name, lc_targets = ts\<rparr>"

text \<open>The scan keeps \<^verbatim>\<open>bestTarget\<close> (nil or an address) and \<^verbatim>\<open>minConnections\<close>.\<close>

fun lc_loop :: "target_heap \<Rightarrow> addr option \<Rightarrow> int \<Rightarrow> addr list \<Rightarrow> addr option" where
  "lc_loop h best minc [] = best"
| "lc_loop h best minc (a # as) =
     (if IsHealthy (h a)
      then (let cur = GetActiveConnections (h a)
            in if best = None \<or> cur < minc then lc_loop h (Some a) cur as
               else lc_loop h best minc as)
      else lc_loop h best minc as)"

definition lc_Next :: "target_heap \<Rightarrow> leastConnectionsLoadBalancer
    \<Rightarrow> leastConnectionsLoadBalancer \<times> (lb_error + addr)" where
  "lc_Next h lb =
     (if lc_targets lb = [] then (lb, Inl (NoTargetsAvailable (lc_serviceName lb)))
      else (case lc_loop h None (-1) (lc_targets lb) of
              None \<Rightarrow> (lb, Inl (NoHealthyTargets (lc_serviceName lb)))
            | Some a \<Rightarrow> (lb, Inr a)))"

definition lc_UpdateTargets :: "addr list \<Rightarrow> leastConnectionsLoadBalancer \<Rightarrow> leastConnectionsLoadBalancer" where
  "lc_UpdateTargets ts lb = lb\<lparr>lc_targets := ts\<rparr>"

subsection \<open>The interface methods\<close>

fun Next :: "(int \<Rightarrow> int) \<Rightarrow> target_heap \<Rightarrow> LoadBalancer \<Rightarrow> LoadBalancer \<times> (lb_error + addr)" where
  "Next intn h (RoundRobin lb) = map_prod RoundRobin id (rr_Next h lb)"
| "Next intn h (Random lb) = map_prod Random id (rd_Next intn h lb)"
| "Next intn h (Weighted lb) = map_prod Weighted id (wr_Next intn h lb)"
| "Next intn h (LeastConnections lb) = map_prod LeastConnections id (lc_Next h lb)"

fun UpdateTargets :: "addr list \<Rightarrow> LoadBalancer \<Rightarrow> LoadBalancer" where
  "UpdateTargets ts (RoundRobin lb) = RoundRobin (rr_UpdateTargets ts lb)"
| "UpdateTargets ts (Random lb) = Random (rd_UpdateTargets ts lb)"
| "UpdateTargets ts (Weighted lb) = Weighted (wr_UpdateTargets ts lb)"
| "UpdateTargets ts (LeastConnections lb) = LeastConnections (lc_UpdateTargets ts lb)"

fun GetServiceName :: "LoadBalancer \<Rightarrow> string" where
  "GetServiceName (RoundRobin lb) = rr_serviceName lb"
| "GetServiceName (Random lb) = rd_serviceName lb"
| "GetServiceName (Weighted lb) = wr_serviceName lb"
| "GetServiceName (LeastConnections lb) = lc_serviceName lb"

fun lb_targets :: "LoadBalancer \<Rightarrow> addr list" where
  "lb_targets (RoundRobin lb) = rr_targets lb"
| "lb_targets (Random lb) = rd_targets lb"
| "lb_targets (Weighted lb) = wr_targets lb"
| "lb_targets (LeastConnections lb) = lc_targets lb"

subsection \<open>Construction\<close>

text \<open>The store: targets by address, and the next free address.\<close>

record target_store =
  ts_heap :: target_heap
  ts_next :: addr

definition alloc_target :: "UpstreamTarget \<Rightarrow> target_store \<Rightarrow> target_store \<times> addr" where
  "alloc_target t st = (st\<lparr>ts_heap := (ts_heap st)(ts_next st := t), ts_next := Suc (ts_next st)\<rparr>, ts_next st)"

text \<open>The loop over the configured targets; a URL that does not parse is skipped.\<close>

fun init_targets :: "(string \<Rightarrow> url option) \<Rightarrow> TargetConfig list \<Rightarrow> target_store \<Rightarrow> target_store \<times> addr list" where
  "init_targets parse [] st = (st, [])"
| "init_targets parse (t # ts) st =
     (case parse (tc_URL t) of
        None \<Rightarrow> init_targets parse ts st
      | Some u \<Rightarrow>
          (let (st1, a) = alloc_target
                 \<lparr>ut_URL = u, Healthy = True, Weight = tc_Weight t, activeConnections = 0\<rparr> st;
               (st2, as) = init_targets parse ts st1
           in (st2, a # as)))"

text \<open>The weighted strategy replaces a weight that is not positive by 1.\<close>

definition default_weight :: "addr \<Rightarrow> target_heap \<Rightarrow> target_heap" where
  "default_weight a h = (if Weight (h a) \<le> 0 then h(a := (h a)\<lparr>Weight := 1\<rparr>) else h)"

definition NewLoadBalancer :: "(string \<Rightarrow> url option) \<Rightarrow> ServiceConfig \<Rightarrow> target_store
    \<Rightarrow> lb_error + (target_store \<times> LoadBalancer)" where
  "NewLoadBalancer parse svc st =
     (case LoadBalancing svc of
        None \<Rightarrow> Inl (ConfigOrTargetsMissing (svc_Name svc))
      | Some lbc \<Rightarrow>
          (if Targets lbc = [] then Inl (ConfigOrTargetsMissing (svc_Name svc))
           else
             let (st1, targets) = init_targets parse (Targets lbc) st;
                 strategy = ToLower (Strategy lbc);
                 name = svc_Name svc
             in if targets = [] then Inl (NoValidTargets name)
                else if strategy = ''round-robin'' then Inr (st1, RoundRobin (newRoundRobinLoadBalancer name targets))
                else if strategy = ''random'' then Inr (st1, Random (newRandomLoadBalancer name targets))
                else if strategy = ''weighted''
                then Inr (st1\<lparr>ts_heap := fold default_weight targets (ts_heap st1)\<rparr>,
                          Weighted (newWeightedRandomLoadBalancer name targets))
                else if strategy = ''least-connections''
                then Inr (st1, LeastConnections (newLeastConnectionsLoadBalancer name targets))
                else Inr (st1, RoundRobin (newRoundRobinLoadBalancer name targets))))"

section \<open>The interface as a contract\<close>

text \<open>The documented range of \<^verbatim>\<open>rand.Intn\<close>.\<close>

definition good_intn :: "(int \<Rightarrow> int) \<Rightarrow> bool" where
  "good_intn intn \<longleftrightarrow> (\<forall>n > 0. 0 \<le> intn n \<and> intn n < n)"

text \<open>
  What the proxy relies on: the target a balancer returns is one of its targets and healthy; in a
  state it calls ready it fails only if no target is healthy; choosing does not change the
  targets and keeps the balancer's invariant.
\<close>

locale balancer =
  fixes nxt :: "(int \<Rightarrow> int) \<Rightarrow> target_heap \<Rightarrow> 'lb \<Rightarrow> 'lb \<times> (lb_error + addr)"
    and tgts :: "'lb \<Rightarrow> addr list"
    and update :: "addr list \<Rightarrow> 'lb \<Rightarrow> 'lb"
    and service :: "'lb \<Rightarrow> string"
    and invar :: "'lb \<Rightarrow> bool"
    and ready :: "'lb \<Rightarrow> bool"
  assumes nxt_sound: "good_intn intn \<Longrightarrow> invar lb \<Longrightarrow> snd (nxt intn h lb) = Inr a
      \<Longrightarrow> a \<in> set (healthyTargets h (tgts lb))"
    and nxt_complete: "good_intn intn \<Longrightarrow> invar lb \<Longrightarrow> ready lb \<Longrightarrow> healthyTargets h (tgts lb) \<noteq> []
      \<Longrightarrow> \<exists>a. snd (nxt intn h lb) = Inr a"
    and nxt_invar: "invar lb \<Longrightarrow> invar (fst (nxt intn h lb))"
    and nxt_frame: "tgts (fst (nxt intn h lb)) = tgts lb"
    and nxt_service: "service (fst (nxt intn h lb)) = service lb"
    and tgts_update: "tgts (update ts lb) = ts"
    and service_update: "service (update ts lb) = service lb"
begin

lemma nxt_fails_iff:
  assumes "good_intn intn" and "invar lb" and "ready lb"
  shows "(\<exists>e. snd (nxt intn h lb) = Inl e) \<longleftrightarrow> healthyTargets h (tgts lb) = []"
proof (cases "snd (nxt intn h lb)")
  case (Inl e)
  with nxt_complete [OF assms, of h] show ?thesis by fastforce
next
  case (Inr a)
  with nxt_sound [OF assms(1,2) Inr] show ?thesis by auto
qed

lemma nxt_fails_unhealthy:
  assumes "good_intn intn" and "invar lb" and "healthyTargets h (tgts lb) = []"
  shows "\<exists>e. snd (nxt intn h lb) = Inl e"
  using nxt_sound [OF assms(1,2)] assms(3) by (cases "snd (nxt intn h lb)") fastforce+

text \<open>A target that is not healthy is never chosen, whatever the randomness.\<close>

lemma nxt_avoids_unhealthy:
  assumes "good_intn intn" and "invar lb" and "\<not> IsHealthy (h a)"
  shows "snd (nxt intn h lb) \<noteq> Inr a"
  using nxt_sound [OF assms(1,2)] assms(3) by (auto simp: healthyTargets_def)

end

section \<open>Round robin\<close>

lemma healthyTargets_empty: "healthyTargets h ts = [] \<longleftrightarrow> (\<forall>a \<in> set ts. \<not> IsHealthy (h a))"
  by (auto simp: healthyTargets_def filter_empty_conv)

lemma set_healthyTargets: "set (healthyTargets h ts) = {a \<in> set ts. IsHealthy (h a)}"
  by (simp add: healthyTargets_def)

text \<open>The position the index value selects.\<close>

definition rr_slot :: "addr list \<Rightarrow> 32 word \<Rightarrow> addr" where
  "rr_slot ts idx = ts ! unat (idx mod word_of_nat (length ts))"

lemma rr_loop_find:
  "snd (rr_loop k h ts idx) = List.find (\<lambda>a. IsHealthy (h a)) (map (\<lambda>j. rr_slot ts (idx + word_of_nat j)) [0..<k])"
proof (induction k arbitrary: idx)
  case (Suc k)
  have "[0..<Suc k] = 0 # map Suc [0..<k]" by (simp add: upt_conv_Cons map_Suc_upt)
  then show ?case
    using Suc.IH [of "idx + 1"] by (simp add: rr_slot_def Let_def comp_def add.assoc)
qed simp

text \<open>The index never wraps inside a scan, or wrapping does not change it modulo the targets.\<close>

definition rr_ready :: "roundRobinLoadBalancer \<Rightarrow> bool" where
  "rr_ready lb \<longleftrightarrow> (length (rr_targets lb) dvd 2 ^ 32 \<or> unat (rr_nextIndex lb) + length (rr_targets lb) \<le> 2 ^ 32)"

lemma unat_add_of_nat32: "unat (idx + word_of_nat j :: 32 word) = (unat idx + j) mod 2 ^ 32"
  by (simp add: unat_word_ariths unat_of_nat mod_add_right_eq)

lemma unat_mod32: "n < 2 ^ 32 \<Longrightarrow> unat (idx mod word_of_nat n :: 32 word) = unat idx mod n"
  by (simp add: unat_mod_distrib unat_of_nat)

lemma rr_slot_index:
  assumes "n = length ts" "n < 2 ^ 32" "n dvd 2 ^ 32 \<or> unat idx + j < 2 ^ 32"
  shows "rr_slot ts (idx + word_of_nat j) = ts ! ((unat idx + j) mod n)"
proof -
  have "(unat idx + j) mod 2 ^ 32 mod n = (unat idx + j) mod n"
    using assms(3) by (auto simp: mod_mod_cancel)
  then show ?thesis using assms(1,2) by (simp add: rr_slot_def unat_mod32 unat_add_of_nat32)
qed

lemma rr_slot_in: "ts \<noteq> [] \<Longrightarrow> length ts < 2 ^ 32 \<Longrightarrow> rr_slot ts idx \<in> set ts"
  by (simp add: rr_slot_def unat_mod32)

lemma residue_hit:
  fixes s n i :: nat
  assumes "i < n"
  shows "\<exists>j < n. (s + j) mod n = i"
proof (intro exI conjI)
  let ?j = "(i + (n - s mod n)) mod n"
  show "?j < n" using assms by simp
  have "(s + ?j) mod n = (s mod n + (i + (n - s mod n))) mod n"
    by (simp add: mod_add_left_eq mod_add_right_eq)
  also have "s mod n + (i + (n - s mod n)) = n + i"
    using assms mod_less_divisor [of n s] by linarith
  finally show "(s + ?j) mod n = i" using assms by simp
qed

text \<open>In a ready state the scan looks at every target.\<close>

lemma rr_scan_covers:
  assumes n: "length (rr_targets lb) < 2 ^ 32" and "rr_ready lb" and "rr_targets lb \<noteq> []"
  shows "set (map (\<lambda>j. rr_slot (rr_targets lb) (rr_nextIndex lb + word_of_nat j)) [0..<length (rr_targets lb)])
    = set (rr_targets lb)" (is "set (map ?s _) = _")
proof
  let ?ts = "rr_targets lb" and ?n = "length (rr_targets lb)"
  show "set (map ?s [0..<?n]) \<subseteq> set ?ts"
    using rr_slot_in [OF assms(3) n] by auto
  show "set ?ts \<subseteq> set (map ?s [0..<?n])"
  proof
    fix a assume "a \<in> set ?ts"
    then obtain i where i: "i < ?n" "?ts ! i = a" by (auto simp: in_set_conv_nth)
    then obtain j where j: "j < ?n" "(unat (rr_nextIndex lb) + j) mod ?n = i"
      using residue_hit by blast
    have "?s j = a"
      using rr_slot_index [OF refl n, of "rr_nextIndex lb" j] assms(2) j i by (auto simp: rr_ready_def)
    with j(1) show "a \<in> set (map ?s [0..<?n])" by force
  qed
qed

lemma rr_Next_loop:
  "rr_targets lb \<noteq> [] \<Longrightarrow> snd (rr_Next h lb) = (case snd (rr_loop (length (rr_targets lb)) h (rr_targets lb) (rr_nextIndex lb))
     of Some a \<Rightarrow> Inr a | None \<Rightarrow> Inl (NoHealthyTargets (rr_serviceName lb)))"
  by (simp add: rr_Next_def case_prod_beta)

lemma rr_Next_frame: "rr_targets (fst (rr_Next h lb)) = rr_targets lb"
    "rr_serviceName (fst (rr_Next h lb)) = rr_serviceName lb"
  by (simp_all add: rr_Next_def case_prod_beta)

text \<open>
  Soundness needs no readiness, only that the number of targets fits the 32-bit conversion.
\<close>

lemma rr_Next_sound:
  assumes "length (rr_targets lb) < 2 ^ 32" and "snd (rr_Next h lb) = Inr a"
  shows "a \<in> set (healthyTargets h (rr_targets lb))"
proof -
  have ne: "rr_targets lb \<noteq> []" using assms(2) by (auto simp: rr_Next_def)
  then have "snd (rr_loop (length (rr_targets lb)) h (rr_targets lb) (rr_nextIndex lb)) = Some a"
    using assms(2) by (simp add: rr_Next_loop split: option.splits)
  then have "IsHealthy (h a)" "\<exists>j. a = rr_slot (rr_targets lb) (rr_nextIndex lb + word_of_nat j)"
    by (auto simp: rr_loop_find find_Some_iff)
  with rr_slot_in [OF ne assms(1)] show ?thesis by (auto simp: set_healthyTargets)
qed

lemma rr_Next_complete:
  assumes "length (rr_targets lb) < 2 ^ 32" and "rr_ready lb" and "healthyTargets h (rr_targets lb) \<noteq> []"
  shows "\<exists>a. snd (rr_Next h lb) = Inr a"
proof -
  have ne: "rr_targets lb \<noteq> []" using assms(3) by (auto simp: healthyTargets_def)
  obtain a where "a \<in> set (rr_targets lb)" "IsHealthy (h a)"
    using assms(3) by (auto simp: healthyTargets_empty)
  then have "snd (rr_loop (length (rr_targets lb)) h (rr_targets lb) (rr_nextIndex lb)) \<noteq> None"
    using rr_scan_covers [OF assms(1,2) ne] unfolding rr_loop_find find_None_set by blast
  with ne show ?thesis by (auto simp: rr_Next_loop)
qed

section \<open>Random and weighted random\<close>

lemma random_index: "good_intn intn \<Longrightarrow> xs \<noteq> [] \<Longrightarrow> xs ! nat (intn (int (length xs))) \<in> set xs"
  by (rule nth_mem) (simp add: good_intn_def nat_less_iff)

lemma weighted_loop_in: "weighted_loop h r c ts = Some a \<Longrightarrow> a \<in> set ts"
  by (induction h r c ts rule: weighted_loop.induct) (auto simp: Let_def split: if_splits)

lemma rd_Next_sound: "good_intn intn \<Longrightarrow> snd (rd_Next intn h lb) = Inr a
    \<Longrightarrow> a \<in> set (healthyTargets h (rd_targets lb))"
  by (auto simp: rd_Next_def Let_def random_index split: if_splits)

lemma wr_Next_sound: "good_intn intn \<Longrightarrow> snd (wr_Next intn h lb) = Inr a
    \<Longrightarrow> a \<in> set (healthyTargets h (wr_targets lb))"
  by (auto simp: wr_Next_def Let_def random_index split: if_splits option.splits dest: weighted_loop_in)

subsection \<open>The weighted choice is proportional to the weights\<close>

text \<open>Sums that stay in 64 bits: the prefix sums of the weights, without wrap-around.\<close>

definition weights_fit :: "target_heap \<Rightarrow> addr list \<Rightarrow> bool" where
  "weights_fit h ts \<longleftrightarrow> (\<forall>a \<in> set ts. 0 < Weight (h a)) \<and> (\<Sum>a\<leftarrow>ts. Weight (h a)) < 2 ^ 63"

lemma weight_step:
  assumes "\<forall>x \<in> set (b # ts). 0 < Weight (h x)" "0 \<le> c" "c + (\<Sum>x\<leftarrow>b # ts. Weight (h x)) < 2 ^ 63"
  shows "i64 (c + Weight (h b)) = c + Weight (h b)" and "0 \<le> (\<Sum>x\<leftarrow>ts. Weight (h x))"
    and "0 < Weight (h b)" and "c + Weight (h b) + (\<Sum>x\<leftarrow>ts. Weight (h x)) < 2 ^ 63"
proof -
  show nn: "0 \<le> (\<Sum>x\<leftarrow>ts. Weight (h x))"
    using assms(1) by (intro sum_list_nonneg) force
  then show "i64 (c + Weight (h b)) = c + Weight (h b)"
    using assms by (intro i64_id) (simp add: in_i64_def)
qed (use assms in simp_all)

lemma totalWeight_from:
  assumes "\<forall>a \<in> set ts. 0 < Weight (h a)" "0 \<le> c" "c + (\<Sum>a\<leftarrow>ts. Weight (h a)) < 2 ^ 63"
  shows "foldl (\<lambda>acc a. i64 (acc + Weight (h a))) c ts = c + (\<Sum>a\<leftarrow>ts. Weight (h a))"
  using assms
proof (induction ts arbitrary: c)
  case (Cons a ts)
  note st = weight_step [OF Cons.prems]
  show ?case using Cons.IH [of "c + Weight (h a)"] Cons.prems st by simp
qed simp

lemma totalWeight_sum: "weights_fit h ts \<Longrightarrow> totalWeight h ts = (\<Sum>a\<leftarrow>ts. Weight (h a))"
  using totalWeight_from [of ts h 0] by (simp add: totalWeight_def weights_fit_def)

text \<open>
  The numbers that select a target form an interval whose length is the target's weight: with the
  cumulative weight \<^term>\<open>c\<close> before the scan, exactly the weight's share of the numbers from
  \<^term>\<open>c\<close> on picks it.
\<close>

lemma weighted_loop_share:
  assumes "distinct ts" "\<forall>a \<in> set ts. 0 < Weight (h a)" "0 \<le> c" "c + (\<Sum>a\<leftarrow>ts. Weight (h a)) < 2 ^ 63"
    and "a \<in> set ts"
  shows "card {r. c \<le> r \<and> weighted_loop h r c ts = Some a} = nat (Weight (h a))"
  using assms
proof (induction ts arbitrary: c)
  case (Cons b ts)
  let ?w = "Weight (h b)"
  note st = weight_step [OF Cons.prems(2,3,4)]
  note c' = st(1)
  show ?case
  proof (cases "a = b")
    case True
    with Cons.prems(1) have "a \<notin> set ts" by simp
    then have "{r. c \<le> r \<and> weighted_loop h r c (b # ts) = Some a} = {c..<c + ?w}"
      using True c' by (auto simp: Let_def dest: weighted_loop_in split: if_splits)
    with True show ?thesis by simp
  next
    case False
    then have "{r. c \<le> r \<and> weighted_loop h r c (b # ts) = Some a}
        = {r. c + ?w \<le> r \<and> weighted_loop h r (c + ?w) ts = Some a}"
      using c' st(3) by (auto simp: Let_def not_less split: if_splits)
    with Cons.IH [of "c + ?w"] Cons.prems False st show ?thesis by simp
  qed
qed simp

lemma weighted_loop_iff:
  "\<forall>a \<in> set ts. 0 < Weight (h a) \<Longrightarrow> 0 \<le> c \<Longrightarrow> c + (\<Sum>a\<leftarrow>ts. Weight (h a)) < 2 ^ 63
   \<Longrightarrow> c \<le> r \<Longrightarrow> (\<exists>a. weighted_loop h r c ts = Some a) \<longleftrightarrow> r < c + (\<Sum>a\<leftarrow>ts. Weight (h a))"
proof (induction ts arbitrary: c)
  case (Cons b ts)
  note st = weight_step [OF Cons.prems(1,2,3)]
  with Cons show ?case
    by (cases "r < c + Weight (h b)") (simp_all add: Let_def add.assoc)
qed simp

section \<open>Least connections\<close>

text \<open>
  What the scan computes: from a current best with its count, the first target with the least
  count among the best and the healthy ones that follow.
\<close>

definition lc_best :: "target_heap \<Rightarrow> addr list \<Rightarrow> addr \<Rightarrow> bool" where
  "lc_best h ts a \<longleftrightarrow> (\<exists>i < length ts. ts ! i = a \<and> IsHealthy (h a)
     \<and> (\<forall>j < i. IsHealthy (h (ts ! j)) \<longrightarrow> activeConnections (h a) < activeConnections (h (ts ! j)))
     \<and> (\<forall>b \<in> set ts. IsHealthy (h b) \<longrightarrow> activeConnections (h a) \<le> activeConnections (h b)))"

lemma lc_loop_mono: "lc_loop h (Some b) (activeConnections (h b)) ts = Some a \<Longrightarrow>
    activeConnections (h a) \<le> activeConnections (h b) \<and> (a = b \<or> a \<in> set ts \<and> IsHealthy (h a)
      \<and> activeConnections (h a) < activeConnections (h b))"
  by (induction ts arbitrary: b)
     (fastforce simp: Let_def GetActiveConnections_def split: if_splits)+

lemma lc_loop_not_None: "lc_loop h (Some b) m ts \<noteq> None"
  by (induction ts arbitrary: b m) (auto simp: Let_def)

lemma lc_loop_best:
  "IsHealthy (h b) \<Longrightarrow> lc_loop h (Some b) (activeConnections (h b)) ts = Some a \<Longrightarrow> lc_best h (b # ts) a"
proof (induction ts arbitrary: b)
  case Nil
  then show ?case by (simp add: lc_best_def)
next
  case (Cons c ts)
  show ?case
  proof (cases "IsHealthy (h c) \<and> activeConnections (h c) < activeConnections (h b)")
    case True
    with Cons.prems have rec: "lc_loop h (Some c) (activeConnections (h c)) ts = Some a"
      by (simp add: Let_def GetActiveConnections_def)
    with Cons.IH True obtain i where i: "i < length (c # ts)" "(c # ts) ! i = a" "IsHealthy (h a)"
      "\<forall>j < i. IsHealthy (h ((c # ts) ! j)) \<longrightarrow> activeConnections (h a) < activeConnections (h ((c # ts) ! j))"
      "\<forall>d \<in> set (c # ts). IsHealthy (h d) \<longrightarrow> activeConnections (h a) \<le> activeConnections (h d)"
      unfolding lc_best_def by blast
    have "activeConnections (h a) < activeConnections (h b)"
      using lc_loop_mono [OF rec] True by linarith
    with i show ?thesis unfolding lc_best_def
      by (intro exI [of _ "Suc i"]) (auto simp: less_Suc_eq_0_disj)
  next
    case False
    with Cons.prems have "lc_loop h (Some b) (activeConnections (h b)) ts = Some a"
      by (auto simp: Let_def GetActiveConnections_def split: if_splits)
    with Cons.IH Cons.prems(1) obtain i where i: "i < length (b # ts)" "(b # ts) ! i = a" "IsHealthy (h a)"
      "\<forall>j < i. IsHealthy (h ((b # ts) ! j)) \<longrightarrow> activeConnections (h a) < activeConnections (h ((b # ts) ! j))"
      "\<forall>d \<in> set (b # ts). IsHealthy (h d) \<longrightarrow> activeConnections (h a) \<le> activeConnections (h d)"
      unfolding lc_best_def by blast
    show ?thesis
    proof (cases i)
      case 0
      with i False show ?thesis unfolding lc_best_def by (intro exI [of _ 0]) auto
    next
      case (Suc k)
      with i Cons.prems(1) have "activeConnections (h a) < activeConnections (h b)" by force
      with i False Suc show ?thesis unfolding lc_best_def
        by (intro exI [of _ "Suc (Suc k)"]) (auto simp: less_Suc_eq_0_disj)
    qed
  qed
qed

lemma lc_best_skip: "\<not> IsHealthy (h b) \<Longrightarrow> lc_best h ts a \<Longrightarrow> lc_best h (b # ts) a"
  unfolding lc_best_def by (elim exE conjE, rule_tac x = "Suc i" in exI) (auto simp: less_Suc_eq_0_disj)

lemma lc_loop_start:
  "lc_loop h None m ts = Some a \<Longrightarrow> lc_best h ts a"
proof (induction ts)
  case (Cons b ts)
  then show ?case
    by (cases "IsHealthy (h b)") (auto simp: Let_def GetActiveConnections_def lc_loop_best lc_best_skip)
qed simp

lemma lc_loop_None: "lc_loop h None m ts = None \<longleftrightarrow> healthyTargets h ts = []"
  by (induction ts) (simp_all add: healthyTargets_def Let_def lc_loop_not_None)

lemma lc_Next_sound: "snd (lc_Next h lb) = Inr a \<Longrightarrow> a \<in> set (healthyTargets h (lc_targets lb))"
  by (auto simp: lc_Next_def set_healthyTargets lc_best_def dest!: lc_loop_start split: if_splits option.splits)

lemma lc_Next_complete: "healthyTargets h (lc_targets lb) \<noteq> [] \<Longrightarrow> \<exists>a. snd (lc_Next h lb) = Inr a"
  by (cases "lc_targets lb = []") (auto simp: lc_Next_def lc_loop_None healthyTargets_def split: option.splits)

section \<open>Every balancer keeps the contract\<close>

lemma Next_cases_frame:
  "lb_targets (fst (Next intn h lb)) = lb_targets lb" "GetServiceName (fst (Next intn h lb)) = GetServiceName lb"
  by (cases lb; simp add: rr_Next_frame rd_Next_def wr_Next_def lc_Next_def Let_def split: option.splits)+

definition lb_invar :: "LoadBalancer \<Rightarrow> bool" where
  "lb_invar lb \<longleftrightarrow> length (lb_targets lb) < 2 ^ 32"

fun lb_ready :: "LoadBalancer \<Rightarrow> bool" where
  "lb_ready (RoundRobin lb) = rr_ready lb"
| "lb_ready _ = True"

lemma simple_Next_frame:
  "rd_targets (fst (rd_Next intn h lb)) = rd_targets lb" "rd_serviceName (fst (rd_Next intn h lb)) = rd_serviceName lb"
  "wr_targets (fst (wr_Next intn h lb')) = wr_targets lb'" "wr_serviceName (fst (wr_Next intn h lb')) = wr_serviceName lb'"
  "lc_targets (fst (lc_Next h lb'')) = lc_targets lb''" "lc_serviceName (fst (lc_Next h lb'')) = lc_serviceName lb''"
  by (simp_all add: rd_Next_def wr_Next_def lc_Next_def Let_def split: option.splits)

lemma simple_Next_complete:
  "healthyTargets h (rd_targets lb) \<noteq> [] \<Longrightarrow> \<exists>a. snd (rd_Next intn h lb) = Inr a"
  "healthyTargets h (wr_targets lb') \<noteq> [] \<Longrightarrow> \<exists>a. snd (wr_Next intn h lb') = Inr a"
  by (auto simp: rd_Next_def wr_Next_def Let_def healthyTargets_def split: option.splits)

lemmas balancer_laws = rr_Next_sound rr_Next_complete rr_Next_frame rd_Next_sound wr_Next_sound lc_Next_sound
  lc_Next_complete simple_Next_frame simple_Next_complete
  rr_UpdateTargets_def rd_UpdateTargets_def wr_UpdateTargets_def lc_UpdateTargets_def

interpretation rr: balancer "\<lambda>_. rr_Next" rr_targets rr_UpdateTargets rr_serviceName
  "\<lambda>lb. length (rr_targets lb) < 2 ^ 32" rr_ready
  by unfold_locales (simp_all add: balancer_laws)

interpretation rd: balancer rd_Next rd_targets rd_UpdateTargets rd_serviceName "\<lambda>_. True" "\<lambda>_. True"
  by unfold_locales (simp_all add: balancer_laws)

interpretation wr: balancer wr_Next wr_targets wr_UpdateTargets wr_serviceName "\<lambda>_. True" "\<lambda>_. True"
  by unfold_locales (simp_all add: balancer_laws)

interpretation lc: balancer "\<lambda>_. lc_Next" lc_targets lc_UpdateTargets lc_serviceName "\<lambda>_. True" "\<lambda>_. True"
  by unfold_locales (simp_all add: balancer_laws)

lemma Next_sound:
  "good_intn intn \<Longrightarrow> lb_invar lb \<Longrightarrow> snd (Next intn h lb) = Inr a \<Longrightarrow> a \<in> set (healthyTargets h (lb_targets lb))"
  by (cases lb) (auto simp: lb_invar_def dest: rr.nxt_sound rd.nxt_sound wr.nxt_sound lc.nxt_sound)

lemma Next_complete:
  "good_intn intn \<Longrightarrow> lb_invar lb \<Longrightarrow> lb_ready lb \<Longrightarrow> healthyTargets h (lb_targets lb) \<noteq> []
   \<Longrightarrow> \<exists>a. snd (Next intn h lb) = Inr a"
  by (cases lb) (auto simp: lb_invar_def intro: rr.nxt_complete rd.nxt_complete wr.nxt_complete lc.nxt_complete)

interpretation any_lb: balancer Next lb_targets UpdateTargets GetServiceName lb_invar lb_ready
proof unfold_locales
  fix ts lb
  show "lb_targets (UpdateTargets ts lb) = ts" "GetServiceName (UpdateTargets ts lb) = GetServiceName lb"
    by (cases lb; simp add: rr_UpdateTargets_def rd_UpdateTargets_def wr_UpdateTargets_def lc_UpdateTargets_def)+
qed (simp_all add: Next_sound Next_complete Next_cases_frame lb_invar_def)

text \<open>
  C2. Whatever the strategy, the target a balancer chooses is one of its own targets and healthy at
  that moment; and in a ready state (always, except for a round robin index about to wrap) it
  reports an error exactly if none of its targets is healthy.
\<close>

theorem Next_correct:
  assumes "good_intn intn" and "lb_invar lb"
  shows "(\<forall>a. snd (Next intn h lb) = Inr a \<longrightarrow> a \<in> set (healthyTargets h (lb_targets lb)))
    \<and> (lb_ready lb \<longrightarrow> ((\<exists>e. snd (Next intn h lb) = Inl e) \<longleftrightarrow> healthyTargets h (lb_targets lb) = []))"
  using any_lb.nxt_sound [OF assms] any_lb.nxt_fails_iff [OF assms] by blast

text \<open>A store with three targets for the examples: the target at address 0 is unhealthy.\<close>

definition example_url :: url where
  "example_url = \<lparr>u_Scheme = ''http'', u_Opaque = [], u_User = None, u_Host = ''localhost:8081'', u_Path = [],
     u_RawPath = [], u_OmitHost = False, u_ForceQuery = False, u_RawQuery = [], u_Fragment = [], u_RawFragment = []\<rparr>"

definition example_heap :: "(addr \<Rightarrow> bool) \<Rightarrow> (addr \<Rightarrow> int) \<Rightarrow> (addr \<Rightarrow> int) \<Rightarrow> target_heap" where
  "example_heap up wt conns = (\<lambda>a. \<lparr>ut_URL = example_url, Healthy = up a, Weight = wt a, activeConnections = conns a\<rparr>)"

lemma example_heap_sel [simp]: "IsHealthy (example_heap up wt conns a) = up a"
  "Weight (example_heap up wt conns a) = wt a" "activeConnections (example_heap up wt conns a) = conns a"
  by (simp_all add: example_heap_def IsHealthy_def)

definition example_rr :: LoadBalancer where
  "example_rr = RoundRobin (newRoundRobinLoadBalancer ''svc'' [0, 1, 2])"

theorem Next_correct_witness:
  "\<exists>a. snd (Next (\<lambda>_. 0) (example_heap (\<lambda>a. a \<noteq> 0) (\<lambda>_. 1) (\<lambda>_. 0)) example_rr) = Inr a \<and> a \<in> {1, 2}"
proof -
  let ?h = "example_heap (\<lambda>a. a \<noteq> 0) (\<lambda>_. 1) (\<lambda>_. 0)"
  have g: "good_intn (\<lambda>_. 0)" by (simp add: good_intn_def)
  have i: "lb_invar example_rr" "lb_ready example_rr"
    by (simp_all add: lb_invar_def example_rr_def newRoundRobinLoadBalancer_def rr_ready_def)
  have hl: "healthyTargets ?h (lb_targets example_rr) = [1, 2]"
    by (simp add: healthyTargets_def example_rr_def newRoundRobinLoadBalancer_def)
  show ?thesis
    using Next_correct [OF g i(1), of ?h] i(2) hl by (cases "snd (Next (\<lambda>_. 0) ?h example_rr)") auto
qed

text \<open>
  The round robin scan can miss a healthy target when its 32-bit index wraps in the middle of
  the scan and the number of targets does not divide \<^term>\<open>2 ^ 32 :: nat\<close>: with three targets and the
  index at its maximum the scan looks at targets 0, 0 and 1, so the call fails although target 2
  is healthy.
\<close>

theorem rr_wrap_misses_healthy:
  "let lb = \<lparr>rr_serviceName = ''svc'', rr_targets = [0, 1, 2], rr_nextIndex = 4294967295\<rparr>;
       h = example_heap (\<lambda>a. a = 2) (\<lambda>_. 1) (\<lambda>_. 0)
   in snd (rr_Next h lb) = Inl (NoHealthyTargets ''svc'') \<and> healthyTargets h (rr_targets lb) = [2]"
proof -
  have "unat ((4294967295 :: 32 word) mod 3) = 0" "unat ((1 :: 32 word) mod 3) = 1"
    by (simp_all add: unat_mod_distrib)
  then show ?thesis by (simp add: rr_Next_def healthyTargets_def numeral_3_eq_3 Let_def)
qed

section \<open>Fairness of round robin\<close>

fun rr_run :: "nat \<Rightarrow> target_heap \<Rightarrow> roundRobinLoadBalancer \<Rightarrow> (lb_error + addr) list" where
  "rr_run 0 h lb = []"
| "rr_run (Suc k) h lb = (let (lb', r) = rr_Next h lb in r # rr_run k h lb')"

lemma rr_Next_all_healthy:
  assumes "\<forall>a \<in> set (rr_targets lb). IsHealthy (h a)" "rr_targets lb \<noteq> []" "length (rr_targets lb) < 2 ^ 32"
  shows "rr_Next h lb = (lb\<lparr>rr_nextIndex := rr_nextIndex lb + 1\<rparr>, Inr (rr_slot (rr_targets lb) (rr_nextIndex lb)))"
proof -
  obtain k where k: "length (rr_targets lb) = Suc k" using assms(2) by (cases "rr_targets lb") auto
  have "IsHealthy (h (rr_slot (rr_targets lb) (rr_nextIndex lb)))"
    using rr_slot_in [OF assms(2,3)] assms(1) by blast
  then show ?thesis using assms(2) unfolding rr_Next_def k by (simp add: rr_slot_def k Let_def)
qed

lemma rr_run_slots:
  assumes "\<forall>a \<in> set (rr_targets lb). IsHealthy (h a)" "rr_targets lb \<noteq> []" "length (rr_targets lb) < 2 ^ 32"
  shows "rr_run k h lb = map (\<lambda>j. Inr (rr_slot (rr_targets lb) (rr_nextIndex lb + word_of_nat j))) [0..<k]"
  using assms
proof (induction k arbitrary: lb)
  case (Suc k)
  have "[0..<Suc k] = 0 # map Suc [0..<k]" by (simp add: upt_conv_Cons map_Suc_upt)
  then show ?case
    using Suc.IH [of "lb\<lparr>rr_nextIndex := rr_nextIndex lb + 1\<rparr>"] Suc.prems
    by (simp add: rr_Next_all_healthy comp_def add.assoc)
qed simp

text \<open>
  C29. Round robin is fair: while all targets are healthy and the index does not wrap, the calls go
  through the targets cyclically, so call \<^term>\<open>j\<close> gets target \<^term>\<open>(start + j) mod n\<close>.
\<close>

theorem rr_fair:
  assumes "\<forall>a \<in> set (rr_targets lb). IsHealthy (h a)" and "rr_targets lb \<noteq> []"
    and "length (rr_targets lb) < 2 ^ 32" and "unat (rr_nextIndex lb) + k \<le> 2 ^ 32"
  shows "rr_run k h lb
    = map (\<lambda>j. Inr (rr_targets lb ! ((unat (rr_nextIndex lb) + j) mod length (rr_targets lb)))) [0..<k]"
proof -
  have "rr_slot (rr_targets lb) (rr_nextIndex lb + word_of_nat j)
      = rr_targets lb ! ((unat (rr_nextIndex lb) + j) mod length (rr_targets lb))" if "j < k" for j
    using that assms(3,4) by (intro rr_slot_index) auto
  then show ?thesis using assms by (simp add: rr_run_slots)
qed

theorem rr_fair_witness:
  "rr_run 4 (example_heap (\<lambda>_. True) (\<lambda>_. 1) (\<lambda>_. 0)) (newRoundRobinLoadBalancer ''svc'' [7, 8, 9])
    = [Inr 7, Inr 8, Inr 9, Inr 7]"
proof -
  let ?h = "example_heap (\<lambda>_. True) (\<lambda>_. 1) (\<lambda>_. 0)"
  let ?lb = "newRoundRobinLoadBalancer ''svc'' [7, 8, 9]"
  have "rr_run 4 ?h ?lb = map (\<lambda>j. Inr (rr_targets ?lb ! ((unat (rr_nextIndex ?lb) + j) mod length (rr_targets ?lb)))) [0..<4]"
    by (rule rr_fair) (simp_all add: newRoundRobinLoadBalancer_def)
  also have "\<dots> = [Inr 7, Inr 8, Inr 9, Inr 7]"
    by (simp add: newRoundRobinLoadBalancer_def upt_rec)
  finally show ?thesis .
qed

text \<open>
  C30. The weighted choice is exactly proportional: of the numbers \<^verbatim>\<open>Intn(totalWeight)\<close> can return, as
  many select a healthy target as its weight says, provided the weights are positive and their
  sum fits 64 bits.
\<close>

theorem weighted_proportional:
  assumes "distinct (wr_targets lb)" and "a \<in> set (healthyTargets h (wr_targets lb))"
    and "weights_fit h (healthyTargets h (wr_targets lb))"
  shows "card {r. 0 \<le> r \<and> r < totalWeight h (healthyTargets h (wr_targets lb))
      \<and> snd (wr_Next (\<lambda>_. r) h lb) = Inr a} = nat (Weight (h a))"
proof -
  let ?ts = "healthyTargets h (wr_targets lb)"
  have pos: "\<forall>a \<in> set ?ts. 0 < Weight (h a)" and fit: "0 + (\<Sum>a\<leftarrow>?ts. Weight (h a)) < 2 ^ 63"
    using assms(3) by (simp_all add: weights_fit_def)
  have tot: "totalWeight h ?ts = (\<Sum>a\<leftarrow>?ts. Weight (h a))" using assms(3) by (rule totalWeight_sum)
  have ne: "?ts \<noteq> []" "wr_targets lb \<noteq> []" using assms(2) by (auto simp: healthyTargets_def filter_empty_conv)
  have loop: "snd (wr_Next (\<lambda>_. r) h lb) = Inr a \<longleftrightarrow> weighted_loop h r 0 ?ts = Some a"
    if "0 \<le> r" "r < totalWeight h ?ts" for r
    using weighted_loop_iff [OF pos _ fit, of r] that tot ne
    by (auto simp: wr_Next_def Let_def split: option.splits)
  have bound: "r < totalWeight h ?ts" if "0 \<le> r" "weighted_loop h r 0 ?ts = Some a" for r
    using weighted_loop_iff [OF pos _ fit, of r] that tot by auto
  have "{r. 0 \<le> r \<and> r < totalWeight h ?ts \<and> snd (wr_Next (\<lambda>_. r) h lb) = Inr a}
      = {r. 0 \<le> r \<and> weighted_loop h r 0 ?ts = Some a}"
    using loop bound by blast
  then show ?thesis
    using weighted_loop_share [OF _ pos _ fit assms(2)] assms(1) by (simp add: healthyTargets_def)
qed

theorem weighted_proportional_witness:
  "card {r. 0 \<le> r \<and> r < totalWeight (example_heap (\<lambda>a. a \<noteq> 0) int (\<lambda>_. 0))
        (healthyTargets (example_heap (\<lambda>a. a \<noteq> 0) int (\<lambda>_. 0)) [0, 1, 2, 3])
      \<and> snd (wr_Next (\<lambda>_. r) (example_heap (\<lambda>a. a \<noteq> 0) int (\<lambda>_. 0))
           (newWeightedRandomLoadBalancer ''svc'' [0, 1, 2, 3])) = Inr 3} = 3"
proof -
  let ?h = "example_heap (\<lambda>a. a \<noteq> 0) int (\<lambda>_. 0)"
  let ?lb = "newWeightedRandomLoadBalancer ''svc'' [0, 1, 2, 3]"
  have t: "wr_targets ?lb = [0, 1, 2, 3]" by (simp add: newWeightedRandomLoadBalancer_def)
  have hl: "healthyTargets ?h [0, 1, 2, 3] = [1, 2, 3]" by (simp add: healthyTargets_def)
  have "weights_fit ?h [1, 2, 3]" by (simp add: weights_fit_def)
  then show ?thesis
    using weighted_proportional [of ?lb 3 ?h] unfolding t hl by simp
qed

text \<open>Least connections picks the first among the healthy targets with the fewest active connections.\<close>

lemma lc_Next_best:
  "case snd (lc_Next h lb) of
     Inr a \<Rightarrow> lc_best h (lc_targets lb) a
   | Inl _ \<Rightarrow> healthyTargets h (lc_targets lb) = []"
proof (cases "lc_loop h None (-1) (lc_targets lb)")
  case None
  then have "healthyTargets h (lc_targets lb) = []" by (simp add: lc_loop_None)
  with None show ?thesis by (auto simp: lc_Next_def)
next
  case (Some a)
  then have "lc_targets lb \<noteq> []" by auto
  with Some show ?thesis by (auto simp: lc_Next_def dest: lc_loop_start)
qed

end
