(* ===== verification/Proxy.thy ===== *)
theory Proxy
  imports LoadBalancer
begin

text \<open>
  The reverse proxy handler (\<^verbatim>\<open>src/app/proxy/proxy.go\<close>): construction with one balancer per
  service and the transport settings, \<^verbatim>\<open>ServeHTTP\<close> from the matched route to the upstream and back,
  the connection counting round tripper, and \<^verbatim>\<open>UpdateTargetHealth\<close>, which the health checker calls.

  \<^verbatim>\<open>httputil.ReverseProxy.ServeHTTP\<close> is modelled in the order of the standard library: clone the
  request, run the director, reject a protocol upgrade that is not printable, drop the hop-by-hop
  headers, add \<^verbatim>\<open>X-Forwarded-For\<close>, call the transport, copy the response. The network
  (\<^verbatim>\<open>http.Transport.RoundTrip\<close>) and the takeover of a connection after a 101 response are
  arguments; a writer that cannot be taken over (a recorder) gets the error handler. Trailers, 1xx responses, and a body copy that breaks off in the middle are left out.
\<close>

section \<open>Transport settings and construction\<close>

record Transport =
  tr_dialTimeout :: duration
  tr_keepAlive :: duration
  tr_MaxIdleConns :: int
  tr_MaxIdleConnsPerHost :: int
  tr_IdleConnTimeout :: duration
  tr_TLSHandshakeTimeout :: duration
  tr_ExpectContinueTimeout :: duration
  tr_ResponseHeaderTimeout :: duration

text \<open>\<^verbatim>\<open>if p != nil && *p > 0 { v = time.Duration(*p) * time.Second }\<close>, and the same for counts.\<close>

definition override_sec :: "int option \<Rightarrow> duration \<Rightarrow> duration" where
  "override_sec p d = (case p of Some n \<Rightarrow> if n > 0 then Duration n Second else d | None \<Rightarrow> d)"

definition override_count :: "int option \<Rightarrow> int \<Rightarrow> int" where
  "override_count p d = (case p of Some n \<Rightarrow> if n > 0 then n else d | None \<Rightarrow> d)"

definition new_transport :: "GlobalConfig \<Rightarrow> Transport" where
  "new_transport g =
     (let rht = GetDefaultTimeout (Some g);
          rht = (if rht \<le> 0 then 30 * Second else rht);
          rht = (case TransportResponseHeaderTimeoutSec g of
                   Some n \<Rightarrow> if n > 0 then Duration n Second
                             else if rht \<le> 0 then 30 * Second else rht
                 | None \<Rightarrow> if rht \<le> 0 then 30 * Second else rht)
      in \<lparr>tr_dialTimeout = override_sec (TransportDialTimeoutSec g) (5 * Second),
          tr_keepAlive = override_sec (TransportKeepAliveSec g) (30 * Second),
          tr_MaxIdleConns = override_count (TransportMaxIdleConns g) 100,
          tr_MaxIdleConnsPerHost = override_count (TransportMaxIdleConnsPerHost g) 10,
          tr_IdleConnTimeout = override_sec (TransportIdleConnTimeoutSec g) (90 * Second),
          tr_TLSHandshakeTimeout = override_sec (TransportTLSHandshakeTimeoutSec g) (10 * Second),
          tr_ExpectContinueTimeout = override_sec (TransportExpectContinueTimeoutSec g) (1 * Second),
          tr_ResponseHeaderTimeout = rht\<rparr>)"

record Proxy =
  px_global :: GlobalConfig
  serviceLBs :: "string \<rightharpoonup> LoadBalancer"
  px_transport :: Transport
  px_store :: target_store

datatype proxy_error = LoadBalancerFailed string lb_error

text \<open>The loop over the services; strict mode stops at the first balancer that cannot be built.\<close>

fun init_lbs :: "(string \<Rightarrow> url option) \<Rightarrow> bool \<Rightarrow> ServiceConfig list \<Rightarrow> target_store
    \<Rightarrow> (string \<rightharpoonup> LoadBalancer) \<Rightarrow> proxy_error + (target_store \<times> (string \<rightharpoonup> LoadBalancer))" where
  "init_lbs parse failStrictly [] st lbs = Inr (st, lbs)"
| "init_lbs parse failStrictly (s # ss) st lbs =
     (if no_targets (LoadBalancing s) then init_lbs parse failStrictly ss st lbs
      else (case NewLoadBalancer parse s st of
              Inl e \<Rightarrow> (if failStrictly then Inl (LoadBalancerFailed (svc_Name s) e)
                       else init_lbs parse failStrictly ss st lbs)
            | Inr (st', lb) \<Rightarrow> init_lbs parse failStrictly ss st' (lbs(svc_Name s \<mapsto> lb))))"

definition NewProxy :: "(string \<Rightarrow> url option) \<Rightarrow> Config \<Rightarrow> target_store \<Rightarrow> proxy_error + Proxy" where
  "NewProxy parse cfg st =
     (let failStrictly = (case FailOnServiceInitError (Global cfg) of None \<Rightarrow> False | Some b \<Rightarrow> b)
      in case init_lbs parse failStrictly (Services cfg) st Map.empty of
           Inl e \<Rightarrow> Inl e
         | Inr (st', lbs) \<Rightarrow> Inr \<lparr>px_global = Global cfg, serviceLBs = lbs,
                                  px_transport = new_transport (Global cfg), px_store = st'\<rparr>)"

definition GetLoadBalancer :: "Proxy \<Rightarrow> string \<Rightarrow> LoadBalancer option" where
  "GetLoadBalancer p name = serviceLBs p name"

definition update_target :: "addr \<Rightarrow> (UpstreamTarget \<Rightarrow> UpstreamTarget) \<Rightarrow> Proxy \<Rightarrow> Proxy" where
  "update_target a f p = p\<lparr>px_store := (px_store p)\<lparr>ts_heap := (ts_heap (px_store p))(a := f (ts_heap (px_store p) a))\<rparr>\<rparr>"

abbreviation px_heap :: "Proxy \<Rightarrow> target_heap" where
  "px_heap p \<equiv> ts_heap (px_store p)"

section \<open>The standard library's reverse proxy\<close>

definition is_ows :: "char \<Rightarrow> bool" where
  "is_ows c \<longleftrightarrow> c = CHR '' '' \<or> c = CHR 0x09"

definition trim :: "(char \<Rightarrow> bool) \<Rightarrow> string \<Rightarrow> string" where
  "trim P s = rev (dropWhile P (rev (dropWhile P s)))"

definition values_contain_token :: "string list \<Rightarrow> string \<Rightarrow> bool" where
  "values_contain_token vs token \<longleftrightarrow>
     list_ex (\<lambda>v. list_ex (\<lambda>t. EqualFold (trim is_ows t) token) (Split v (CHR '',''))) vs"

text \<open>\<^verbatim>\<open>h[key]\<close>: indexing the map does not canonicalise the key.\<close>

definition hRaw :: "header \<Rightarrow> string \<Rightarrow> string list" where
  "hRaw h k = (case map_of h k of None \<Rightarrow> [] | Some vs \<Rightarrow> vs)"

definition upgradeType :: "header \<Rightarrow> string" where
  "upgradeType h = (if values_contain_token (hRaw h ''Connection'') ''Upgrade'' then hGet h ''Upgrade'' else [])"

definition is_print :: "string \<Rightarrow> bool" where
  "is_print s \<longleftrightarrow> list_all (\<lambda>c. let n = of_char c :: nat in 32 \<le> n \<and> n \<le> 126) s"

definition hopHeaders :: "string list" where
  "hopHeaders = [''Connection'', ''Proxy-Connection'', ''Keep-Alive'', ''Proxy-Authenticate'',
     ''Proxy-Authorization'', ''Te'', ''Trailer'', ''Transfer-Encoding'', ''Upgrade'']"

definition trim_text :: "string \<Rightarrow> string" where
  "trim_text = trim (\<lambda>c. c \<in> {CHR '' '', CHR 0x09, CHR 0x0A, CHR 0x0D})"

definition connection_options :: "header \<Rightarrow> string list" where
  "connection_options h = filter (\<lambda>s. s \<noteq> [])
     (map trim_text (concat (map (\<lambda>f. Split f (CHR '','')) (hRaw h ''Connection''))))"

definition removeHopByHopHeaders :: "header \<Rightarrow> header" where
  "removeHopByHopHeaders h = fold (\<lambda>k h. hDel h k) (connection_options h @ hopHeaders) h"

fun join_comma :: "string list \<Rightarrow> string" where
  "join_comma [] = []"
| "join_comma [s] = s"
| "join_comma (s # ss) = s @ '', '' @ join_comma ss"

definition add_forwarded_for :: "string \<Rightarrow> header \<Rightarrow> header" where
  "add_forwarded_for remoteAddr h =
     (case SplitHostPort remoteAddr of
        None \<Rightarrow> h
      | Some (ip, _) \<Rightarrow>
          (case map_of h ''X-Forwarded-For'' of
             Some (v # vs) \<Rightarrow> hSet h ''X-Forwarded-For'' (join_comma (v # vs) @ '', '' @ ip)
           | Some [] \<Rightarrow> h
           | None \<Rightarrow> hSet h ''X-Forwarded-For'' ip))"

text \<open>The request the reverse proxy sends, or nothing if it rejects the upgrade.\<close>

definition outgoing :: "(request \<Rightarrow> request) \<Rightarrow> request \<Rightarrow> request option" where
  "outgoing director r =
     (let o1 = director r;
          up = upgradeType (Header o1)
      in if \<not> is_print up then None
         else
           let h = removeHopByHopHeaders (Header o1);
               h = (if values_contain_token (hRaw (Header r) ''Te'') ''trailers'' then hSet h ''Te'' ''trailers'' else h);
               h = (if up \<noteq> [] then hSet (hSet h ''Connection'' ''Upgrade'') ''Upgrade'' up else h);
               h = add_forwarded_for (RemoteAddr r) h;
               h = (if map_of h ''User-Agent'' = None then hSet h ''User-Agent'' [] else h)
           in Some (o1\<lparr>Header := h\<rparr>))"

definition copy_response :: "response \<Rightarrow> writer \<Rightarrow> writer" where
  "copy_response res w =
     (let w = w\<lparr>rwHeader := copy_header (removeHopByHopHeaders (rsHeader res)) (rwHeader w)\<rparr>;
          w = WriteHeader (StatusCode res) w
      in if rsBody res = [] then w else Write (rsBody res) w)"

definition ReverseProxy_ServeHTTP ::
  "(request \<Rightarrow> request) \<Rightarrow> (request \<Rightarrow> 's \<Rightarrow> 's \<times> response option) \<Rightarrow> (writer \<Rightarrow> writer)
    \<Rightarrow> (request \<Rightarrow> response \<Rightarrow> writer \<Rightarrow> writer) \<Rightarrow> writer \<Rightarrow> request \<Rightarrow> 's \<Rightarrow> 's \<times> writer" where
  "ReverseProxy_ServeHTTP director roundTrip errorHandler switchProtocols w r s =
     (case outgoing director r of
        None \<Rightarrow> (s, errorHandler w)
      | Some outreq \<Rightarrow>
          (case roundTrip outreq s of
             (s', None) \<Rightarrow> (s', errorHandler w)
           | (s', Some res) \<Rightarrow>
               (s', if StatusCode res = 101
                    then (if rwHijacker w then switchProtocols outreq res w else errorHandler w)
                    else copy_response res w)))"

section \<open>Serving a request\<close>

definition singleJoiningSlash :: "string \<Rightarrow> string \<Rightarrow> string" where
  "singleJoiningSlash a b =
     (let aslash = HasSuffix a ''/''; bslash = HasPrefix b ''/''
      in if aslash \<and> bslash then a @ drop 1 b
         else if \<not> aslash \<and> \<not> bslash then (if b = [] then a else a @ ''/'' @ b)
         else a @ b)"

text \<open>One configured proxy header; \<^term>\<open>r\<close> is the incoming request the director closes over.\<close>

definition proxy_header :: "request \<Rightarrow> string \<Rightarrow> header \<Rightarrow> header" where
  "proxy_header r headerName h =
     (let n = ToLower headerName
      in if n = ''x-request-id'' then h
         else if n = ''x-forwarded-for'' then h
         else if n = ''x-forwarded-proto'' then hSet h headerName (u_Scheme (URL r))
         else if n = ''x-forwarded-host'' then hSet h headerName (Host r)
         else h)"

definition join_query :: "string \<Rightarrow> string \<Rightarrow> string" where
  "join_query t q = (if t = [] \<or> q = [] then t @ q else t @ ''&'' @ q)"

definition Director :: "GlobalConfig \<Rightarrow> url \<Rightarrow> request \<Rightarrow> request \<Rightarrow> request" where
  "Director g targetURL r req =
     (let u = (URL req)\<lparr>u_Scheme := u_Scheme targetURL, u_Host := u_Host targetURL,
                        u_Path := singleJoiningSlash (u_Path targetURL) (u_Path (URL req)),
                        u_RawQuery := join_query (u_RawQuery targetURL) (u_RawQuery (URL req))\<rparr>;
          h = (if map_of (Header req) ''User-Agent'' = None then hSet (Header req) ''User-Agent'' [] else Header req);
          h = fold (proxy_header r) (ProxyHeaders g) h
      in req\<lparr>URL := u, Host := u_Host targetURL, Header := h\<rparr>)"

text \<open>\<^verbatim>\<open>countingRoundTripper.RoundTrip\<close>: the deferred decrement runs whatever the transport returns.\<close>

definition counting_RoundTrip :: "(request \<Rightarrow> response option) \<Rightarrow> addr \<Rightarrow> request \<Rightarrow> Proxy \<Rightarrow> Proxy \<times> response option" where
  "counting_RoundTrip proxied target req p =
     (let res = proxied req in (update_target target DecrementActiveConnections p, res))"

definition upstream_error :: "string \<Rightarrow> writer \<Rightarrow> writer" where
  "upstream_error serviceName w =
     Write (''Error connecting to upstream service: '' @ serviceName) (WriteHeader 502 w)"

text \<open>
  What the environment supplies for one request: the value \<^verbatim>\<open>rand.Intn\<close> returns, the upstream's
  answer (\<^verbatim>\<open>None\<close> is a transport error), and the takeover of the connection after a 101.
\<close>

record upstream_env =
  ue_Intn :: "int \<Rightarrow> int"
  ue_RoundTrip :: "request \<Rightarrow> response option"
  ue_Switch :: "request \<Rightarrow> response \<Rightarrow> writer \<Rightarrow> writer"

definition Proxy_ServeHTTP :: "upstream_env \<Rightarrow> Proxy \<Rightarrow> writer \<Rightarrow> request \<Rightarrow> Proxy \<times> writer" where
  "Proxy_ServeHTTP e p w r =
     (case ctxMatchedRoute r of
        None \<Rightarrow> (p, http_Error ''Internal Server Error: Route information missing'' 500 w)
      | Some routeInfo \<Rightarrow>
          (let serviceName = svc_Name (mi_ServiceConfig routeInfo)
           in case serviceLBs p serviceName of
                None \<Rightarrow> (p, http_Error (''Service '' @ [CHR 0x27] @ serviceName @ [CHR 0x27] @
                                        '' not configured or unavailable'') 502 w)
              | Some lb \<Rightarrow>
                  (let (lb', res) = Next (ue_Intn e) (px_heap p) lb;
                       p1 = p\<lparr>serviceLBs := (serviceLBs p)(serviceName \<mapsto> lb')\<rparr>
                   in case res of
                        Inl _ \<Rightarrow> (p1, http_Error (''No healthy upstream available for service '' @ [CHR 0x27] @
                                        serviceName @ [CHR 0x27]) 503 w)
                      | Inr target \<Rightarrow>
                          (let p2 = update_target target IncrementActiveConnections p1
                           in ReverseProxy_ServeHTTP (Director (px_global p) (ut_URL (px_heap p target)) r)
                                (counting_RoundTrip (ue_RoundTrip e) target) (upstream_error serviceName)
                                (ue_Switch e) w r p2))))"

section \<open>Health updates\<close>

text \<open>The loop over the targets: only the first one whose URL prints as the given string is updated.\<close>

fun set_health_first :: "(url \<Rightarrow> string) \<Rightarrow> string \<Rightarrow> bool \<Rightarrow> addr list \<Rightarrow> Proxy \<Rightarrow> Proxy" where
  "set_health_first urlString targetURL healthy [] p = p"
| "set_health_first urlString targetURL healthy (a # as) p =
     (if urlString (ut_URL (px_heap p a)) = targetURL then update_target a (SetHealth healthy) p
      else set_health_first urlString targetURL healthy as p)"

definition UpdateTargetHealth :: "(url \<Rightarrow> string) \<Rightarrow> string \<Rightarrow> string \<Rightarrow> bool \<Rightarrow> Proxy \<Rightarrow> Proxy" where
  "UpdateTargetHealth urlString serviceName targetURL healthy p =
     (case serviceLBs p serviceName of
        None \<Rightarrow> p
      | Some (RoundRobin lb) \<Rightarrow> set_health_first urlString targetURL healthy (rr_targets lb) p
      | Some (Random lb) \<Rightarrow> set_health_first urlString targetURL healthy (rd_targets lb) p
      | Some _ \<Rightarrow> p)"

section \<open>Joining paths\<close>

text \<open>
  \<^verbatim>\<open>singleJoiningSlash\<close> puts exactly one slash between its arguments: it drops one slash at the end
  of the first and at the start of the second, if present, and an empty second part adds nothing.
\<close>

theorem singleJoiningSlash_spec:
  "singleJoiningSlash a b = (if b = [] then a else TrimSuffix a ''/'' @ ''/'' @ TrimPrefix b ''/'')"
proof -
  have a: "HasSuffix a ''/'' \<Longrightarrow> TrimSuffix a ''/'' @ ''/'' = a"
    by (auto simp: HasSuffix_iff suffix_def TrimSuffix_append)
  have b: "HasPrefix b ''/'' \<Longrightarrow> ''/'' @ TrimPrefix b ''/'' = b" "HasPrefix b ''/'' \<Longrightarrow> drop 1 b = TrimPrefix b ''/''"
    by (auto simp: HasPrefix_iff prefix_def TrimPrefix_def)
  show ?thesis
  proof (cases "HasSuffix a ''/''")
    case True
    then have "TrimSuffix a ''/'' @ ''/'' @ xs = a @ xs" for xs using a by (metis append_assoc)
    with True b(2) show ?thesis
      by (cases "HasPrefix b ''/''") (simp_all add: singleJoiningSlash_def TrimPrefix_def [of b])
  next
    case False
    with b show ?thesis by (auto simp: singleJoiningSlash_def TrimSuffix_def TrimPrefix_def HasPrefix_def)
  qed
qed

section \<open>Transport timeouts\<close>

definition seconds_ok :: "int option \<Rightarrow> bool" where
  "seconds_ok p = (case p of None \<Rightarrow> True | Some n \<Rightarrow> n \<le> 9223372036)"

lemma override_sec_pos: "seconds_ok p \<Longrightarrow> 0 < d \<Longrightarrow> 0 < override_sec p d"
  by (auto simp: override_sec_def seconds_ok_def Duration_seconds split: option.splits)

text \<open>
  Every timeout of the transport is positive as long as the configured numbers of seconds are
  below the 64-bit limit; the default request timeout may be anything, a product that wrapped to
  a negative value included, since it is replaced by 30 seconds then.
\<close>

theorem transport_timeouts_positive:
  assumes "list_all seconds_ok [TransportDialTimeoutSec g, TransportKeepAliveSec g, TransportIdleConnTimeoutSec g,
      TransportTLSHandshakeTimeoutSec g, TransportExpectContinueTimeoutSec g, TransportResponseHeaderTimeoutSec g]"
  shows "0 < tr_dialTimeout (new_transport g) \<and> 0 < tr_keepAlive (new_transport g)
    \<and> 0 < tr_IdleConnTimeout (new_transport g) \<and> 0 < tr_TLSHandshakeTimeout (new_transport g)
    \<and> 0 < tr_ExpectContinueTimeout (new_transport g) \<and> 0 < tr_ResponseHeaderTimeout (new_transport g)"
proof -
  have "0 < tr_ResponseHeaderTimeout (new_transport g)"
    using assms by (auto simp: new_transport_def Let_def seconds_ok_def Duration_seconds split: option.splits)
  with assms show ?thesis by (simp add: new_transport_def override_sec_pos Let_def)
qed

theorem transport_timeouts_positive_witness:
  "0 < tr_dialTimeout (new_transport sample_global) \<and> 0 < tr_ResponseHeaderTimeout (new_transport sample_global)"
  using transport_timeouts_positive [of sample_global] by (simp add: sample_global_def seconds_ok_def)

section \<open>The outcome of a request\<close>

lemma update_target_heap [simp]: "px_heap (update_target a f p) = (px_heap p)(a := f (px_heap p a))"
  by (simp add: update_target_def)

lemma update_target_frame [simp]: "serviceLBs (update_target a f p) = serviceLBs p"
  "px_global (update_target a f p) = px_global p" "px_transport (update_target a f p) = px_transport p"
  by (simp_all add: update_target_def)

lemma i64_inc_dec: "in_i64 x \<Longrightarrow> i64 (i64 (x + 1) - 1) = x"
proof (cases "x + 1 = 2 ^ 63")
  case True
  then have "x = 2 ^ 63 - 1" by simp
  then show ?thesis by (simp add: i64_def)
next
  case False
  assume "in_i64 x"
  with False have "in_i64 (x + 1)" "in_i64 x" by (auto simp: in_i64_def)
  then show ?thesis by (simp add: i64_id)
qed

lemma inc_dec: "in_i64 (activeConnections t) \<Longrightarrow> DecrementActiveConnections (IncrementActiveConnections t) = t"
  by (simp add: DecrementActiveConnections_def IncrementActiveConnections_def i64_inc_dec)

text \<open>The client asked for a protocol upgrade whose name is not printable.\<close>

definition bad_upgrade :: "request \<Rightarrow> bool" where
  "bad_upgrade r \<longleftrightarrow> \<not> is_print (upgradeType (Header r))"

lemma length_canon_from [simp]: "length (canon_from up k) = length k"
  by (induction up k rule: canon_from.induct) auto

lemma length_CanonicalKey [simp]: "length (CanonicalKey k) = length k"
  by (simp add: CanonicalKey_def)

text \<open>The headers the director sets never are \<^verbatim>\<open>Connection\<close> or \<^verbatim>\<open>Upgrade\<close>: their keys have another length.\<close>

lemma hSet_other_length:
  assumes "length k \<noteq> length k'"
  shows "map_of (hSet h k v) k' = map_of h k'" and "hGet (hSet h k v) k' = hGet h k'"
proof -
  have "CanonicalKey k \<noteq> k'" "CanonicalKey k' \<noteq> CanonicalKey k"
    using assms by (metis length_CanonicalKey)+
  then show "map_of (hSet h k v) k' = map_of h k'" "hGet (hSet h k v) k' = hGet h k'"
    by (auto simp: hSet_def lookup_update, simp add: hGet_hSet flip: hSet_def)
qed

lemma proxy_header_length:
  assumes "length k' \<noteq> 16" "length k' \<noteq> 17"
  shows "map_of (proxy_header r k h) k' = map_of h k'" and "hGet (proxy_header r k h) k' = hGet h k'"
proof -
  have "ToLower k = ''x-forwarded-proto'' \<Longrightarrow> length k = 17" "ToLower k = ''x-forwarded-host'' \<Longrightarrow> length k = 16"
    by (auto simp: ToLower_def dest: arg_cong [where f = length])
  then show "map_of (proxy_header r k h) k' = map_of h k'" "hGet (proxy_header r k h) k' = hGet h k'"
    using assms hSet_other_length [of k k'] by (auto simp: proxy_header_def Let_def)
qed

lemma proxy_headers_upgrade:
  "hRaw (fold (proxy_header r) ks h) ''Connection'' = hRaw h ''Connection''"
  "hGet (fold (proxy_header r) ks h) ''Upgrade'' = hGet h ''Upgrade''"
  by (induction ks arbitrary: h) (simp_all add: hRaw_def proxy_header_length)

lemma hRaw_User_Agent: "hRaw (hSet h ''User-Agent'' v) ''Connection'' = hRaw h ''Connection''"
proof -
  have "CanonicalKey ''User-Agent'' = ''User-Agent''" by code_simp
  then show ?thesis by (simp add: hRaw_def hSet_def lookup_update)
qed

lemma upgradeType_Director: "upgradeType (Header (Director g u r req)) = upgradeType (Header req)"
  by (simp add: upgradeType_def Director_def proxy_headers_upgrade hRaw_User_Agent hSet_other_length Let_def)

lemma outgoing_None: "outgoing (Director g u r) r = None \<longleftrightarrow> bad_upgrade r"
  by (simp add: outgoing_def bad_upgrade_def Let_def upgradeType_Director)

text \<open>The service, balancer and target a request resolves to, if it gets that far.\<close>

definition selects :: "upstream_env \<Rightarrow> Proxy \<Rightarrow> request \<Rightarrow> string \<Rightarrow> LoadBalancer \<Rightarrow> addr \<Rightarrow> bool" where
  "selects e p r name lb' a \<longleftrightarrow>
     (\<exists>info lb. ctxMatchedRoute r = Some info \<and> svc_Name (mi_ServiceConfig info) = name
        \<and> serviceLBs p name = Some lb \<and> Next (ue_Intn e) (px_heap p) lb = (lb', Inr a))"

lemma serve_selected:
  assumes "selects e p r name lb' a"
  shows "Proxy_ServeHTTP e p w r =
    ReverseProxy_ServeHTTP (Director (px_global p) (ut_URL (px_heap p a)) r) (counting_RoundTrip (ue_RoundTrip e) a)
      (upstream_error name) (ue_Switch e) w r
      (update_target a IncrementActiveConnections (p\<lparr>serviceLBs := (serviceLBs p)(name \<mapsto> lb')\<rparr>))"
  using assms by (auto simp: selects_def Proxy_ServeHTTP_def Let_def)

lemma serve_round_trip:
  assumes "selects e p r name lb' a"
    and "outgoing (Director (px_global p) (ut_URL (px_heap p a)) r) r = Some q"
    and "in_i64 (activeConnections (px_heap p a))"
  shows "Proxy_ServeHTTP e p w r =
    (p\<lparr>serviceLBs := (serviceLBs p)(name \<mapsto> lb')\<rparr>,
     case ue_RoundTrip e q of
       None \<Rightarrow> upstream_error name w
     | Some res \<Rightarrow> if StatusCode res = 101 then (if rwHijacker w then ue_Switch e q res w else upstream_error name w) else copy_response res w)"
proof -
  have "update_target a DecrementActiveConnections (update_target a IncrementActiveConnections p') = p'"
    if "px_heap p' = px_heap p" for p'
    using that inc_dec [OF assms(3)] by (cases p') (simp add: update_target_def)
  then show ?thesis
    using assms(2) by (simp add: serve_selected [OF assms(1)] ReverseProxy_ServeHTTP_def counting_RoundTrip_def
        split: option.splits)
qed

text \<open>
  C25. Connection accounting: a request that does not ask for an upgrade to an unprintable protocol leaves the active
  connection count of every target as it found it, whatever the upstream does. The excluded requests do
  leak a count, see \<^verbatim>\<open>bad_upgrade_leaks\<close>.
\<close>

theorem connections_balanced:
  assumes "\<forall>a. in_i64 (activeConnections (px_heap p a))" and "\<not> bad_upgrade r"
  shows "px_heap (fst (Proxy_ServeHTTP e p w r)) = px_heap p"
proof (cases "\<exists>name lb' a. selects e p r name lb' a")
  case True
  then obtain name lb' a where sel: "selects e p r name lb' a" by blast
  obtain q where "outgoing (Director (px_global p) (ut_URL (px_heap p a)) r) r = Some q"
    using assms(2) outgoing_None by blast
  then show ?thesis using serve_round_trip [OF sel] assms(1) by simp
next
  case False
  then show ?thesis
    by (auto simp: selects_def Proxy_ServeHTTP_def Let_def split: option.splits sum.splits prod.splits)
qed

text \<open>A proxy with one least-connections service and two targets, for the examples.\<close>

definition example_proxy :: "(addr \<Rightarrow> bool) \<Rightarrow> LoadBalancer \<Rightarrow> Proxy" where
  "example_proxy up lb = \<lparr>px_global = sample_global, serviceLBs = [''my-backend-service-1'' \<mapsto> lb],
     px_transport = new_transport sample_global,
     px_store = \<lparr>ts_heap = example_heap up (\<lambda>_. 1) (\<lambda>_. 0), ts_next = 2\<rparr>\<rparr>"

definition example_lc :: LoadBalancer where
  "example_lc = LeastConnections (newLeastConnectionsLoadBalancer ''my-backend-service-1'' [0, 1])"

definition example_request :: "header \<Rightarrow> request" where
  "example_request h = \<lparr>Method = ''GET'', URL = example_url\<lparr>u_Scheme := [], u_Host := [], u_Path := ''/service1/info''\<rparr>,
     Host = ''gw:8080'', Header = h, Body = [], RemoteAddr = ''10.0.0.1:5000'',
     ctxMatchedRoute = Some \<lparr>mi_RouteConfig = sample_route, mi_ServiceConfig = sample_service\<rparr>, ctxUser = None\<rparr>"

definition example_env :: upstream_env where
  "example_env = \<lparr>ue_Intn = (\<lambda>_. 0), ue_RoundTrip = (\<lambda>_. Some \<lparr>StatusCode = 200, rsHeader = [], rsBody = ''ok''\<rparr>),
     ue_Switch = (\<lambda>_ _ w. w\<lparr>rwHijacked := True\<rparr>)\<rparr>"

lemmas example_defs = example_proxy_def example_lc_def example_request_def example_env_def
  newLeastConnectionsLoadBalancer_def sample_service_def

definition upgrade_header :: "string \<Rightarrow> header" where
  "upgrade_header proto = [(''Connection'', [''Upgrade'']), (''Upgrade'', [proto])]"

lemma example_selects: "selects example_env (example_proxy (\<lambda>_. True) example_lc) (example_request h)
    ''my-backend-service-1'' example_lc 0"
  by (simp add: selects_def example_defs lc_Next_def GetActiveConnections_def Let_def)

lemma CanonicalKey_Upgrade: "CanonicalKey ''Upgrade'' = ''Upgrade''"
  by code_simp

lemma example_upgrade_bad: "bad_upgrade (example_request (upgrade_header [CHR 0x80]))"
proof -
  have "values_contain_token [''Upgrade''] ''Upgrade''" by code_simp
  then show ?thesis
    by (simp add: bad_upgrade_def upgradeType_def example_request_def upgrade_header_def hRaw_def hGet_def
        hValues_def CanonicalKey_Upgrade is_print_def)
qed

theorem connections_balanced_witness:
  "px_heap (fst (Proxy_ServeHTTP example_env (example_proxy (\<lambda>_. True) example_lc) new_writer (example_request [])))
     = px_heap (example_proxy (\<lambda>_. True) example_lc)"
  by (rule connections_balanced)
     (simp_all add: example_proxy_def in_i64_def bad_upgrade_def upgradeType_def example_request_def
       hRaw_def values_contain_token_def is_print_def)

text \<open>
  C40. The counter leaks: when a client asks to upgrade to a protocol whose name is not printable, the
  standard reverse proxy answers through the error handler (502) without calling the round tripper
  that would decrement, so the chosen target keeps one active connection too many.
\<close>

theorem bad_upgrade_leaks:
  assumes "selects e p r name lb' a" and "bad_upgrade r"
  shows "px_heap (fst (Proxy_ServeHTTP e p w r)) a = IncrementActiveConnections (px_heap p a)
    \<and> snd (Proxy_ServeHTTP e p w r) = upstream_error name w"
proof -
  have "outgoing (Director (px_global p) (ut_URL (px_heap p a)) r) r = None"
    using assms(2) by (simp add: outgoing_None)
  then show ?thesis by (simp add: serve_selected [OF assms(1)] ReverseProxy_ServeHTTP_def)
qed

theorem bad_upgrade_leaks_witness:
  "activeConnections (px_heap (fst (Proxy_ServeHTTP example_env (example_proxy (\<lambda>_. True) example_lc) new_writer
      (example_request (upgrade_header [CHR 0x80])))) 0) = 1"
  using bad_upgrade_leaks [OF example_selects example_upgrade_bad, of new_writer]
  by (simp add: IncrementActiveConnections_def example_proxy_def i64_def)

section \<open>Where requests go\<close>

definition proxy_ok :: "Proxy \<Rightarrow> bool" where
  "proxy_ok p \<longleftrightarrow> (\<forall>lb \<in> ran (serviceLBs p). lb_invar lb)"

lemma proxy_okD: "proxy_ok p \<Longrightarrow> serviceLBs p name = Some lb \<Longrightarrow> lb_invar lb"
  by (auto simp: proxy_ok_def ran_def)

lemma selects_healthy:
  assumes "proxy_ok p" "good_intn (ue_Intn e)" "selects e p r name lb' a"
  shows "\<exists>lb. serviceLBs p name = Some lb \<and> a \<in> set (healthyTargets (px_heap p) (lb_targets lb))"
proof -
  obtain lb where lb: "serviceLBs p name = Some lb" "Next (ue_Intn e) (px_heap p) lb = (lb', Inr a)"
    using assms(3) by (auto simp: selects_def)
  then show ?thesis
    using any_lb.nxt_sound [OF assms(2) proxy_okD [OF assms(1) lb(1)], of "px_heap p" a] by simp
qed

lemma outgoing_fields:
  "outgoing (Director g u r) r = Some q \<Longrightarrow>
     Host q = u_Host u \<and> u_Scheme (URL q) = u_Scheme u \<and> u_Host (URL q) = u_Host u
     \<and> u_Path (URL q) = singleJoiningSlash (u_Path u) (u_Path (URL r))
     \<and> u_RawQuery (URL q) = join_query (u_RawQuery u) (u_RawQuery (URL r))
     \<and> Method q = Method r \<and> Body q = Body r"
  by (auto simp: outgoing_def Director_def Let_def split: if_splits)

text \<open>What the client gets when the request \<^term>\<open>q\<close> is sent upstream.\<close>

definition upstream_answer :: "upstream_env \<Rightarrow> string \<Rightarrow> request \<Rightarrow> writer \<Rightarrow> writer" where
  "upstream_answer e name q w = (case ue_RoundTrip e q of
     None \<Rightarrow> upstream_error name w
   | Some res \<Rightarrow> if StatusCode res = 101 then (if rwHijacker w then ue_Switch e q res w else upstream_error name w)
                 else copy_response res w)"

lemma serve_answer:
  assumes "selects e p r name lb' a"
  shows "snd (Proxy_ServeHTTP e p w r) = (case outgoing (Director (px_global p) (ut_URL (px_heap p a)) r) r of
     None \<Rightarrow> upstream_error name w | Some q \<Rightarrow> upstream_answer e name q w)"
  by (simp add: serve_selected [OF assms] ReverseProxy_ServeHTTP_def counting_RoundTrip_def upstream_answer_def
      split: option.splits)

text \<open>
  C3. A request that reaches the upstream goes to a healthy target of the matched service: it is sent to
  the target's host with the target's scheme (the address in the URL, which the transport dials, and the
  \<^verbatim>\<open>Host\<close> header), the target's path joined with the request's, both queries, and the original method
  and body; the client gets the upstream's answer, or 502 when the transport fails.
\<close>

theorem forwards_to_healthy:
  assumes "proxy_ok p" and "good_intn (ue_Intn e)" and "selects e p r name lb' a"
    and "outgoing (Director (px_global p) (ut_URL (px_heap p a)) r) r = Some q"
  shows "(\<exists>lb. serviceLBs p name = Some lb \<and> a \<in> set (healthyTargets (px_heap p) (lb_targets lb)))
    \<and> u_Host (URL q) = u_Host (ut_URL (px_heap p a)) \<and> Host q = u_Host (ut_URL (px_heap p a))
    \<and> u_Scheme (URL q) = u_Scheme (ut_URL (px_heap p a))
    \<and> u_Path (URL q) = singleJoiningSlash (u_Path (ut_URL (px_heap p a))) (u_Path (URL r))
    \<and> u_RawQuery (URL q) = join_query (u_RawQuery (ut_URL (px_heap p a))) (u_RawQuery (URL r))
    \<and> Method q = Method r \<and> Body q = Body r
    \<and> snd (Proxy_ServeHTTP e p w r) = (case ue_RoundTrip e q of
        None \<Rightarrow> upstream_error name w
      | Some res \<Rightarrow> if StatusCode res = 101 then (if rwHijacker w then ue_Switch e q res w else upstream_error name w) else copy_response res w)"
  using selects_healthy [OF assms(1-3)] outgoing_fields [OF assms(4)] serve_answer [OF assms(3), of w] assms(4)
  by (simp add: upstream_answer_def)

lemma example_outgoing: "\<exists>q. outgoing (Director sample_global u (example_request [])) (example_request []) = Some q"
proof -
  have "\<not> bad_upgrade (example_request [])"
    by (simp add: bad_upgrade_def upgradeType_def example_request_def hRaw_def values_contain_token_def is_print_def)
  then show ?thesis using outgoing_None by blast
qed

theorem forwards_to_healthy_witness:
  "rwStatus (snd (Proxy_ServeHTTP example_env (example_proxy (\<lambda>_. True) example_lc) new_writer (example_request []))) = Some 200"
proof -
  let ?p = "example_proxy (\<lambda>_. True) example_lc" and ?r = "example_request []"
  have ok: "proxy_ok ?p" by (simp add: proxy_ok_def example_proxy_def example_lc_def lb_invar_def
      newLeastConnectionsLoadBalancer_def)
  have gi: "good_intn (ue_Intn example_env)" by (simp add: example_env_def good_intn_def)
  obtain q where q: "outgoing (Director (px_global ?p) (ut_URL (px_heap ?p 0)) ?r) ?r = Some q"
    using example_outgoing [of "ut_URL (px_heap ?p 0)"] by (auto simp: example_proxy_def)
  have "snd (Proxy_ServeHTTP example_env ?p new_writer ?r)
      = copy_response \<lparr>StatusCode = 200, rsHeader = [], rsBody = ''ok''\<rparr> new_writer"
    using forwards_to_healthy [OF ok gi example_selects q, of new_writer] by (simp add: example_env_def)
  then show ?thesis
    by (simp add: copy_response_def WriteHeader_def Write_def new_writer_def Let_def)
qed

lemma http_Error_status: "rwStatus w = None \<Longrightarrow> rwStatus (http_Error msg code w) = Some code"
  by (simp add: http_Error_def WriteHeader_def Write_def set_header_def Let_def)

lemma upstream_answer_status:
  assumes "rwStatus w = None" and "\<And>res. ue_RoundTrip e q = Some res \<Longrightarrow> StatusCode res \<noteq> 101"
  shows "rwStatus (upstream_answer e name q w) = (case ue_RoundTrip e q of None \<Rightarrow> Some 502 | Some res \<Rightarrow> Some (StatusCode res))"
  using assms by (auto simp: upstream_answer_def upstream_error_def copy_response_def WriteHeader_def Write_def Let_def split: option.split)

text \<open>
  C26. When the matched service has a balancer in a ready state: without a healthy target the client gets the
  503 error, nothing is sent upstream and no target changes; with one, a healthy target is selected and the client
  gets what the exchange with it gives (its answer, or 502 when the transport fails or the request cannot be
  sent). So on a fresh writer, with an upstream that does not itself answer 503 or 101, the status is 503 exactly
  if no target of the service is healthy.
\<close>

theorem unavailable_iff_unhealthy:
  assumes "proxy_ok p" and "good_intn (ue_Intn e)" and "ctxMatchedRoute r = Some info"
    and "name = svc_Name (mi_ServiceConfig info)" and "serviceLBs p name = Some lb" and "lb_ready lb"
  shows "(if healthyTargets (px_heap p) (lb_targets lb) = []
      then snd (Proxy_ServeHTTP e p w r) = http_Error (''No healthy upstream available for service '' @ [CHR 0x27]
             @ name @ [CHR 0x27]) 503 w
        \<and> px_heap (fst (Proxy_ServeHTTP e p w r)) = px_heap p
      else \<exists>a \<in> set (healthyTargets (px_heap p) (lb_targets lb)).
        snd (Proxy_ServeHTTP e p w r) = (case outgoing (Director (px_global p) (ut_URL (px_heap p a)) r) r of
          None \<Rightarrow> upstream_error name w | Some q \<Rightarrow> upstream_answer e name q w))
    \<and> (rwStatus w = None \<and> (\<forall>q res. ue_RoundTrip e q = Some res \<longrightarrow> StatusCode res \<noteq> 503 \<and> StatusCode res \<noteq> 101)
      \<longrightarrow> (rwStatus (snd (Proxy_ServeHTTP e p w r)) = Some 503 \<longleftrightarrow> healthyTargets (px_heap p) (lb_targets lb) = []))"
proof -
  obtain lb' res where nx: "Next (ue_Intn e) (px_heap p) lb = (lb', res)" by fastforce
  have iff: "(\<exists>x. res = Inl x) \<longleftrightarrow> healthyTargets (px_heap p) (lb_targets lb) = []"
    using any_lb.nxt_fails_iff [OF assms(2) proxy_okD [OF assms(1,5)] assms(6), of "px_heap p"] nx by simp
  show ?thesis
  proof (cases res)
    case (Inl x)
    with iff nx assms(3-5) show ?thesis by (simp add: Proxy_ServeHTTP_def http_Error_status Let_def)
  next
    case (Inr a)
    have sel: "selects e p r name lb' a" using Inr nx assms(3-5) by (simp add: selects_def)
    have mem: "a \<in> set (healthyTargets (px_heap p) (lb_targets lb))"
      using selects_healthy [OF assms(1,2) sel] assms(5) by simp
    have other: "rwStatus (snd (Proxy_ServeHTTP e p w r)) \<noteq> Some 503"
      if "rwStatus w = None" "\<forall>q res. ue_RoundTrip e q = Some res \<longrightarrow> StatusCode res \<noteq> 503 \<and> StatusCode res \<noteq> 101"
      using that upstream_answer_status [OF that(1)] by (auto simp: serve_answer [OF sel] upstream_error_def WriteHeader_def Write_def
          Let_def split: option.splits)
    have ne: "healthyTargets (px_heap p) (lb_targets lb) \<noteq> []" using mem by auto
    show ?thesis
      unfolding if_not_P [OF ne] using serve_answer [OF sel] mem ne other by blast
  qed
qed

theorem unavailable_iff_unhealthy_witness:
  "rwStatus (snd (Proxy_ServeHTTP example_env (example_proxy (\<lambda>_. False) example_lc) new_writer (example_request []))) = Some 503"
proof -
  let ?p = "example_proxy (\<lambda>_. False) example_lc"
  have ok: "proxy_ok ?p" by (simp add: proxy_ok_def example_proxy_def example_lc_def lb_invar_def
      newLeastConnectionsLoadBalancer_def)
  have gi: "good_intn (ue_Intn example_env)" by (simp add: example_env_def good_intn_def)
  have lb: "serviceLBs ?p (svc_Name (mi_ServiceConfig \<lparr>mi_RouteConfig = sample_route, mi_ServiceConfig = sample_service\<rparr>))
      = Some example_lc" "lb_ready example_lc"
    by (simp_all add: example_proxy_def sample_service_def example_lc_def)
  have rt: "ctxMatchedRoute (example_request []) = Some \<lparr>mi_RouteConfig = sample_route, mi_ServiceConfig = sample_service\<rparr>"
    by (simp add: example_request_def)
  have "healthyTargets (px_heap ?p) (lb_targets example_lc) = []"
    by (simp add: healthyTargets_def example_proxy_def example_lc_def newLeastConnectionsLoadBalancer_def)
  then show ?thesis
    using unavailable_iff_unhealthy [OF ok gi rt refl lb, of new_writer] by (simp add: new_writer_def)
qed

section \<open>Health updates\<close>

lemma set_health_first_frame [simp]:
  "serviceLBs (set_health_first us u b as p) = serviceLBs p" "px_global (set_health_first us u b as p) = px_global p"
  by (induction as) auto

lemma UpdateTargetHealth_frame [simp]:
  "serviceLBs (UpdateTargetHealth us n u b p) = serviceLBs p" "px_global (UpdateTargetHealth us n u b p) = px_global p"
  by (auto simp: UpdateTargetHealth_def split: option.splits LoadBalancer.LoadBalancer.splits)

text \<open>The strategies whose balancers receive health updates.\<close>

fun health_aware :: "LoadBalancer \<Rightarrow> bool" where
  "health_aware (RoundRobin _) = True"
| "health_aware (Random _) = True"
| "health_aware _ = False"

lemma set_health_first_find:
  "set_health_first us u b as p = (case List.find (\<lambda>a. us (ut_URL (px_heap p a)) = u) as of
     None \<Rightarrow> p | Some a \<Rightarrow> update_target a (SetHealth b) p)"
  by (induction as) auto

lemma UpdateTargetHealth_eq:
  "UpdateTargetHealth us n u b p = (case serviceLBs p n of
     None \<Rightarrow> p
   | Some lb \<Rightarrow> if health_aware lb then set_health_first us u b (lb_targets lb) p else p)"
  by (auto simp: UpdateTargetHealth_def split: option.splits LoadBalancer.LoadBalancer.splits)

text \<open>
  For a round robin or random service, a health update reaches the first target whose URL prints as
  the given string and changes nothing but its flag; for an unknown service or URL it does nothing.
\<close>

theorem health_update_effect:
  assumes "serviceLBs p n = Some lb" and "health_aware lb"
  shows "px_heap (UpdateTargetHealth us n u b p) =
    (case List.find (\<lambda>a. us (ut_URL (px_heap p a)) = u) (lb_targets lb) of
       None \<Rightarrow> px_heap p
     | Some a \<Rightarrow> (px_heap p)(a := (px_heap p a)\<lparr>Healthy := b\<rparr>))"
  using assms by (auto simp: UpdateTargetHealth_eq set_health_first_find SetHealth_def split: option.splits)

theorem health_update_effect_witness:
  "\<not> Healthy (px_heap (UpdateTargetHealth u_Host ''my-backend-service-1'' ''localhost:8081'' False
      (example_proxy (\<lambda>_. True) example_rr)) 0)"
proof -
  let ?p = "example_proxy (\<lambda>_. True) example_rr"
  have lb: "serviceLBs ?p ''my-backend-service-1'' = Some example_rr" "health_aware example_rr"
    by (simp_all add: example_proxy_def example_rr_def)
  show ?thesis
    using health_update_effect [OF lb, of u_Host "''localhost:8081''" False]
    by (simp add: example_rr_def newRoundRobinLoadBalancer_def example_proxy_def example_heap_def example_url_def)
qed

text \<open>
  C39. Health checks have no effect on services that use the weighted or the least-connections strategy:
  any sequence of health updates for such a service leaves the whole proxy unchanged, so a target
  reported unhealthy keeps being selected.
\<close>

theorem health_updates_ignored:
  assumes "serviceLBs p n = Some lb" and "\<not> health_aware lb"
  shows "fold (\<lambda>(u, b). UpdateTargetHealth us n u b) updates p = p"
  using assms by (induction updates) (auto simp: UpdateTargetHealth_eq)

theorem health_updates_ignored_witness:
  "fold (\<lambda>(u, b). UpdateTargetHealth u_Host ''my-backend-service-1'' u b)
     [(''localhost:8081'', False), (''localhost:8081'', False)] (example_proxy (\<lambda>_. True) example_lc)
   = example_proxy (\<lambda>_. True) example_lc"
  by (rule health_updates_ignored [of _ _ example_lc]) (simp_all add: example_proxy_def example_lc_def)

end
