(* ===== verification/HealthChecker.thy ===== *)
theory HealthChecker
  imports Proxy
begin

text \<open>
  The active health checker (\<^verbatim>\<open>src/app/healthchecker/healthchecker.go\<close>): the status of each target
  with its threshold counters, one probe (\<^verbatim>\<open>performCheck\<close>), the start-up loop, and the monitoring
  goroutines as a step relation in which checks, requests and the stop signal interleave. Parsing
  and resolving the probe URL and the probe itself are arguments. The counters are unbounded: at
  one check per second the 64-bit counters of the code would take longer than the age of the
  universe to wrap.
\<close>

section \<open>Status and results\<close>

record targetStatus =
  st_targetURL :: string
  st_serviceName :: string
  st_config :: HealthCheckConfig
  consecutiveFailures :: int
  consecutiveSuccesses :: int
  isHealthy :: bool

text \<open>The update of the status in \<^verbatim>\<open>processCheckResult\<close>, and the call of the proxy when the flag changed.\<close>

definition record_result :: "bool \<Rightarrow> targetStatus \<Rightarrow> targetStatus" where
  "record_result success s =
     (if success
      then (let s = s\<lparr>consecutiveSuccesses := consecutiveSuccesses s + 1, consecutiveFailures := 0\<rparr>
            in if \<not> isHealthy s \<and> consecutiveSuccesses s \<ge> HealthyThreshold (st_config s)
               then s\<lparr>isHealthy := True\<rparr> else s)
      else (let s = s\<lparr>consecutiveFailures := consecutiveFailures s + 1, consecutiveSuccesses := 0\<rparr>
            in if isHealthy s \<and> consecutiveFailures s \<ge> UnhealthyThreshold (st_config s)
               then s\<lparr>isHealthy := False\<rparr> else s))"

definition processCheckResult :: "(url \<Rightarrow> string) \<Rightarrow> bool \<Rightarrow> targetStatus \<Rightarrow> Proxy \<Rightarrow> targetStatus \<times> Proxy" where
  "processCheckResult urlString success s p =
     (let previouslyHealthy = isHealthy s;
          s' = record_result success s
      in (s', if isHealthy s' \<noteq> previouslyHealthy
              then UpdateTargetHealth urlString (st_serviceName s') (st_targetURL s') (isHealthy s') p
              else p))"

section \<open>One check\<close>

datatype probe_result = RequestInvalid | ProbeFailed | ProbeStatus int

text \<open>
  What a check uses of the environment: \<^verbatim>\<open>url.Parse\<close>, \<^verbatim>\<open>URL.String\<close>, resolving a path against the
  target (\<^verbatim>\<open>ResolveReference\<close>), and the probe of a URL with a timeout.
\<close>

record probe_env =
  pe_parse :: "string \<Rightarrow> url option"
  pe_string :: "url \<Rightarrow> string"
  pe_resolve :: "url \<Rightarrow> string \<Rightarrow> string"
  pe_probe :: "string \<Rightarrow> duration \<Rightarrow> probe_result"

definition is_absolute :: "string \<Rightarrow> bool" where
  "is_absolute path \<longleftrightarrow> HasPrefix path ''http://'' \<or> HasPrefix path ''https://''"

definition check_path :: "HealthCheckConfig \<Rightarrow> string" where
  "check_path c = (if Ready c = [] then Live c else Ready c)"

definition slashed :: "string \<Rightarrow> string" where
  "slashed path = (if \<not> is_absolute path \<and> \<not> HasPrefix path ''/'' then ''/'' @ path else path)"

definition check_timeout :: "HealthCheckConfig \<Rightarrow> duration" where
  "check_timeout c = (let t = Duration (Timeout c) Second in if t \<le> 0 then 5 * Second else t)"

definition monitor_interval :: "HealthCheckConfig \<Rightarrow> duration" where
  "monitor_interval c = (let t = Duration (Interval c) Second in if t \<le> 0 then 30 * Second else t)"

definition performCheck :: "probe_env \<Rightarrow> targetStatus \<Rightarrow> Proxy \<Rightarrow> targetStatus \<times> Proxy" where
  "performCheck e s p =
     (if check_path (st_config s) = [] then (s, p)
      else
        let checkPath = slashed (check_path (st_config s))
        in case pe_parse e (st_targetURL s) of
             None \<Rightarrow> (s, p)
           | Some base \<Rightarrow>
               (let fullCheckURL = (if is_absolute checkPath then checkPath else pe_resolve e base checkPath)
                in case pe_probe e fullCheckURL (check_timeout (st_config s)) of
                     RequestInvalid \<Rightarrow> processCheckResult (pe_string e) False s p
                   | ProbeFailed \<Rightarrow> processCheckResult (pe_string e) False s p
                   | ProbeStatus code \<Rightarrow>
                       processCheckResult (pe_string e) (200 \<le> code \<and> code \<le> 299) s p))"

section \<open>The checker\<close>

text \<open>
  All statuses ever allocated, the status store (key to index), which monitors run, and whether the
  stop channel is closed.
\<close>

record HealthChecker =
  hc_services :: "ServiceConfig list"
  hc_statuses :: "targetStatus list"
  hc_store :: "string \<rightharpoonup> nat"
  hc_running :: "nat list"
  hc_stopped :: bool

definition store_key :: "string \<Rightarrow> string \<Rightarrow> string" where
  "store_key serviceName targetURL = serviceName @ ''|'' @ targetURL"

definition store_get :: "HealthChecker \<Rightarrow> string \<Rightarrow> string \<Rightarrow> nat option" where
  "store_get hc serviceName targetURL = hc_store hc (store_key serviceName targetURL)"

definition store_set :: "string \<Rightarrow> string \<Rightarrow> nat \<Rightarrow> HealthChecker \<Rightarrow> HealthChecker" where
  "store_set serviceName targetURL i hc = hc\<lparr>hc_store := (hc_store hc)(store_key serviceName targetURL \<mapsto> i)\<rparr>"

definition NewHealthChecker :: "Config \<Rightarrow> HealthChecker" where
  "NewHealthChecker cfg = \<lparr>hc_services = Services cfg, hc_statuses = [], hc_store = Map.empty,
     hc_running = [], hc_stopped = False\<rparr>"

definition new_status :: "string \<Rightarrow> HealthCheckConfig \<Rightarrow> string \<Rightarrow> targetStatus" where
  "new_status serviceName c targetURL = \<lparr>st_targetURL = targetURL, st_serviceName = serviceName, st_config = c,
     consecutiveFailures = 0, consecutiveSuccesses = 0, isHealthy = True\<rparr>"

fun start_targets :: "(url \<Rightarrow> string) \<Rightarrow> string \<Rightarrow> HealthCheckConfig \<Rightarrow> TargetConfig list
    \<Rightarrow> HealthChecker \<times> Proxy \<Rightarrow> HealthChecker \<times> Proxy" where
  "start_targets us name c [] st = st"
| "start_targets us name c (t # ts) (hc, p) =
     (let i = length (hc_statuses hc);
          hc = hc\<lparr>hc_statuses := hc_statuses hc @ [new_status name c (tc_URL t)]\<rparr>;
          hc = store_set name (tc_URL t) i hc;
          p = UpdateTargetHealth us name (tc_URL t) True p;
          hc = hc\<lparr>hc_running := i # hc_running hc\<rparr>
      in start_targets us name c ts (hc, p))"

fun start_services :: "(url \<Rightarrow> string) \<Rightarrow> ServiceConfig list \<Rightarrow> HealthChecker \<times> Proxy \<Rightarrow> HealthChecker \<times> Proxy" where
  "start_services us [] st = st"
| "start_services us (s # ss) st =
     start_services us ss
       (case LoadBalancing s of
          None \<Rightarrow> st
        | Some lb \<Rightarrow> (case HealthChecks lb of
                       None \<Rightarrow> st
                     | Some c \<Rightarrow> start_targets us (svc_Name s) c (Targets lb) st))"

definition hc_Start :: "(url \<Rightarrow> string) \<Rightarrow> HealthChecker \<times> Proxy \<Rightarrow> HealthChecker \<times> Proxy" where
  "hc_Start us st = start_services us (hc_services (fst st)) st"

text \<open>
  Steps of the running system: monitor \<^term>\<open>i\<close> performs a check (its first one, or on a tick of its
  ticker; a tick may still win against the closed stop channel), a request is served, \<^verbatim>\<open>Stop\<close> closes
  the channel, a monitor sees it closed and exits.
\<close>

definition monitor_check :: "probe_env \<Rightarrow> nat \<Rightarrow> HealthChecker \<times> Proxy \<Rightarrow> HealthChecker \<times> Proxy" where
  "monitor_check e i st =
     (let (hc, p) = st; (s', p') = performCheck e (hc_statuses hc ! i) p
      in (hc\<lparr>hc_statuses := (hc_statuses hc)[i := s']\<rparr>, p'))"

inductive hc_step :: "(url \<Rightarrow> string) \<Rightarrow> HealthChecker \<times> Proxy \<Rightarrow> HealthChecker \<times> Proxy \<Rightarrow> bool" for us where
  check: "i \<in> set (hc_running hc) \<Longrightarrow> pe_string e = us \<Longrightarrow> hc_step us (hc, p) (monitor_check e i (hc, p))"
| serve: "hc_step us (hc, p) (hc, fst (Proxy_ServeHTTP e p w r))"
| stop: "\<not> hc_stopped hc \<Longrightarrow> hc_step us (hc, p) (hc\<lparr>hc_stopped := True\<rparr>, p)"
| exit: "hc_stopped hc \<Longrightarrow> i \<in> set (hc_running hc)
    \<Longrightarrow> hc_step us (hc, p) (hc\<lparr>hc_running := remove1 i (hc_running hc)\<rparr>, p)"

inductive hc_steps :: "(url \<Rightarrow> string) \<Rightarrow> HealthChecker \<times> Proxy \<Rightarrow> HealthChecker \<times> Proxy \<Rightarrow> bool" for us where
  refl: "hc_steps us st st"
| step: "hc_steps us st st1 \<Longrightarrow> hc_step us st1 st2 \<Longrightarrow> hc_steps us st st2"

section \<open>Thresholds\<close>

lemma suffix_replicate_takeWhile:
  "suffix (replicate n b) xs \<longleftrightarrow> n \<le> length (takeWhile (\<lambda>x. x = b) (rev xs))"
proof (induction n arbitrary: xs)
  case (Suc n)
  show ?case
  proof (cases xs rule: rev_cases)
    case (snoc ys y)
    have "replicate (Suc n) b = replicate n b @ [b]" by (simp add: replicate_append_same)
    then show ?thesis using Suc.IH [of ys] snoc by (auto simp del: replicate_Suc)
  qed simp
qed simp

text \<open>The run of a status over a list of check results.\<close>

definition run_results :: "targetStatus \<Rightarrow> bool list \<Rightarrow> targetStatus" where
  "run_results s rs = foldl (\<lambda>s b. record_result b s) s rs"

lemma run_results_snoc [simp]: "run_results s (rs @ [b]) = record_result b (run_results s rs)"
  by (simp add: run_results_def)

lemma record_result_config [simp]: "st_config (record_result b s) = st_config s"
  "st_targetURL (record_result b s) = st_targetURL s" "st_serviceName (record_result b s) = st_serviceName s"
  by (simp_all add: record_result_def Let_def)

lemma run_results_config [simp]: "st_config (run_results s rs) = st_config s"
  by (induction rs rule: rev_induct) (simp_all add: run_results_def [of s "[]"])

lemma run_counters:
  "consecutiveFailures (run_results (new_status n c u) rs) = int (length (takeWhile (\<lambda>x. x = False) (rev rs)))
   \<and> consecutiveSuccesses (run_results (new_status n c u) rs) = int (length (takeWhile (\<lambda>x. x = True) (rev rs)))"
proof (induction rs rule: rev_induct)
  case Nil
  then show ?case by (simp add: run_results_def new_status_def)
next
  case (snoc b rs)
  then show ?case by (cases b) (simp_all add: record_result_def Let_def)
qed

lemma run_step_healthy:
  "isHealthy (run_results (new_status n c u) (rs @ [b])) =
     (if b then isHealthy (run_results (new_status n c u) rs) \<or> suffix (replicate (nat (HealthyThreshold c)) True) (rs @ [b])
      else isHealthy (run_results (new_status n c u) rs)
           \<and> \<not> suffix (replicate (nat (UnhealthyThreshold c)) False) (rs @ [b]))"
proof -
  have "st_config (run_results (new_status n c u) rs) = c" by (simp add: new_status_def)
  then show ?thesis
    using run_counters [of n c u rs] unfolding suffix_replicate_takeWhile
    by (auto simp: record_result_def Let_def nat_le_iff)
qed

text \<open>
  The declarative reading: somewhere there were as many failures in a row as the unhealthy threshold
  asks for, and since then never as many successes in a row as the healthy threshold asks for.
\<close>

definition failed_since :: "nat \<Rightarrow> nat \<Rightarrow> bool list \<Rightarrow> bool" where
  "failed_since u h rs \<longleftrightarrow> (\<exists>xs ys. rs = xs @ replicate u False @ ys \<and> \<not> sublist (replicate h True) ys)"

lemma suffix_replicate_append:
  assumes "suffix (replicate h True) (xs @ replicate u False @ ys)" and "0 < u"
  shows "suffix (replicate h True) ys"
proof (rule ccontr)
  assume "\<not> suffix (replicate h True) ys"
  then have "suffix (False # ys) (replicate h True)"
    using assms(1) suffix_same_cases [of "replicate h True" _ "False # ys"] assms(2)
    by (cases u) (auto simp: suffix_Cons suffix_append replicate_append_same [symmetric])
  then have "False \<in> set (replicate h True)" by (auto dest: set_mono_suffix)
  then show False by auto
qed

lemma failed_since_True:
  assumes "0 < u"
  shows "failed_since u h (rs @ [True]) \<longleftrightarrow> failed_since u h rs \<and> \<not> suffix (replicate h True) (rs @ [True])"
proof
  assume "failed_since u h (rs @ [True])"
  then obtain xs ys where eq: "rs @ [True] = xs @ replicate u False @ ys" and no: "\<not> sublist (replicate h True) ys"
    by (auto simp: failed_since_def)
  obtain k where k: "u = Suc k" using assms by (cases u) auto
  have "ys \<noteq> []"
  proof
    assume "ys = []"
    with eq k have "rs @ [True] = (xs @ replicate k False) @ [False]" by (simp add: replicate_append_same)
    then show False by simp
  qed
  then obtain ys' y where "ys = ys' @ [y]" by (cases ys rule: rev_cases) auto
  with eq have ys: "ys = ys' @ [True]" by simp
  then have "rs = xs @ replicate u False @ ys'" using eq by simp
  moreover have "\<not> sublist (replicate h True) ys'" using no ys by (simp add: sublist_snoc)
  moreover have "\<not> suffix (replicate h True) (rs @ [True])"
    using no suffix_replicate_append [OF _ assms, of h xs ys] eq by (metis suffix_imp_sublist)
  ultimately show "failed_since u h rs \<and> \<not> suffix (replicate h True) (rs @ [True])"
    by (auto simp: failed_since_def)
next
  assume a: "failed_since u h rs \<and> \<not> suffix (replicate h True) (rs @ [True])"
  then obtain xs ys where eq: "rs = xs @ replicate u False @ ys" and no: "\<not> sublist (replicate h True) ys"
    by (auto simp: failed_since_def)
  have "\<not> suffix (replicate h True) (ys @ [True])"
    using a eq by (metis append_assoc suffix_append)
  then have "\<not> sublist (replicate h True) (ys @ [True])" using no by (simp add: sublist_snoc)
  then show "failed_since u h (rs @ [True])"
    unfolding failed_since_def using eq by (intro exI [of _ xs] exI [of _ "ys @ [True]"]) simp
qed

lemma failed_since_False:
  assumes "0 < u" and "0 < h"
  shows "failed_since u h (rs @ [False]) \<longleftrightarrow> failed_since u h rs \<or> suffix (replicate u False) (rs @ [False])"
proof
  assume "failed_since u h (rs @ [False])"
  then obtain xs ys where eq: "rs @ [False] = xs @ replicate u False @ ys" and no: "\<not> sublist (replicate h True) ys"
    by (auto simp: failed_since_def)
  show "failed_since u h rs \<or> suffix (replicate u False) (rs @ [False])"
  proof (cases ys rule: rev_cases)
    case Nil
    with eq show ?thesis by (simp add: suffix_def)
  next
    case (snoc ys' y)
    with eq no have "rs = xs @ replicate u False @ ys'" "\<not> sublist (replicate h True) ys'"
      by (auto simp: sublist_snoc)
    then show ?thesis by (auto simp: failed_since_def)
  qed
next
  obtain k where k: "h = Suc k" using assms(2) by (cases h) auto
  assume "failed_since u h rs \<or> suffix (replicate u False) (rs @ [False])"
  then show "failed_since u h (rs @ [False])"
  proof
    assume "failed_since u h rs"
    then obtain xs ys where eq: "rs = xs @ replicate u False @ ys" and no: "\<not> sublist (replicate h True) ys"
      by (auto simp: failed_since_def)
    have "\<not> suffix (replicate h True) (ys @ [False])"
      unfolding suffix_replicate_takeWhile by (simp add: k)
    with no eq show ?thesis
      unfolding failed_since_def by (intro exI [of _ xs] exI [of _ "ys @ [False]"]) (simp add: sublist_snoc)
  next
    assume "suffix (replicate u False) (rs @ [False])"
    then obtain zs where "rs @ [False] = zs @ replicate u False @ []" by (auto simp: suffix_def)
    then show ?thesis unfolding failed_since_def using k by (intro exI [of _ zs] exI [of _ "[]"]) simp
  qed
qed

text \<open>
  C12. The health flag follows the thresholds exactly: after any sequence of check results a target is
  marked unhealthy if and only if at some point there were \<^verbatim>\<open>unhealthy_threshold\<close> failures in a row
  and since then there have not been \<^verbatim>\<open>healthy_threshold\<close> successes in a row.
\<close>

theorem unhealthy_iff_failed_since:
  assumes "0 < UnhealthyThreshold c" and "0 < HealthyThreshold c"
  shows "\<not> isHealthy (run_results (new_status n c u) rs)
    \<longleftrightarrow> failed_since (nat (UnhealthyThreshold c)) (nat (HealthyThreshold c)) rs"
proof (induction rs rule: rev_induct)
  case Nil
  then show ?case using assms(1) by (simp add: run_results_def new_status_def failed_since_def)
next
  case (snoc b rs)
  then show ?case
    using assms unfolding run_step_healthy by (cases b) (simp_all add: failed_since_True failed_since_False)
qed

theorem unhealthy_iff_failed_since_witness:
  "\<not> isHealthy (run_results (new_status ''svc'' sample_health ''http://a'') [True, False, False, False, True, False])"
proof -
  have "failed_since 3 2 [True, False, False, False, True, False]"
    unfolding failed_since_def
    by (intro exI [of _ "[True]"] exI [of _ "[True, False]"]) (simp add: numeral_eq_Suc sublist_Cons_right)
  then show ?thesis
    using unhealthy_iff_failed_since [of sample_health "''svc''" "''http://a''"] by (simp add: sample_health_def)
qed

section \<open>Status and proxy agree\<close>

text \<open>
  The contract between the checker and the proxy: every pair of a service and a URL has at most one
  flag, an update sets it, and leaves the flags of pairs kept apart from it alone. A checker that
  reports every change of a status then keeps the flag equal to the status.
\<close>

definition report :: "(string \<Rightarrow> string \<Rightarrow> bool \<Rightarrow> 'p \<Rightarrow> 'p) \<Rightarrow> bool \<Rightarrow> targetStatus \<Rightarrow> 'p \<Rightarrow> targetStatus \<times> 'p" where
  "report upd success s p =
     (let s' = record_result success s
      in (s', if isHealthy s' \<noteq> isHealthy s then upd (st_serviceName s') (st_targetURL s') (isHealthy s') p else p))"

definition agrees :: "('p \<Rightarrow> string \<Rightarrow> string \<Rightarrow> bool option) \<Rightarrow> 'p \<Rightarrow> targetStatus \<Rightarrow> bool" where
  "agrees flag p s \<longleftrightarrow> (case flag p (st_serviceName s) (st_targetURL s) of None \<Rightarrow> True | Some b \<Rightarrow> b = isHealthy s)"

abbreviation st_key :: "targetStatus \<Rightarrow> string \<times> string" where
  "st_key s \<equiv> (st_serviceName s, st_targetURL s)"

locale health_sink =
  fixes upd :: "string \<Rightarrow> string \<Rightarrow> bool \<Rightarrow> 'p \<Rightarrow> 'p"
    and flag :: "'p \<Rightarrow> string \<Rightarrow> string \<Rightarrow> bool option"
    and apart :: "'p \<Rightarrow> string \<times> string \<Rightarrow> string \<times> string \<Rightarrow> bool"
  assumes flag_upd: "flag (upd n u b p) n u = map_option (\<lambda>_. b) (flag p n u)"
    and flag_apart: "apart p (n, u) (n', u') \<Longrightarrow> flag (upd n u b p) n' u' = flag p n' u'"
    and apart_upd: "apart (upd n u b p) = apart p"
begin

lemma report_agrees: "agrees flag p s \<Longrightarrow> report upd b s p = (s', p') \<Longrightarrow> agrees flag p' s'"
  by (auto simp: report_def agrees_def Let_def flag_upd split: option.splits if_splits)

lemma report_others:
  "report upd b s p = (s', p') \<Longrightarrow> apart p (st_key s) (st_key t) \<Longrightarrow> agrees flag p t \<Longrightarrow> agrees flag p' t"
  by (auto simp: report_def agrees_def Let_def flag_apart split: if_splits)

lemma report_apart: "report upd b s p = (s', p') \<Longrightarrow> apart p' = apart p"
  by (auto simp: report_def Let_def apart_upd split: if_splits)

end

text \<open>The target a status is about: the first one of a health-aware balancer whose URL prints as its URL.\<close>

definition watched :: "(url \<Rightarrow> string) \<Rightarrow> Proxy \<Rightarrow> string \<Rightarrow> string \<Rightarrow> addr option" where
  "watched us p n u =
     (case serviceLBs p n of
        None \<Rightarrow> None
      | Some lb \<Rightarrow> if health_aware lb then List.find (\<lambda>a. us (ut_URL (px_heap p a)) = u) (lb_targets lb) else None)"

definition proxy_flag :: "(url \<Rightarrow> string) \<Rightarrow> Proxy \<Rightarrow> string \<Rightarrow> string \<Rightarrow> bool option" where
  "proxy_flag us p n u = map_option (\<lambda>a. Healthy (px_heap p a)) (watched us p n u)"

definition watched_apart :: "(url \<Rightarrow> string) \<Rightarrow> Proxy \<Rightarrow> string \<times> string \<Rightarrow> string \<times> string \<Rightarrow> bool" where
  "watched_apart us p k k' \<longleftrightarrow> watched us p (fst k) (snd k) = None \<or> watched us p (fst k) (snd k) \<noteq> watched us p (fst k') (snd k')"

lemma UpdateTargetHealth_watched:
  "UpdateTargetHealth us n u b p =
     (case watched us p n u of None \<Rightarrow> p | Some a \<Rightarrow> update_target a (SetHealth b) p)"
  by (auto simp: UpdateTargetHealth_eq set_health_first_find watched_def split: option.splits)

text \<open>Changes to a proxy that keep URLs, target lists and strategies keep what is watched.\<close>

definition same_targets :: "Proxy \<Rightarrow> Proxy \<Rightarrow> bool" where
  "same_targets p p' \<longleftrightarrow> (\<forall>a. ut_URL (px_heap p' a) = ut_URL (px_heap p a))
     \<and> (\<forall>n. map_option (\<lambda>lb. (lb_targets lb, health_aware lb)) (serviceLBs p' n)
          = map_option (\<lambda>lb. (lb_targets lb, health_aware lb)) (serviceLBs p n))"

lemma same_targets_watched: "same_targets p p' \<Longrightarrow> watched us p' = watched us p"
proof (intro ext)
  fix n u
  assume "same_targets p p'"
  then have "\<forall>a. ut_URL (px_heap p' a) = ut_URL (px_heap p a)"
    "map_option (\<lambda>lb. (lb_targets lb, health_aware lb)) (serviceLBs p' n)
          = map_option (\<lambda>lb. (lb_targets lb, health_aware lb)) (serviceLBs p n)"
    by (auto simp: same_targets_def)
  then show "watched us p' n u = watched us p n u"
    by (auto simp: watched_def split: option.splits)
qed

lemma same_targets_update: "same_targets p (update_target a (SetHealth b) p)"
  by (simp add: same_targets_def SetHealth_def)

lemma watched_UpdateTargetHealth [simp]: "watched us (UpdateTargetHealth us n u b p) = watched us p"
  by (auto simp: UpdateTargetHealth_watched same_targets_watched [OF same_targets_update] split: option.splits)

interpretation proxy_sink: health_sink "UpdateTargetHealth us" "proxy_flag us" "watched_apart us" for us
proof unfold_locales
  fix p n u b n' u'
  show "proxy_flag us (UpdateTargetHealth us n u b p) n u = map_option (\<lambda>_. b) (proxy_flag us p n u)"
    by (auto simp: proxy_flag_def UpdateTargetHealth_watched [of us n u b p] SetHealth_def
        same_targets_watched [OF same_targets_update] split: option.splits)
  show "watched_apart us (UpdateTargetHealth us n u b p) = watched_apart us p"
    by (simp add: watched_apart_def fun_eq_iff)
  assume "watched_apart us p (n, u) (n', u')"
  then show "proxy_flag us (UpdateTargetHealth us n u b p) n' u' = proxy_flag us p n' u'"
    by (cases "watched us p n' u'") (auto simp: proxy_flag_def watched_apart_def UpdateTargetHealth_watched [of us n u b p]
        same_targets_watched [OF same_targets_update] split: option.splits)
qed

lemma processCheckResult_report: "processCheckResult us = report (UpdateTargetHealth us)"
  by (simp add: fun_eq_iff processCheckResult_def report_def)

lemma performCheck_cases:
  obtains "performCheck e s p = (s, p)" | b where "performCheck e s p = report (UpdateTargetHealth (pe_string e)) b s p"
  unfolding performCheck_def processCheckResult_report Let_def by (fastforce split: option.splits probe_result.splits)

lemma report_key [simp]: "report upd b s p = (s', p') \<Longrightarrow> st_key s' = st_key s"
  by (auto simp: report_def Let_def)

text \<open>Serving a request changes neither the flags nor what is watched.\<close>

lemma serve_same_targets: "same_targets p (fst (Proxy_ServeHTTP e p w r))"
    and serve_health: "Healthy (px_heap (fst (Proxy_ServeHTTP e p w r)) a) = Healthy (px_heap p a)"
proof -
  have ha: "health_aware (fst (Next i h lb)) = health_aware lb" for i h lb by (cases lb) simp_all
  have fr: "lb_targets lb' = lb_targets lb \<and> health_aware lb' = health_aware lb" if "Next i h lb = (lb', x)" for i h lb lb' x
    using ha [of i h lb] Next_cases_frame(1) [of i h lb] that by simp
  show "same_targets p (fst (Proxy_ServeHTTP e p w r))"
    by (auto simp: Proxy_ServeHTTP_def ReverseProxy_ServeHTTP_def counting_RoundTrip_def same_targets_def Let_def
        IncrementActiveConnections_def DecrementActiveConnections_def dest!: fr
        split: option.splits sum.splits prod.splits)
  show "Healthy (px_heap (fst (Proxy_ServeHTTP e p w r)) a) = Healthy (px_heap p a)"
    by (auto simp: Proxy_ServeHTTP_def ReverseProxy_ServeHTTP_def counting_RoundTrip_def Let_def
        IncrementActiveConnections_def DecrementActiveConnections_def
        split: option.splits sum.splits prod.splits)
qed

lemma serve_flag [simp]: "proxy_flag us (fst (Proxy_ServeHTTP e p w r)) = proxy_flag us p"
  by (intro ext) (simp add: proxy_flag_def same_targets_watched [OF serve_same_targets] serve_health)

lemma serve_apart [simp]: "watched_apart us (fst (Proxy_ServeHTTP e p w r)) = watched_apart us p"
  by (simp add: watched_apart_def fun_eq_iff same_targets_watched [OF serve_same_targets])

section \<open>The invariant of the running checker\<close>

definition hc_synced :: "(url \<Rightarrow> string) \<Rightarrow> HealthChecker \<times> Proxy \<Rightarrow> bool" where
  "hc_synced us st \<longleftrightarrow> (\<forall>s \<in> set (hc_statuses (fst st)). agrees (proxy_flag us) (snd st) s)"

definition statuses_apart :: "(url \<Rightarrow> string) \<Rightarrow> HealthChecker \<times> Proxy \<Rightarrow> bool" where
  "statuses_apart us st \<longleftrightarrow>
     (\<forall>i < length (hc_statuses (fst st)). \<forall>j < length (hc_statuses (fst st)). i \<noteq> j \<longrightarrow>
        watched_apart us (snd st) (st_key (hc_statuses (fst st) ! i)) (st_key (hc_statuses (fst st) ! j)))"

definition hc_wf :: "(url \<Rightarrow> string) \<Rightarrow> HealthChecker \<times> Proxy \<Rightarrow> bool" where
  "hc_wf us st \<longleftrightarrow> (\<forall>i \<in> set (hc_running (fst st)). i < length (hc_statuses (fst st))) \<and> statuses_apart us st"

lemmas hc_wf_defs = hc_wf_def statuses_apart_def

lemma monitor_check_inv:
  assumes "hc_wf us (hc, p)" "hc_synced us (hc, p)" "i \<in> set (hc_running hc)" "pe_string e = us"
  shows "hc_wf us (monitor_check e i (hc, p)) \<and> hc_synced us (monitor_check e i (hc, p))"
proof -
  let ?ss = "hc_statuses hc"
  have i: "i < length ?ss" using assms(1,3) by (simp add: hc_wf_defs)
  show ?thesis
  proof (cases rule: performCheck_cases [of e "?ss ! i" p])
    case 1
    then show ?thesis using assms by (simp add: monitor_check_def)
  next
    case (2 b)
    obtain s' p' where r: "report (UpdateTargetHealth us) b (?ss ! i) p = (s', p')" by fastforce
    have chk: "monitor_check e i (hc, p) = (hc\<lparr>hc_statuses := ?ss[i := s']\<rparr>, p')"
      using 2 r assms(4) by (simp add: monitor_check_def)
    have key: "st_key (?ss[i := s'] ! j) = st_key (?ss ! j)" for j
      using report_key [OF r] i by (cases "j = i") auto
    have "agrees (proxy_flag us) p' t" if "t \<in> set (?ss[i := s'])" for t
    proof -
      from that obtain j where "j < length (?ss[i := s'])" "?ss[i := s'] ! j = t"
        unfolding in_set_conv_nth by blast
      then have j: "j < length ?ss" "t = ?ss[i := s'] ! j" by simp_all
      have ag: "agrees (proxy_flag us) p (?ss ! j)" "agrees (proxy_flag us) p (?ss ! i)"
        using assms(2) i j(1) by (auto simp: hc_synced_def)
      show ?thesis
      proof (cases "j = i")
        case True
        with j i ag show ?thesis using proxy_sink.report_agrees [OF _ r] by simp
      next
        case False
        then have "watched_apart us p (st_key (?ss ! i)) (st_key (?ss ! j))"
          using assms(1) i j(1) by (simp add: hc_wf_defs)
        then show ?thesis using proxy_sink.report_others [OF r] ag False j by simp
      qed
    qed
    moreover have "hc_wf us (hc\<lparr>hc_statuses := ?ss[i := s']\<rparr>, p')"
      using assms(1) key proxy_sink.report_apart [OF r] by (simp add: hc_wf_defs)
    ultimately show ?thesis using chk by (simp add: hc_synced_def)
  qed
qed

lemma hc_step_inv: "hc_step us st st' \<Longrightarrow> hc_wf us st \<Longrightarrow> hc_synced us st \<Longrightarrow> hc_wf us st' \<and> hc_synced us st'"
proof (induction rule: hc_step.induct)
  case (check i hc e p)
  then show ?case using monitor_check_inv by blast
next
  case (exit hc i p)
  then show ?case by (auto simp: hc_wf_defs hc_synced_def dest: notin_set_remove1)
qed (simp_all add: hc_wf_defs hc_synced_def agrees_def)

lemma hc_steps_Cons: "hc_step us st st1 \<Longrightarrow> hc_steps us st1 st2 \<Longrightarrow> hc_steps us st st2"
  by (rotate_tac 1, induction rule: hc_steps.induct) (blast intro: hc_steps.intros)+

lemma hc_steps_inv: "hc_steps us st st' \<Longrightarrow> hc_wf us st \<Longrightarrow> hc_synced us st \<Longrightarrow> hc_wf us st' \<and> hc_synced us st'"
  by (induction rule: hc_steps.induct) (auto dest: hc_step_inv)

subsection \<open>The start-up loop establishes the invariant\<close>

text \<open>While starting, every status is healthy and no watched target is marked unhealthy.\<close>

definition starting :: "(url \<Rightarrow> string) \<Rightarrow> HealthChecker \<times> Proxy \<Rightarrow> bool" where
  "starting us st \<longleftrightarrow> (\<forall>i \<in> set (hc_running (fst st)). i < length (hc_statuses (fst st)))
     \<and> (\<forall>s \<in> set (hc_statuses (fst st)). isHealthy s \<and> proxy_flag us (snd st) (st_serviceName s) (st_targetURL s) \<noteq> Some False)"

lemma flag_update_True:
  "proxy_flag us p n' u' \<noteq> Some False \<Longrightarrow> proxy_flag us (UpdateTargetHealth us n u True p) n' u' \<noteq> Some False"
  by (auto simp: proxy_flag_def UpdateTargetHealth_watched [of us n u True p] SetHealth_def
      same_targets_watched [OF same_targets_update] split: option.splits if_splits)

lemma start_targets_starting: "starting us st \<Longrightarrow> starting us (start_targets us n c ts st)"
proof (induction us n c ts st rule: start_targets.induct)
  case (2 us name c t ts hc p)
  have "proxy_flag us (UpdateTargetHealth us name (tc_URL t) True p) name (tc_URL t) \<noteq> Some False"
    by (simp add: proxy_sink.flag_upd)
  with 2 show ?case
    by (auto simp: starting_def Let_def store_set_def new_status_def flag_update_True less_Suc_eq)
qed simp

lemma start_services_starting: "starting us st \<Longrightarrow> starting us (start_services us ss st)"
  by (induction us ss st rule: start_services.induct) (auto simp: start_targets_starting split: option.splits)

lemma hc_Start_inv:
  assumes "statuses_apart us (hc_Start us (NewHealthChecker cfg, p))"
  shows "hc_wf us (hc_Start us (NewHealthChecker cfg, p)) \<and> hc_synced us (hc_Start us (NewHealthChecker cfg, p))"
proof -
  have "starting us (hc_Start us (NewHealthChecker cfg, p))"
    unfolding hc_Start_def by (rule start_services_starting) (simp add: starting_def NewHealthChecker_def)
  then show ?thesis
    using assms by (auto simp: starting_def hc_wf_def hc_synced_def agrees_def split: option.splits)
qed

text \<open>
  C20. From start-up on, in every state the system reaches with checks, requests and shutdown
  interleaved in any order, the health flag of a target that a status is about equals that status
  (for the services whose balancers accept health updates), as long as no two statuses are about
  the same target.
\<close>

theorem health_flags_in_sync:
  assumes "statuses_apart us (hc_Start us (NewHealthChecker cfg, p))"
    and "hc_steps us (hc_Start us (NewHealthChecker cfg, p)) st"
  shows "hc_synced us st"
  using hc_steps_inv [OF assms(2)] hc_Start_inv [OF assms(1)] by blast

text \<open>The validated sample configuration, its proxy, and a probe that always fails.\<close>

abbreviation sample_running :: Config where
  "sample_running \<equiv> sample_config\<lparr>Services := [sample_validated_service]\<rparr>"

definition sample_string :: "url \<Rightarrow> string" where
  "sample_string u = u_Scheme u @ ''://'' @ u_Host u @ u_Path u"

definition failing_probe :: probe_env where
  "failing_probe = \<lparr>pe_parse = (\<lambda>_. Some example_url), pe_string = sample_string, pe_resolve = (\<lambda>u path. sample_string u @ path),
     pe_probe = (\<lambda>_ _. ProbeFailed)\<rparr>"

definition sample_proxy :: Proxy where
  "sample_proxy = example_proxy (\<lambda>_. True) (RoundRobin (newRoundRobinLoadBalancer ''my-backend-service-1'' [0]))"

theorem health_flags_in_sync_witness:
  "hc_synced sample_string (monitor_check failing_probe 0 (hc_Start sample_string (NewHealthChecker sample_running, sample_proxy)))"
proof (rule health_flags_in_sync)
  let ?st = "hc_Start sample_string (NewHealthChecker sample_running, sample_proxy)"
  have st: "hc_statuses (fst ?st) = [new_status ''my-backend-service-1'' sample_health ''http://localhost:8081'']"
    "hc_running (fst ?st) = [0]"
    by (simp_all add: hc_Start_def NewHealthChecker_def sample_validated_service_def sample_service_def store_set_def Let_def)
  then show "statuses_apart sample_string ?st" by (simp add: statuses_apart_def)
  obtain hc p where hp: "?st = (hc, p)" by fastforce
  have "hc_step sample_string (hc, p) (monitor_check failing_probe 0 (hc, p))"
    using st(2) hp by (intro hc_step.check) (simp_all add: failing_probe_def)
  then show "hc_steps sample_string ?st (monitor_check failing_probe 0 ?st)"
    unfolding hp by (rule hc_steps.step [OF hc_steps.refl])
qed

end
