(* ===== verification/ProxyInit.thy ===== *)
theory ProxyInit
  imports Proxy
begin

text \<open>
  What \<^verbatim>\<open>NewProxy\<close> builds: when construction fails, which services get a balancer, and that the targets of
  all balancers are distinct objects, healthy, idle and, for the weighted strategy, of positive weight.
\<close>

section \<open>Targets\<close>

definition fresh_target :: "UpstreamTarget \<Rightarrow> bool" where
  "fresh_target t \<longleftrightarrow> Healthy t \<and> activeConnections t = 0"

lemma init_targets_spec:
  assumes "init_targets parse ts st = (st', as)"
  shows "as = [ts_next st..<ts_next st'] \<and> ts_next st \<le> ts_next st' \<and> (\<forall>a < ts_next st. ts_heap st' a = ts_heap st a)
    \<and> (\<forall>a \<in> set as. fresh_target (ts_heap st' a))
    \<and> map (\<lambda>a. ut_URL (ts_heap st' a)) as = List.map_filter parse (map tc_URL ts)"
  using assms
proof (induction ts arbitrary: st as)
  case (Cons t ts)
  show ?case
  proof (cases "parse (tc_URL t)")
    case None
    then show ?thesis using Cons by (simp add: List.map_filter_def)
  next
    case (Some u)
    let ?st = "fst (alloc_target \<lparr>ut_URL = u, Healthy = True, Weight = tc_Weight t, activeConnections = 0\<rparr> st)"
    obtain as' where as': "init_targets parse ts ?st = (st', as')" "as = ts_next st # as'"
      using Cons.prems Some by (auto simp: alloc_target_def split: prod.splits)
    have n: "ts_next ?st = Suc (ts_next st)" "ts_heap ?st (ts_next st) = \<lparr>ut_URL = u, Healthy = True, Weight = tc_Weight t, activeConnections = 0\<rparr>"
      "\<forall>a < ts_next st. ts_heap ?st a = ts_heap st a"
      by (simp_all add: alloc_target_def)
    note IH = Cons.IH [OF as'(1), unfolded n(1)]
    have "[ts_next st..<ts_next st'] = ts_next st # [Suc (ts_next st)..<ts_next st']"
      using IH by (simp add: upt_conv_Cons)
    then show ?thesis using IH as'(2) n Some by (auto simp: fresh_target_def List.map_filter_def)
  qed
qed (simp add: List.map_filter_def)

lemma default_weight_fields [simp]:
  "ut_URL (default_weight a h b) = ut_URL (h b)" "fresh_target (default_weight a h b) = fresh_target (h b)"
  "a \<noteq> b \<Longrightarrow> default_weight a h b = h b"
  by (simp_all add: default_weight_def fresh_target_def)

lemma fold_default_weight:
  "fresh_target (fold default_weight as h b) = fresh_target (h b)"
  "b \<notin> set as \<Longrightarrow> fold default_weight as h b = h b"
  by (induction as arbitrary: h) auto

section \<open>One balancer\<close>

definition parsable :: "(string \<Rightarrow> url option) \<Rightarrow> ServiceConfig \<Rightarrow> bool" where
  "parsable parse s \<longleftrightarrow> (\<exists>lbc \<in> set_option (LoadBalancing s). \<exists>t \<in> set (Targets lbc). parse (tc_URL t) \<noteq> None)"

definition lb_fresh :: "string \<Rightarrow> nat \<Rightarrow> target_store \<Rightarrow> LoadBalancer \<Rightarrow> bool" where
  "lb_fresh name lo st lb \<longleftrightarrow> GetServiceName lb = name \<and> lb_targets lb \<noteq> []
     \<and> distinct (lb_targets lb) \<and> set (lb_targets lb) \<subseteq> {lo..<ts_next st} \<and> (\<forall>a \<in> set (lb_targets lb). fresh_target (ts_heap st a))"

lemmas new_lb_defs = newRoundRobinLoadBalancer_def newRandomLoadBalancer_def newWeightedRandomLoadBalancer_def
  newLeastConnectionsLoadBalancer_def

lemma NewLoadBalancer_fails_iff:
  "(\<exists>e. NewLoadBalancer parse s st = Inl e) \<longleftrightarrow> \<not> parsable parse s"
proof (cases "LoadBalancing s")
  case (Some lbc)
  obtain st' as where i: "init_targets parse (Targets lbc) st = (st', as)" by fastforce
  have "as = [] \<longleftrightarrow> List.map_filter parse (map tc_URL (Targets lbc)) = []"
    using init_targets_spec [OF i] by (metis map_is_Nil_conv)
  also have "\<dots> \<longleftrightarrow> (\<forall>t \<in> set (Targets lbc). parse (tc_URL t) = None)"
    by (simp add: List.map_filter_def filter_empty_conv)
  finally show ?thesis using Some i by (auto simp: NewLoadBalancer_def parsable_def Let_def)
qed (simp add: NewLoadBalancer_def parsable_def)

lemma NewLoadBalancer_fresh:
  assumes "NewLoadBalancer parse s st = Inr (st', lb)"
  shows "lb_fresh (svc_Name s) (ts_next st) st' lb \<and> ts_next st \<le> ts_next st' \<and> (\<forall>a < ts_next st. ts_heap st' a = ts_heap st a)"
proof -
  obtain lbc where lbc: "LoadBalancing s = Some lbc" "Targets lbc \<noteq> []"
    using assms by (auto simp: NewLoadBalancer_def split: option.splits if_splits)
  obtain st1 as where i: "init_targets parse (Targets lbc) st = (st1, as)" by fastforce
  note sp = init_targets_spec [OF i]
  have ne: "as \<noteq> []" and lb: "lb_targets lb = as" "GetServiceName lb = svc_Name s" "ts_next st' = ts_next st1"
    and hp: "ts_heap st' = ts_heap st1 \<or> ts_heap st' = fold default_weight as (ts_heap st1)"
    using assms lbc i by (auto simp: NewLoadBalancer_def new_lb_defs Let_def split: if_splits)
  have "\<forall>a \<in> set as. fresh_target (ts_heap st' a)" using hp sp fold_default_weight(1) by auto
  moreover have "\<forall>a < ts_next st. ts_heap st' a = ts_heap st a"
  proof (intro allI impI)
    fix a assume "a < ts_next st"
    moreover from this have "a \<notin> set as" using sp by auto
    ultimately show "ts_heap st' a = ts_heap st a" using hp sp fold_default_weight(2) by metis
  qed
  moreover have "set as \<subseteq> {ts_next st..<ts_next st'}" "distinct as" using sp lb(3) by auto
  ultimately show ?thesis using ne lb sp by (simp add: lb_fresh_def)
qed

section \<open>All balancers\<close>

definition lbs_fresh :: "target_store \<Rightarrow> (string \<rightharpoonup> LoadBalancer) \<Rightarrow> bool" where
  "lbs_fresh st lbs \<longleftrightarrow> (\<forall>name lb. lbs name = Some lb \<longrightarrow> lb_fresh name 0 st lb)
     \<and> (\<forall>m n lb lb'. lbs m = Some lb \<and> lbs n = Some lb' \<and> m \<noteq> n \<longrightarrow> set (lb_targets lb) \<inter> set (lb_targets lb') = {})"

lemma lbs_fresh_add:
  assumes "lbs_fresh st lbs" and "NewLoadBalancer parse s st = Inr (st', lb)"
  shows "lbs_fresh st' (lbs(svc_Name s \<mapsto> lb))"
proof -
  note new = NewLoadBalancer_fresh [OF assms(2)]
  have old: "lb_fresh n 0 st' lb'" "set (lb_targets lb') \<subseteq> {..<ts_next st}" if "lbs n = Some lb'" for n lb'
  proof -
    have f: "lb_fresh n 0 st lb'" using assms(1) that by (simp add: lbs_fresh_def)
    then show "set (lb_targets lb') \<subseteq> {..<ts_next st}" by (auto simp: lb_fresh_def)
    with f new show "lb_fresh n 0 st' lb'" by (force simp: lb_fresh_def)
  qed
  have nw: "lb_fresh (svc_Name s) 0 st' lb" "set (lb_targets lb) \<subseteq> {ts_next st..}"
    using new by (auto simp: lb_fresh_def)
  have "set (lb_targets lb) \<inter> set (lb_targets lb') = {}" if "lbs n = Some lb'" for n lb'
    using old(2) [OF that] nw(2) by fastforce
  then show ?thesis using assms(1) old(1) nw(1) unfolding lbs_fresh_def by (auto simp: Int_commute)
qed

lemma init_lbs_spec:
  assumes "init_lbs parse strict ss st lbs = Inr (st', lbs')" and "lbs_fresh st lbs"
  shows "lbs_fresh st' lbs' \<and> dom lbs' = dom lbs \<union> svc_Name ` {s \<in> set ss. parsable parse s}"
  using assms
proof (induction ss arbitrary: st lbs)
  case (Cons s ss)
  show ?case
  proof (cases "NewLoadBalancer parse s st")
    case (Inl e)
    then have "\<not> parsable parse s" using NewLoadBalancer_fails_iff by blast
    then show ?thesis using Cons Inl by (auto split: if_splits)
  next
    case (Inr r)
    obtain st1 lb where r: "r = (st1, lb)" by fastforce
    have p: "parsable parse s" using NewLoadBalancer_fails_iff [of parse s st] Inr by auto
    then have "\<not> no_targets (LoadBalancing s)" by (auto simp: parsable_def no_targets_def split: option.splits)
    then have i: "init_lbs parse strict ss st1 (lbs(svc_Name s \<mapsto> lb)) = Inr (st', lbs')" using Cons.prems(1) Inr r by simp
    have "svc_Name ` {x \<in> set (s # ss). parsable parse x} = insert (svc_Name s) (svc_Name ` {x \<in> set ss. parsable parse x})"
      using p by auto
    then show ?thesis using Cons.IH [OF i lbs_fresh_add [OF Cons.prems(2) Inr [unfolded r]]]
      by (simp del: fun_upd_apply)
  qed
qed simp

lemma init_lbs_lenient: "\<exists>r. init_lbs parse False ss st lbs = Inr r"
  by (induction ss arbitrary: st lbs) (auto split: sum.splits)

lemma init_lbs_strict: "(\<exists>r. init_lbs parse True ss st lbs = Inr r) \<longleftrightarrow>
    (\<forall>s \<in> set ss. no_targets (LoadBalancing s) \<or> parsable parse s)"
proof (induction ss arbitrary: st lbs)
  case (Cons s ss)
  show ?case using Cons.IH NewLoadBalancer_fails_iff [of parse s st]
    by (cases "NewLoadBalancer parse s st") auto
qed simp

text \<open>
  C21. What construction gives. Unless \<^verbatim>\<open>fail_on_service_init_error\<close> is set, \<^verbatim>\<open>NewProxy\<close> always succeeds; if it is, it
  succeeds exactly when every service with targets has one whose URL parses. On success exactly the
  services with such a target have a balancer, which carries the service's name, has at least one
  target, and shares no target with another; all targets start healthy and without connections.
\<close>

theorem NewProxy_spec:
  "((\<exists>p. NewProxy parse cfg st = Inr p) \<longleftrightarrow>
      (FailOnServiceInitError (Global cfg) = Some True
        \<longrightarrow> (\<forall>s \<in> set (Services cfg). no_targets (LoadBalancing s) \<or> parsable parse s)))
    \<and> (\<forall>p. NewProxy parse cfg st = Inr p
        \<longrightarrow> lbs_fresh (px_store p) (serviceLBs p)
          \<and> dom (serviceLBs p) = svc_Name ` {s \<in> set (Services cfg). parsable parse s})"
proof -
  have e: "lbs_fresh st Map.empty" by (simp add: lbs_fresh_def)
  let ?strict = "case FailOnServiceInitError (Global cfg) of None \<Rightarrow> False | Some b \<Rightarrow> b"
  have strict: "?strict = (FailOnServiceInitError (Global cfg) = Some True)" by (simp split: option.splits)
  have "(\<exists>p. NewProxy parse cfg st = Inr p) \<longleftrightarrow> (\<exists>r. init_lbs parse ?strict (Services cfg) st Map.empty = Inr r)"
    by (auto simp: NewProxy_def Let_def split: sum.splits)
  also have "\<dots> \<longleftrightarrow> (FailOnServiceInitError (Global cfg) = Some True
        \<longrightarrow> (\<forall>s \<in> set (Services cfg). no_targets (LoadBalancing s) \<or> parsable parse s))"
    unfolding strict using init_lbs_lenient [of parse "Services cfg" st Map.empty] init_lbs_strict [of parse "Services cfg" st Map.empty]
    by (cases "FailOnServiceInitError (Global cfg) = Some True") simp_all
  finally have "(\<exists>p. NewProxy parse cfg st = Inr p) \<longleftrightarrow> \<dots>" .
  moreover have "lbs_fresh (px_store p) (serviceLBs p)
      \<and> dom (serviceLBs p) = svc_Name ` {s \<in> set (Services cfg). parsable parse s}" if new: "NewProxy parse cfg st = Inr p" for p
  proof -
    obtain st' lbs where "init_lbs parse ?strict (Services cfg) st Map.empty = Inr (st', lbs)" "px_store p = st'" "serviceLBs p = lbs"
      using new by (auto simp: NewProxy_def Let_def split: sum.splits)
    then show ?thesis using init_lbs_spec [OF _ e] by simp
  qed
  ultimately show ?thesis by blast
qed

definition empty_store :: target_store where
  "empty_store = \<lparr>ts_heap = \<lambda>_. \<lparr>ut_URL = example_url, Healthy = False, Weight = 0, activeConnections = 0\<rparr>, ts_next = 0\<rparr>"

theorem NewProxy_spec_witness:
  "\<exists>p. NewProxy (\<lambda>_. Some example_url) (sample_config\<lparr>Services := [sample_validated_service]\<rparr>) empty_store = Inr p
    \<and> (\<exists>lb. serviceLBs p ''my-backend-service-1'' = Some lb \<and> lb_fresh ''my-backend-service-1'' 0 (px_store p) lb)"
proof -
  let ?cfg = "sample_config\<lparr>Services := [sample_validated_service]\<rparr>"
  note spec = NewProxy_spec [of "\<lambda>_. Some example_url" ?cfg empty_store]
  have "parsable (\<lambda>_. Some example_url) sample_validated_service" "svc_Name sample_validated_service = ''my-backend-service-1''"
    by (simp_all add: parsable_def sample_validated_service_def sample_service_def)
  moreover obtain p where p: "NewProxy (\<lambda>_. Some example_url) ?cfg empty_store = Inr p"
    using spec calculation by auto
  ultimately have "''my-backend-service-1'' \<in> dom (serviceLBs p)" "lbs_fresh (px_store p) (serviceLBs p)"
    using spec by auto
  then show ?thesis using p by (auto simp: lbs_fresh_def)
qed

end
