(* ===== verification/RateLimiting.thy ===== *)
theory RateLimiting
  imports Http
begin

text \<open>
  The rate limiting plugin (\<^verbatim>\<open>src/app/plugins/ratelimiting.go\<close>): its state with one list of
  timestamps per client, \<^verbatim>\<open>Init\<close>, the decision \<^verbatim>\<open>Handle\<close> takes under the locks, and the periodic
  cleanup. \<^verbatim>\<open>Handle\<close> itself, with the response headers, is in theory \<^verbatim>\<open>Middleware\<close>. The lemmas relate the
  pruned logs to the full history of admitted requests: the plugin is an exact sliding window limiter.
\<close>

section \<open>State and initialisation\<close>

record RateLimitingPlugin =
  requestsPerWindow :: int
  rl_window :: duration
  rl_strategy :: string
  clientStore :: "(string, instant list) gomap"

definition defaultRateLimit :: int where "defaultRateLimit = 60"
definition defaultRateWindow :: duration where "defaultRateWindow = Minute"

text \<open>The registered constructor: zero values and an empty store.\<close>

definition new_RateLimitingPlugin :: RateLimitingPlugin where
  "new_RateLimitingPlugin = \<lparr>requestsPerWindow = 0, rl_window = 0, rl_strategy = [], clientStore = []\<rparr>"

definition rl_Init :: "any_map option \<Rightarrow> PluginsConfig option \<Rightarrow> RateLimitingPlugin \<Rightarrow> RateLimitingPlugin" where
  "rl_Init pluginConfig globals p =
     (let p = p\<lparr>requestsPerWindow := defaultRateLimit, rl_window := defaultRateWindow, rl_strategy := ''ip-address''\<rparr>;
          p = (case globals of
                 None \<Rightarrow> p
               | Some g \<Rightarrow> (case pc_RateLimiting g of
                             None \<Rightarrow> p
                           | Some m \<Rightarrow> (case get_string m ''strategy'' of
                                         Some s \<Rightarrow> if s \<noteq> [] then p\<lparr>rl_strategy := ToLower s\<rparr> else p
                                       | None \<Rightarrow> p)))
      in case pluginConfig of
           None \<Rightarrow> p
         | Some m \<Rightarrow>
             (case get_int m ''requests_per_minute'' of
                Some rpm \<Rightarrow>
                  if rpm > 0 then p\<lparr>requestsPerWindow := rpm, rl_window := Minute\<rparr>
                  else (case get_int m ''requests_per_second'' of
                          Some rps \<Rightarrow> if rps > 0 then p\<lparr>requestsPerWindow := rps, rl_window := Second\<rparr> else p
                        | None \<Rightarrow> p)
              | None \<Rightarrow>
                  (case get_int m ''requests_per_second'' of
                     Some rps \<Rightarrow> if rps > 0 then p\<lparr>requestsPerWindow := rps, rl_window := Second\<rparr> else p
                   | None \<Rightarrow> p)))"

section \<open>The decision\<close>

text \<open>The client a request is counted for, or the response that denies it.\<close>

datatype rl_client = Client string | Denied string int

definition rl_clientID :: "RateLimitingPlugin \<Rightarrow> request \<Rightarrow> rl_client" where
  "rl_clientID p r =
     (if rl_strategy p = ''ip-address''
      then (case SplitHostPort (RemoteAddr r) of
              None \<Rightarrow> Denied ''Forbidden'' 403
            | Some (ip, _) \<Rightarrow> if ip = [] then Denied ''Forbidden'' 403 else Client ip)
      else Denied ''Internal Server Error: Rate limiting misconfiguration'' 500)"

text \<open>The timestamps that are not older than the window.\<close>

definition prune :: "instant \<Rightarrow> duration \<Rightarrow> instant list \<Rightarrow> instant list" where
  "prune now window ts = filter (\<lambda>t. now - t \<le> window) ts"

definition client_log :: "RateLimitingPlugin \<Rightarrow> string \<Rightarrow> instant list" where
  "client_log p c = (case map_of (clientStore p) c of None \<Rightarrow> [] | Some ts \<Rightarrow> ts)"

text \<open>
  Get or create the log, drop the old timestamps, and either refuse (keeping the pruned log) or add
  the current time. The result is the new state, whether the request is allowed, and the number of
  timestamps in the log.
\<close>

definition rl_check :: "instant \<Rightarrow> string \<Rightarrow> RateLimitingPlugin \<Rightarrow> RateLimitingPlugin \<times> bool \<times> int" where
  "rl_check now clientID p =
     (let p = (if map_of (clientStore p) clientID = None
               then p\<lparr>clientStore := AList.update clientID [] (clientStore p)\<rparr> else p);
          validTimestamps = prune now (rl_window p) (client_log p clientID);
          p = p\<lparr>clientStore := AList.update clientID validTimestamps (clientStore p)\<rparr>
      in if int (length validTimestamps) \<ge> requestsPerWindow p
         then (p, False, int (length validTimestamps))
         else (p\<lparr>clientStore := AList.update clientID (validTimestamps @ [now]) (clientStore p)\<rparr>,
               True, int (length validTimestamps) + 1))"

section \<open>Cleanup\<close>

definition cleanupInterval :: "RateLimitingPlugin \<Rightarrow> duration" where
  "cleanupInterval p = (if 5 * rl_window p < 5 * Minute then 5 * Minute else 5 * rl_window p)"

definition rl_cleanup :: "instant \<Rightarrow> RateLimitingPlugin \<Rightarrow> RateLimitingPlugin" where
  "rl_cleanup now p = p\<lparr>clientStore :=
     filter (\<lambda>(clientID, ts). ts = [] \<or> \<not> now - last ts > 10 * rl_window p) (clientStore p)\<rparr>"

section \<open>Facts on single steps\<close>

lemma rl_Init_positive: "0 < requestsPerWindow (rl_Init c g p)" "0 < rl_window (rl_Init c g p)"
  by (auto simp: rl_Init_def defaultRateLimit_def defaultRateWindow_def Let_def split: option.splits)

lemma rl_Init_store [simp]: "clientStore (rl_Init c g p) = clientStore p"
  by (simp add: rl_Init_def Let_def split: option.splits)

lemma rl_check_frame [simp]:
  "requestsPerWindow (fst (rl_check now c p)) = requestsPerWindow p" "rl_window (fst (rl_check now c p)) = rl_window p"
  "rl_strategy (fst (rl_check now c p)) = rl_strategy p"
  by (simp_all add: rl_check_def Let_def)

lemma rl_cleanup_frame [simp]:
  "requestsPerWindow (rl_cleanup now p) = requestsPerWindow p" "rl_window (rl_cleanup now p) = rl_window p"
  by (simp_all add: rl_cleanup_def)

lemma rl_check_allowed:
  "fst (snd (rl_check now c p)) \<longleftrightarrow> int (length (prune now (rl_window p) (client_log p c))) < requestsPerWindow p"
  by (simp add: rl_check_def client_log_def lookup_update Let_def split: option.splits)

lemma rl_check_log:
  "client_log (fst (rl_check now c p)) c' =
     (if c' = c then prune now (rl_window p) (client_log p c) @ (if fst (snd (rl_check now c p)) then [now] else [])
      else client_log p c')"
  by (auto simp: rl_check_def client_log_def lookup_update Let_def split: option.splits)

lemma wf_store_check [simp]: "wf_gomap (clientStore p) \<Longrightarrow> wf_gomap (clientStore (fst (rl_check now c p)))"
  by (simp add: rl_check_def Let_def)

lemma wf_store_cleanup [simp]: "wf_gomap (clientStore p) \<Longrightarrow> wf_gomap (clientStore (rl_cleanup now p))"
  by (simp add: rl_cleanup_def)

lemma rl_cleanup_log:
  "wf_gomap (clientStore p) \<Longrightarrow> client_log (rl_cleanup now p) c =
     (if client_log p c \<noteq> [] \<and> now - last (client_log p c) > 10 * rl_window p then [] else client_log p c)"
  by (auto simp: client_log_def rl_cleanup_def lookup_filter split: option.splits)

section \<open>Runs: the plugin against the full history\<close>

text \<open>Requests and cleanups in the order in which the locks serialise them.\<close>

datatype rl_event = Request instant string | Cleanup instant

fun ev_time :: "rl_event \<Rightarrow> instant" where
  "ev_time (Request t c) = t"
| "ev_time (Cleanup t) = t"

text \<open>The concrete step, recording the admitted requests, and the specification: decide from the history alone.\<close>

type_synonym history = "(instant \<times> string) list"

fun rl_exec :: "rl_event \<Rightarrow> RateLimitingPlugin \<times> history \<Rightarrow> RateLimitingPlugin \<times> history" where
  "rl_exec (Request t c) (p, A) =
     (let (p', allowed, _) = rl_check t c p in (p', if allowed then A @ [(t, c)] else A))"
| "rl_exec (Cleanup t) (p, A) = (rl_cleanup t p, A)"

definition admitted_times :: "string \<Rightarrow> history \<Rightarrow> instant list" where
  "admitted_times c A = map fst (filter (\<lambda>x. snd x = c) A)"

fun spec_exec :: "int \<Rightarrow> duration \<Rightarrow> rl_event \<Rightarrow> history \<Rightarrow> history" where
  "spec_exec limit window (Request t c) A =
     (if int (length (prune t window (admitted_times c A))) < limit then A @ [(t, c)] else A)"
| "spec_exec limit window (Cleanup t) A = A"

text \<open>The times of the events do not decrease (the clock is monotonic).\<close>

fun monotone_from :: "instant \<Rightarrow> rl_event list \<Rightarrow> bool" where
  "monotone_from t [] = True"
| "monotone_from t (e # es) = (t \<le> ev_time e \<and> monotone_from (ev_time e) es)"

text \<open>
  The invariant at time \<^term>\<open>t\<close>: logs are sorted and not in the future, and a log and the history agree on
  everything that is still inside the window now or later.
\<close>

definition rl_inv :: "instant \<Rightarrow> RateLimitingPlugin \<times> history \<Rightarrow> bool" where
  "rl_inv t st \<longleftrightarrow> (case st of (p, A) \<Rightarrow>
     wf_gomap (clientStore p) \<and> 0 \<le> rl_window p
     \<and> (\<forall>c. sorted (client_log p c) \<and> (\<forall>s \<in> set (client_log p c). s \<le> t))
     \<and> (\<forall>c now. t \<le> now \<longrightarrow> prune now (rl_window p) (client_log p c) = prune now (rl_window p) (admitted_times c A)))"

lemma prune_prune: "now \<le> now' \<Longrightarrow> prune now' w (prune now w ts) = prune now' w ts"
  by (auto simp: prune_def intro!: filter_cong)

lemma admitted_times_snoc: "admitted_times c (A @ [(t, c')]) = admitted_times c A @ (if c' = c then [t] else [])"
  by (simp add: admitted_times_def)

lemma prune_Nil [simp]: "prune now w [] = []"
  by (simp add: prune_def)

lemma prune_append: "prune now w (xs @ ys) = prune now w xs @ prune now w ys"
  by (simp add: prune_def)

lemma rl_inv_later: "rl_inv t st \<Longrightarrow> t \<le> t' \<Longrightarrow> rl_inv t' st"
  by (fastforce simp: rl_inv_def split: prod.splits)

lemma rl_inv_check:
  assumes "rl_inv t (p, A)"
  shows "rl_inv t (rl_exec (Request t c) (p, A))
    \<and> snd (rl_exec (Request t c) (p, A)) = spec_exec (requestsPerWindow p) (rl_window p) (Request t c) A"
proof -
  obtain p' b k where chk: "rl_check t c p = (p', b, k)" by (metis prod_cases3)
  have agree: "prune now (rl_window p) (client_log p d) = prune now (rl_window p) (admitted_times d A)" if "t \<le> now" for d now
    using assms that by (simp add: rl_inv_def)
  have b: "b \<longleftrightarrow> int (length (prune t (rl_window p) (admitted_times c A))) < requestsPerWindow p"
    using rl_check_allowed [of t c p] chk agree [of t c] by simp
  have log: "client_log p' d = (if d = c then prune t (rl_window p) (client_log p c) @ (if b then [t] else [])
      else client_log p d)" for d
    using rl_check_log [of t c p d] chk by simp
  have fr: "rl_window p' = rl_window p" "wf_gomap (clientStore p')"
    using rl_check_frame(2) [of t c p] wf_store_check [of p t c] chk assms by (simp_all add: rl_inv_def)
  have so: "sorted (client_log p d) \<and> (\<forall>s \<in> set (client_log p d). s \<le> t)" for d
    using assms by (simp add: rl_inv_def)
  have "sorted (client_log p' d) \<and> (\<forall>s \<in> set (client_log p' d). s \<le> t)" for d
    using so [of d] so [of c] unfolding log by (auto simp: prune_def sorted_append sorted_wrt_filter)
  moreover have "prune now (rl_window p) (client_log p' d) = prune now (rl_window p) (admitted_times d (if b then A @ [(t, c)] else A))"
    if "t \<le> now" for d now
    using agree [OF that] that unfolding log by (auto simp: admitted_times_snoc prune_append prune_prune)
  ultimately show ?thesis using assms chk b fr by (simp add: rl_inv_def)
qed

text \<open>The invariant depends on the logs alone, and forgetting a log whose timestamps are all old keeps it.\<close>

lemma rl_inv_forget:
  assumes "rl_inv t (p, A)" and "wf_gomap (clientStore p')" and "rl_window p' = rl_window p"
    and logs: "\<And>c. client_log p' c = client_log p c
      \<or> client_log p' c = [] \<and> (\<forall>s \<in> set (client_log p c). rl_window p < t - s)"
  shows "rl_inv t (p', A)"
proof -
  have "prune now (rl_window p) (client_log p' c) = prune now (rl_window p) (client_log p c)" if "t \<le> now" for c now
  proof (cases "client_log p' c = client_log p c")
    case False
    then have "client_log p' c = []" "\<forall>s \<in> set (client_log p c). \<not> now - s \<le> rl_window p"
      using logs [of c] that by fastforce+
    then show ?thesis by (simp add: prune_def)
  qed simp
  moreover have "sorted (client_log p' c) \<and> (\<forall>s \<in> set (client_log p' c). s \<le> t)" for c
    using logs [of c] assms(1) by (auto simp: rl_inv_def)
  ultimately show ?thesis using assms by (simp add: rl_inv_def)
qed

lemma rl_inv_last_old:
  assumes "rl_inv t (p, A)" and "client_log p c \<noteq> []" and "10 * rl_window p < now - last (client_log p c)" and "now \<le> t"
  shows "\<forall>s \<in> set (client_log p c). rl_window p < t - s"
proof -
  have "\<forall>s \<in> set (client_log p c). s \<le> last (client_log p c)" and "0 \<le> rl_window p"
    using assms(1,2) by (auto simp: rl_inv_def sorted_iff_nth_mono in_set_conv_nth last_conv_nth)
  then show ?thesis using assms(3,4) by force
qed

lemma rl_inv_cleanup:
  assumes "rl_inv t (p, A)"
  shows "rl_inv t (rl_cleanup t p, A)"
proof -
  have wf: "wf_gomap (clientStore p)" using assms by (simp add: rl_inv_def)
  then show ?thesis
    using rl_inv_last_old [OF assms] by (intro rl_inv_forget [OF assms]) (auto simp: rl_cleanup_log)
qed

lemma rl_exec_inv:
  assumes "rl_inv t (p, A)" and "t \<le> ev_time e" and "rl_exec e (p, A) = (p', A')"
  shows "rl_inv (ev_time e) (p', A') \<and> A' = spec_exec (requestsPerWindow p) (rl_window p) e A
    \<and> requestsPerWindow p' = requestsPerWindow p \<and> rl_window p' = rl_window p"
proof (cases e)
  case (Request s c)
  have "rl_inv s (p, A)" using assms(1,2) Request rl_inv_later by auto
  from rl_inv_check [OF this, of c] show ?thesis
    using assms(3) Request rl_check_frame(1,2) [of s c p] by (auto simp: case_prod_beta)
next
  case (Cleanup s)
  have "rl_inv s (p, A)" using assms(1,2) Cleanup rl_inv_later by auto
  from rl_inv_cleanup [OF this] show ?thesis using assms(3) Cleanup by auto
qed

lemma rl_run_refines:
  "rl_inv t (p, A) \<Longrightarrow> monotone_from t es \<Longrightarrow>
   snd (fold rl_exec es (p, A)) = fold (spec_exec (requestsPerWindow p) (rl_window p)) es A"
proof (induction es arbitrary: t p A)
  case (Cons e es)
  obtain p' A' where ex: "rl_exec e (p, A) = (p', A')" by fastforce
  have st: "rl_inv (ev_time e) (p', A')" "A' = spec_exec (requestsPerWindow p) (rl_window p) e A"
    "requestsPerWindow p' = requestsPerWindow p" "rl_window p' = rl_window p"
    using rl_exec_inv [OF Cons.prems(1) _ ex] Cons.prems(2) by auto
  then show ?case using Cons.IH [OF st(1)] Cons.prems(2) ex by simp
qed simp

lemma rl_inv_start: "clientStore p = [] \<Longrightarrow> 0 \<le> rl_window p \<Longrightarrow> rl_inv t (p, [])"
  by (simp add: rl_inv_def client_log_def admitted_times_def)

text \<open>
  C4. The plugin is an exact sliding window limiter: started with an empty store, over any run of
  requests and cleanups with a monotonic clock, the requests it admits are precisely those the
  specification admits by looking at the full history of admitted requests, so neither the
  pruning nor the cleanup ever changes a decision.
\<close>

theorem rate_limit_refines_history:
  assumes "clientStore p = []" and "0 \<le> rl_window p" and "monotone_from t es"
  shows "snd (fold rl_exec es (p, [])) = fold (spec_exec (requestsPerWindow p) (rl_window p)) es []"
  using rl_run_refines [OF rl_inv_start [OF assms(1,2)] assms(3)] .

section \<open>The limit is never exceeded\<close>

definition in_window :: "instant \<Rightarrow> duration \<Rightarrow> instant \<Rightarrow> bool" where
  "in_window lo w s \<longleftrightarrow> lo \<le> s \<and> s \<le> lo + w"

definition within_limit :: "int \<Rightarrow> duration \<Rightarrow> history \<Rightarrow> bool" where
  "within_limit limit w A \<longleftrightarrow> (\<forall>c lo. int (length (filter (in_window lo w) (admitted_times c A))) \<le> limit)"

lemma length_filter_imp: "(\<And>x. x \<in> set xs \<Longrightarrow> P x \<Longrightarrow> Q x) \<Longrightarrow> length (filter P xs) \<le> length (filter Q xs)"
  by (induction xs) auto

lemma spec_exec_limit:
  assumes "within_limit limit w A"
  shows "within_limit limit w (spec_exec limit w e A)"
proof (cases e)
  case (Request t c)
  have "int (length (filter (in_window lo w) (admitted_times d (A @ [(t, c)])))) \<le> limit"
    if ok: "int (length (prune t w (admitted_times c A))) < limit" for d lo
  proof (cases "d = c \<and> in_window lo w t")
    case True
    then have "length (filter (in_window lo w) (admitted_times c A)) \<le> length (prune t w (admitted_times c A))"
      unfolding prune_def by (intro length_filter_imp) (auto simp: in_window_def)
    with True ok show ?thesis by (simp add: admitted_times_snoc)
  next
    case False
    have "int (length (filter (in_window lo w) (admitted_times d A))) \<le> limit"
      using assms by (simp add: within_limit_def)
    with False show ?thesis by (auto simp: admitted_times_snoc)
  qed
  with Request assms show ?thesis by (simp add: within_limit_def)
next
  case (Cleanup t)
  with assms show ?thesis by simp
qed

lemma spec_run_limit: "within_limit limit w A \<Longrightarrow> within_limit limit w (fold (spec_exec limit w) es A)"
  by (induction es arbitrary: A) (simp_all add: spec_exec_limit)

text \<open>
  The limit a route's settings ask for: a positive \<^verbatim>\<open>requests_per_minute\<close>, else a positive \<^verbatim>\<open>requests_per_second\<close>, else 60
  per minute. The global settings have no part in it.
\<close>

definition positive_int :: "any_map \<Rightarrow> string \<Rightarrow> int option" where
  "positive_int m k = (case get_int m k of Some n \<Rightarrow> if 0 < n then Some n else None | None \<Rightarrow> None)"

definition route_limit :: "any_map option \<Rightarrow> int \<times> duration" where
  "route_limit c =
     (case c of
        None \<Rightarrow> (60, 60 * Second)
      | Some m \<Rightarrow>
          (case (positive_int m ''requests_per_minute'', positive_int m ''requests_per_second'') of
             (Some n, _) \<Rightarrow> (n, 60 * Second)
           | (None, Some n) \<Rightarrow> (n, Second)
           | (None, None) \<Rightarrow> (60, 60 * Second)))"

lemma rl_Init_limit: "(requestsPerWindow (rl_Init c g p), rl_window (rl_Init c g p)) = route_limit c"
  by (auto simp: rl_Init_def route_limit_def positive_int_def defaultRateLimit_def defaultRateWindow_def Let_def split: option.splits)

text \<open>
  C22. The limit holds over every window: when a plugin initialised from a route's settings handles requests and cleanups
  one after the other, no client ever has more admitted requests inside any closed interval as long as the window
  than the route's limit. The global defaults do not matter. For interleaved requests and cleanups see theory
  \<^verbatim>\<open>RateLimitConcurrent\<close>.
\<close>

theorem rate_limit_never_exceeded:
  assumes "clientStore p = []" and "monotone_from t es"
  shows "within_limit (fst (route_limit c)) (snd (route_limit c)) (snd (fold rl_exec es (rl_Init c g p, [])))"
proof -
  let ?p = "rl_Init c g p"
  have "snd (fold rl_exec es (?p, [])) = fold (spec_exec (requestsPerWindow ?p) (rl_window ?p)) es []"
    using rl_run_refines [OF rl_inv_start assms(2)] assms(1) rl_Init_positive(2) [of c g p] by simp
  moreover have "within_limit (requestsPerWindow ?p) (rl_window ?p) []"
    using rl_Init_positive(1) [of c g p] by (simp add: within_limit_def admitted_times_def)
  moreover have "requestsPerWindow ?p = fst (route_limit c)" "rl_window ?p = snd (route_limit c)"
    using rl_Init_limit [of c g p] by (metis fst_conv, metis snd_conv)
  ultimately show ?thesis by (simp add: spec_run_limit)
qed

definition example_rl :: RateLimitingPlugin where
  "example_rl = rl_Init (Some [(''requests_per_second'', AInt 2)]) None new_RateLimitingPlugin"

definition example_run :: "rl_event list" where
  "example_run = [Request 0 ''a'', Request 5 ''a'', Request 9 ''a'', Request 10 ''b'', Cleanup 20000000000, Request 20000000000 ''a'']"

lemma example_rl_eq: "example_rl = \<lparr>requestsPerWindow = 2, rl_window = Second, rl_strategy = ''ip-address'', clientStore = []\<rparr>"
  by (simp add: example_rl_def rl_Init_def new_RateLimitingPlugin_def defaultRateLimit_def defaultRateWindow_def get_int_def)

theorem rate_limit_refines_history_witness:
  "snd (fold rl_exec example_run (example_rl, [])) = [(0, ''a''), (5, ''a''), (10, ''b''), (20000000000, ''a'')]"
proof -
  have "snd (fold rl_exec example_run (example_rl, [])) = fold (spec_exec 2 Second) example_run []"
    using rate_limit_refines_history [of example_rl 0 example_run] by (simp add: example_rl_eq example_run_def)
  then show ?thesis by (simp add: example_run_def admitted_times_def prune_def)
qed

theorem rate_limit_never_exceeded_witness:
  "within_limit 2 Second (snd (fold rl_exec example_run (example_rl, [])))"
proof -
  let ?c = "Some [(''requests_per_second'', AInt 2)]"
  have "route_limit ?c = (2, Second)" by (simp add: route_limit_def positive_int_def get_int_def)
  moreover have "clientStore new_RateLimitingPlugin = []" by (simp add: new_RateLimitingPlugin_def)
  moreover have "monotone_from 0 example_run" by (simp add: example_run_def)
  ultimately show ?thesis
    using rate_limit_never_exceeded [of new_RateLimitingPlugin 0 example_run ?c None] unfolding example_rl_def by simp
qed

end
