(* ===== verification/Sha256.thy ===== *)
theory Sha256
  imports Prelude
begin

text \<open>
  The hash functions of the standard library the gateway keys its tables with:
  \<^verbatim>\<open>crypto/sha256\<close> (FIPS 180-4, on 32-bit words) and \<^verbatim>\<open>encoding/hex\<close>. The lookup keys of the
  authentication plugin and of the key generator, and the cache keys, are \<^verbatim>\<open>hex(sha256(s))\<close>.
\<close>

unbundle bit_operations_syntax

section \<open>The compression function\<close>

type_synonym u32 = "32 word"

definition sha_K :: "u32 list" where
  "sha_K =
    [0x428a2f98, 0x71374491, 0xb5c0fbcf, 0xe9b5dba5, 0x3956c25b, 0x59f111f1, 0x923f82a4, 0xab1c5ed5,
     0xd807aa98, 0x12835b01, 0x243185be, 0x550c7dc3, 0x72be5d74, 0x80deb1fe, 0x9bdc06a7, 0xc19bf174,
     0xe49b69c1, 0xefbe4786, 0x0fc19dc6, 0x240ca1cc, 0x2de92c6f, 0x4a7484aa, 0x5cb0a9dc, 0x76f988da,
     0x983e5152, 0xa831c66d, 0xb00327c8, 0xbf597fc7, 0xc6e00bf3, 0xd5a79147, 0x06ca6351, 0x14292967,
     0x27b70a85, 0x2e1b2138, 0x4d2c6dfc, 0x53380d13, 0x650a7354, 0x766a0abb, 0x81c2c92e, 0x92722c85,
     0xa2bfe8a1, 0xa81a664b, 0xc24b8b70, 0xc76c51a3, 0xd192e819, 0xd6990624, 0xf40e3585, 0x106aa070,
     0x19a4c116, 0x1e376c08, 0x2748774c, 0x34b0bcb5, 0x391c0cb3, 0x4ed8aa4a, 0x5b9cca4f, 0x682e6ff3,
     0x748f82ee, 0x78a5636f, 0x84c87814, 0x8cc70208, 0x90befffa, 0xa4506ceb, 0xbef9a3f7, 0xc67178f2]"

definition sha_init :: "u32 list" where
  "sha_init = [0x6a09e667, 0xbb67ae85, 0x3c6ef372, 0xa54ff53a, 0x510e527f, 0x9b05688c, 0x1f83d9ab, 0x5be0cd19]"

text \<open>One further word of the message schedule, from the last sixteen.\<close>

definition sched_word :: "u32 list \<Rightarrow> u32" where
  "sched_word w =
     (let n = length w;
          v1 = w ! (n - 2); t1 = (word_rotr 17 v1 XOR word_rotr 19 v1) XOR drop_bit 10 v1;
          v2 = w ! (n - 15); t2 = (word_rotr 7 v2 XOR word_rotr 18 v2) XOR drop_bit 3 v2
      in t1 + w ! (n - 7) + t2 + w ! (n - 16))"

fun schedule :: "nat \<Rightarrow> u32 list \<Rightarrow> u32 list" where
  "schedule 0 w = w"
| "schedule (Suc n) w = schedule n (w @ [sched_word w])"

fun sha_round :: "u32 \<times> u32 \<Rightarrow> u32 list \<Rightarrow> u32 list" where
  "sha_round (k, w) [a, b, c, d, e, f, g, h] =
     (let t1 = h + ((word_rotr 6 e XOR word_rotr 11 e) XOR word_rotr 25 e) + ((e AND f) XOR (NOT e AND g)) + k + w;
          t2 = ((word_rotr 2 a XOR word_rotr 13 a) XOR word_rotr 22 a) + (((a AND b) XOR (a AND c)) XOR (b AND c))
      in [t1 + t2, a, b, c, d + t1, e, f, g])"
| "sha_round _ hs = hs"

definition sha_block :: "u32 list \<Rightarrow> u32 list \<Rightarrow> u32 list" where
  "sha_block blk hs = map2 (+) hs (fold sha_round (zip sha_K (schedule 48 blk)) hs)"

section \<open>Padding and the digest\<close>

definition byte_of :: "char \<Rightarrow> u32" where "byte_of c = of_nat (of_char c)"

fun words_of :: "u32 list \<Rightarrow> u32 list" where
  "words_of (a # b # c # d # bs) = (push_bit 24 a OR push_bit 16 b OR push_bit 8 c OR d) # words_of bs"
| "words_of _ = []"

definition be_bytes :: "nat \<Rightarrow> nat \<Rightarrow> u32 list" where
  "be_bytes n x = map (\<lambda>i. of_nat (x div 256 ^ (n - Suc i) mod 256)) [0..<n]"

definition sha_pad :: "string \<Rightarrow> u32 list" where
  "sha_pad s = map byte_of s @ 0x80 # replicate ((119 - length s mod 64) mod 64) 0 @ be_bytes 8 (8 * length s)"

fun blocks :: "nat \<Rightarrow> u32 list \<Rightarrow> u32 list list" where
  "blocks 0 ws = []"
| "blocks (Suc n) ws = take 16 ws # blocks n (drop 16 ws)"

definition word_bytes :: "u32 \<Rightarrow> string" where
  "word_bytes w = map (\<lambda>x. char_of (unat x)) (be_bytes 4 (unat w))"

definition sha256 :: "string \<Rightarrow> string" where
  "sha256 s = (let ws = words_of (sha_pad s)
               in concat (map word_bytes (fold sha_block (blocks (length ws div 16) ws) sha_init)))"

section \<open>encoding/hex\<close>

definition hex_char :: "nat \<Rightarrow> char" where "hex_char n = ''0123456789abcdef'' ! (n mod 16)"

definition EncodeToString :: "string \<Rightarrow> string" where
  "EncodeToString bs = concat (map (\<lambda>c. [hex_char (of_char c div 16), hex_char (of_char c)]) bs)"

definition sha256_hex :: "string \<Rightarrow> string" where
  "sha256_hex s = EncodeToString (sha256 s)"

section \<open>The length of a digest\<close>

lemma length_sha_round [simp]: "length (sha_round kw hs) = length hs"
  by (induction kw hs rule: sha_round.induct) (simp_all add: Let_def)

lemma length_sha_rounds: "length (fold sha_round kws hs) = length hs"
  by (induction kws arbitrary: hs) simp_all

lemma length_sha_block [simp]: "length (sha_block blk hs) = length hs"
  by (simp add: sha_block_def length_sha_rounds)

lemma length_sha_blocks: "length (fold sha_block bs hs) = length hs"
  by (induction bs arbitrary: hs) simp_all

lemma length_word_bytes [simp]: "length (word_bytes w) = 4"
  by (simp add: word_bytes_def be_bytes_def)

lemma length_concat_const: "(\<And>x. length (f x) = n) \<Longrightarrow> length (concat (map f xs)) = n * length xs"
  by (induction xs) simp_all

lemma length_sha256 [simp]: "length (sha256 s) = 32"
  by (simp add: sha256_def length_concat_const [where n = 4] length_sha_blocks sha_init_def Let_def)

lemma length_EncodeToString [simp]: "length (EncodeToString bs) = 2 * length bs"
  by (simp add: EncodeToString_def length_concat_const [where n = 2])

lemma length_sha256_hex [simp]: "length (sha256_hex s) = 64"
  by (simp add: sha256_hex_def)

lemma sha256_hex_nonempty [simp]: "sha256_hex s \<noteq> []"
  using length_sha256_hex [of s] by force

end
