(* ===== verification/Caching.thy ===== *)
theory Caching
  imports Http Sha256
begin

text \<open>
  The caching plugin (\<^verbatim>\<open>src/app/plugins/caching.go\<close>): entries with an expiry time, \<^verbatim>\<open>Init\<close>, the cache key, the
  pieces \<^verbatim>\<open>Handle\<close> is made of (serving an entry, relaying a recorded response, storing it) and the cleanup.
  \<^verbatim>\<open>Handle\<close> itself, which runs the next handler on a recorder, is in theory \<^verbatim>\<open>Middleware\<close>. Every call of
  \<^verbatim>\<open>time.Now\<close> is a reading of its own, so \<^verbatim>\<open>isExpired\<close> takes the time it reads.
\<close>

section \<open>State and initialisation\<close>

definition defaultCacheTTL :: duration where "defaultCacheTTL = 5 * Minute"
definition defaultCacheCleanupInterval :: duration where "defaultCacheCleanupInterval = 10 * Minute"
definition maxCacheBodySize :: nat where "maxCacheBodySize = 1024 * 1024"

record cacheEntry =
  ce_statusCode :: int
  ce_header :: header
  ce_body :: string
  expiresAt :: instant

definition isExpired :: "instant \<Rightarrow> cacheEntry \<Rightarrow> bool" where
  "isExpired now ce \<longleftrightarrow> now > expiresAt ce"

text \<open>\<^verbatim>\<open>stopCleanup\<close> records whether the channel has been closed.\<close>

record CachingPlugin =
  cp_ttl :: duration
  cacheStore :: "(string, cacheEntry) gomap"
  cp_stopCleanup :: bool

definition new_CachingPlugin :: CachingPlugin where
  "new_CachingPlugin = \<lparr>cp_ttl = 0, cacheStore = [], cp_stopCleanup = False\<rparr>"

definition ttl_override :: "any_map option \<Rightarrow> string \<Rightarrow> duration \<Rightarrow> duration" where
  "ttl_override cfg k ttl =
     (case cfg of
        None \<Rightarrow> ttl
      | Some m \<Rightarrow> (case get_int m k of Some n \<Rightarrow> if n > 0 then Duration n Second else ttl | None \<Rightarrow> ttl))"

definition caching_Init :: "any_map option \<Rightarrow> PluginsConfig option \<Rightarrow> CachingPlugin \<Rightarrow> CachingPlugin" where
  "caching_Init pluginConfig globals p =
     (let ttl = defaultCacheTTL;
          ttl = ttl_override (case globals of None \<Rightarrow> None | Some g \<Rightarrow> pc_Caching g) ''default_ttl_seconds'' ttl;
          ttl = ttl_override pluginConfig ''ttl_seconds'' ttl
      in p\<lparr>cp_ttl := ttl\<rparr>)"

section \<open>Keys, entries and responses\<close>

definition generateCacheKey :: "request \<Rightarrow> string" where
  "generateCacheKey r = sha256_hex (ToUpper (Method r) @ '':'' @ Host r @ '':'' @ RequestURI (URL r))"

definition cache_status :: string where "cache_status = ''X-Corridor-Cache-Status''"

text \<open>A hit: the stored headers, status and body.\<close>

definition serve_cached :: "cacheEntry \<Rightarrow> writer \<Rightarrow> writer" where
  "serve_cached entry w =
     (let w = w\<lparr>rwHeader := copy_header (ce_header entry) (rwHeader w)\<rparr>;
          w = set_header cache_status ''HIT'' w;
          w = WriteHeader (ce_statusCode entry) w
      in if ce_body entry \<noteq> [] then Write (ce_body entry) w else w)"

text \<open>After a miss: the recorded headers but for the cache status, the recorded status and body.\<close>

definition relay_headers :: "header \<Rightarrow> header \<Rightarrow> header" where
  "relay_headers src dst =
     fold (\<lambda>(key, values) h. if key = cache_status \<and> hGet h cache_status = ''MISS'' then h else add_values key values h) src dst"

definition relay_recorded :: "writer \<Rightarrow> writer \<Rightarrow> writer" where
  "relay_recorded recorder w =
     (let w = w\<lparr>rwHeader := relay_headers (rwHeader recorder) (rwHeader w)\<rparr>;
          w = WriteHeader (rec_code recorder) w
      in if rwBody recorder \<noteq> [] then Write (rwBody recorder) w else w)"

definition cacheable :: "writer \<Rightarrow> bool" where
  "cacheable recorder \<longleftrightarrow> rec_code recorder = 200 \<and> \<not> length (rwBody recorder) > maxCacheBodySize"

definition new_entry :: "instant \<Rightarrow> duration \<Rightarrow> writer \<Rightarrow> cacheEntry" where
  "new_entry now ttl recorder =
     \<lparr>ce_statusCode = rec_code recorder, ce_header = rwHeader recorder, ce_body = rwBody recorder, expiresAt = now + ttl\<rparr>"

section \<open>Cleanup\<close>

text \<open>One tick of the ticker; every entry is checked against its own reading of the clock.\<close>

fun purge_expired :: "(nat \<Rightarrow> instant) \<Rightarrow> nat \<Rightarrow> (string, cacheEntry) gomap \<Rightarrow> (string, cacheEntry) gomap" where
  "purge_expired clock n [] = []"
| "purge_expired clock n ((key, entry) # es) =
     (if isExpired (clock n) entry then purge_expired clock (Suc n) es
      else (key, entry) # purge_expired clock (Suc n) es)"

definition cleanupExpiredEntries :: "(nat \<Rightarrow> instant) \<Rightarrow> nat \<Rightarrow> CachingPlugin \<Rightarrow> CachingPlugin" where
  "cleanupExpiredEntries clock n p = p\<lparr>cacheStore := purge_expired clock n (cacheStore p)\<rparr>"

definition StopCleanup :: "CachingPlugin \<Rightarrow> CachingPlugin outcome" where
  "StopCleanup p = (if cp_stopCleanup p then Panic ''close of closed channel'' else Ok (p\<lparr>cp_stopCleanup := True\<rparr>))"

section \<open>Facts\<close>

lemma purge_subset: "set (purge_expired clock n es) \<subseteq> set es"
  by (induction clock n es rule: purge_expired.induct) auto

lemma wf_purge [simp]: "wf_gomap es \<Longrightarrow> wf_gomap (purge_expired clock n es)"
proof (induction clock n es rule: purge_expired.induct)
  case (2 clock n key entry es)
  then have "key \<notin> fst ` set (purge_expired clock (Suc n) es)"
    using purge_subset [of clock "Suc n" es] by (auto simp: wf_gomap_def)
  with 2 show ?case by (simp add: wf_gomap_def)
qed simp

lemma purge_keeps:
  "mono clock \<Longrightarrow> (k, ce) \<in> set es \<Longrightarrow> \<not> isExpired (clock (n + length es)) ce \<Longrightarrow> (k, ce) \<in> set (purge_expired clock n es)"
proof (induction clock n es rule: purge_expired.induct)
  case (2 clock n key entry es)
  have "clock n \<le> clock (n + length ((key, entry) # es))" using "2.prems"(1) by (simp add: monoD)
  with 2 show ?case by (auto simp: isExpired_def)
qed simp

lemma purge_removes:
  "mono clock \<Longrightarrow> (k, ce) \<in> set (purge_expired clock n es) \<Longrightarrow> \<not> isExpired (clock n) ce"
proof (induction clock n es rule: purge_expired.induct)
  case (2 clock n key entry es)
  have "clock n \<le> clock (Suc n)" using "2.prems"(1) by (simp add: monoD)
  with 2 show ?case by (auto simp: isExpired_def split: if_splits)
qed simp

text \<open>
  A cleanup removes exactly what has expired: an entry of the store that is still valid at the end of the
  sweep stays, one that had expired at its start is gone, and nothing new appears.
\<close>

theorem cleanup_exact:
  assumes "mono clock" and "wf_gomap (cacheStore p)"
  shows "(\<forall>ce. map_of (cacheStore p) k = Some ce \<and> \<not> isExpired (clock (n + length (cacheStore p))) ce
            \<longrightarrow> map_of (cacheStore (cleanupExpiredEntries clock n p)) k = Some ce)
    \<and> (\<forall>ce. map_of (cacheStore (cleanupExpiredEntries clock n p)) k = Some ce
            \<longrightarrow> map_of (cacheStore p) k = Some ce \<and> \<not> isExpired (clock n) ce)"
  using assms purge_keeps [OF assms(1), of k _ "cacheStore p" n] purge_removes [OF assms(1), of k _ n "cacheStore p"]
    purge_subset [of clock n "cacheStore p"] wf_purge [OF assms(2), of clock n]
  by (auto simp: cleanupExpiredEntries_def wf_lookup [symmetric])

definition example_cache :: CachingPlugin where
  "example_cache = new_CachingPlugin\<lparr>cacheStore :=
     [(''a'', \<lparr>ce_statusCode = 200, ce_header = [], ce_body = ''x'', expiresAt = 10\<rparr>),
      (''b'', \<lparr>ce_statusCode = 200, ce_header = [], ce_body = ''y'', expiresAt = 99\<rparr>)]\<rparr>"

theorem cleanup_exact_witness:
  "map_of (cacheStore (cleanupExpiredEntries (\<lambda>i. 20 + int i) 0 example_cache)) ''b''
     = Some \<lparr>ce_statusCode = 200, ce_header = [], ce_body = ''y'', expiresAt = 99\<rparr>"
  using cleanup_exact [of "\<lambda>i. 20 + int i" example_cache "''b''" 0]
  by (simp add: mono_def example_cache_def new_CachingPlugin_def isExpired_def wf_gomap_def)

lemma serve_cached_fields:
  "rwStatus w = None \<Longrightarrow> rwStatus (serve_cached ce w) = Some (ce_statusCode ce)
     \<and> rwBody (serve_cached ce w) = rwBody w @ ce_body ce"
  by (simp add: serve_cached_def Write_def WriteHeader_def Let_def)

lemma relay_recorded_fields:
  "rwStatus w = None \<Longrightarrow> rwStatus (relay_recorded rec w) = Some (rec_code rec)
     \<and> rwBody (relay_recorded rec w) = rwBody w @ rwBody rec"
  by (simp add: relay_recorded_def Write_def WriteHeader_def Let_def)

end
