(* ===== verification/Fmt.thy ===== *)
theory Fmt
  imports Config
begin

text \<open>
  The verb \<^verbatim>\<open>%v\<close> of package \<^verbatim>\<open>fmt\<close> on the dynamic values of the gateway: the subject of a token and the
  fields of a log entry are printed with it.
\<close>

text \<open>
  \<^verbatim>\<open>fmt.Sprintf("%v", x)\<close> of an interface value, a missing one being nil. \<^verbatim>\<open>AFloat\<close> carries the printed
  number; the keys of a map are printed in order.
\<close>

fun str_less :: "string \<Rightarrow> string \<Rightarrow> bool" where
  "str_less [] [] = False"
| "str_less [] (_ # _) = True"
| "str_less (_ # _) [] = False"
| "str_less (c # cs) (d # ds) = ((of_char c :: nat) < of_char d \<or> c = d \<and> str_less cs ds)"

fun insert_entry :: "string \<times> string \<Rightarrow> (string \<times> string) list \<Rightarrow> (string \<times> string) list" where
  "insert_entry e [] = [e]"
| "insert_entry e (f # fs) = (if str_less (fst e) (fst f) then e # f # fs else f # insert_entry e fs)"

fun join_sp :: "string list \<Rightarrow> string" where
  "join_sp [] = []"
| "join_sp [s] = s"
| "join_sp (s # ss) = s @ '' '' @ join_sp ss"

fun Sprint_v :: "any \<Rightarrow> string" where
  "Sprint_v (AString s) = s"
| "Sprint_v (AInt i) = Itoa i"
| "Sprint_v (ABool b) = (if b then ''true'' else ''false'')"
| "Sprint_v (AFloat s) = s"
| "Sprint_v ANull = ''<nil>''"
| "Sprint_v (AList l) = ''['' @ join_sp (map Sprint_v l) @ '']''"
| "Sprint_v (AMap m) = ''map['' @ join_sp (map (\<lambda>(k, v). k @ '':'' @ v)
     (foldr insert_entry (map (\<lambda>(k, v). (k, Sprint_v v)) m) [])) @ '']''"

definition Sprint_opt :: "any option \<Rightarrow> string" where
  "Sprint_opt a = (case a of Some v \<Rightarrow> Sprint_v v | None \<Rightarrow> ''<nil>'')"

end
