(* ===== verification/Authentication.thy ===== *)
theory Authentication
  imports Http Sha256 Fmt
begin

text \<open>
  The authentication plugin (\<^verbatim>\<open>src/app/plugins/authentication.go\<close>) and the key generator
  (\<^verbatim>\<open>src/app/utils/keygen.go\<close>): parsing of the configuration, loading of API keys from YAML and from
  MongoDB, \<^verbatim>\<open>Init\<close>, the decision \<^verbatim>\<open>Handle\<close> takes on a request, the periodic refresh and \<^verbatim>\<open>Shutdown\<close>.

  What the packages outside the repository do is a parameter: \<^verbatim>\<open>jwt.ParseWithClaims\<close>,
  \<^verbatim>\<open>bcrypt.CompareHashAndPassword\<close> and \<^verbatim>\<open>GenerateFromPassword\<close>, the MongoDB client, and the file system with
  the PEM and X.509 decoders behind \<^verbatim>\<open>jwt_public_key_file\<close>. The documented behaviour the theorems rely on
  is stated in \<^verbatim>\<open>jwt_contract\<close> and \<^verbatim>\<open>bcrypt_contract\<close>. A Go panic is an outcome of its own.
\<close>

section \<open>State\<close>

text \<open>The dynamic types a parsed PKIX public key can have; the last one is any other type.\<close>

datatype public_key = RSAPublicKey string | ECDSAPublicKey string | Ed25519PublicKey string | OtherPublicKey string

record HashedAPIKeyDetails =
  hk_ClientID :: string
  BcryptHash :: string

record AuthenticationPlugin =
  Provider :: string
  jwtSecretKey :: "string option"
  jwtPublicKey :: "public_key option"
  jwtExpectedAlgorithm :: string
  jwtExpectedIssuer :: string
  jwtExpectedAudience :: string
  tokenHeaderName :: string
  tokenHeaderScheme :: string
  validAPIKeys :: "string \<rightharpoonup> HashedAPIKeyDetails"
  apiKeyHeaderName :: string
  mongoURIFromConfig :: string
  mongoClient :: bool
  mongoDatabaseName :: string
  mongoCollectionName :: string
  mongoOperationContextTimeout :: duration
  useMongoDBForAPIKeys :: bool
  apiKeyRefreshInterval :: duration
  apiKeyRefreshTicker :: bool
  stopAPIKeyRefresh :: bool

text \<open>
  The zero value the registered constructor returns. \<^verbatim>\<open>mongoClient\<close> and \<^verbatim>\<open>apiKeyRefreshTicker\<close> record
  whether the pointer is set, \<^verbatim>\<open>stopAPIKeyRefresh\<close> whether the channel has been closed.
\<close>

definition new_AuthenticationPlugin :: AuthenticationPlugin where
  "new_AuthenticationPlugin =
     \<lparr>Provider = [], jwtSecretKey = None, jwtPublicKey = None, jwtExpectedAlgorithm = [], jwtExpectedIssuer = [],
      jwtExpectedAudience = [], tokenHeaderName = [], tokenHeaderScheme = [], validAPIKeys = Map.empty,
      apiKeyHeaderName = [], mongoURIFromConfig = [], mongoClient = False, mongoDatabaseName = [],
      mongoCollectionName = [], mongoOperationContextTimeout = 0, useMongoDBForAPIKeys = False,
      apiKeyRefreshInterval = 0, apiKeyRefreshTicker = False, stopAPIKeyRefresh = False\<rparr>"

text \<open>
  The surroundings of \<^verbatim>\<open>Init\<close>: the bytes of a file, the first PEM block in them, its PKIX and PKCS1
  parses, whether MongoDB can be connected and pinged within a timeout, and the documents with
  \<^verbatim>\<open>status: active\<close> in a collection. In the answer to a query \<^verbatim>\<open>None\<close> is an error of \<^verbatim>\<open>Find\<close>; the list
  holds what the cursor yields until \<^verbatim>\<open>Next\<close> returns false, a document that does not decode being \<^verbatim>\<open>None\<close>.
\<close>

record key_document =
  kd_ClientID :: string
  kd_LookupKey :: string
  kd_HashedValue :: string

record auth_init_env =
  ReadFile :: "string \<Rightarrow> string option"
  pem_Decode :: "string \<Rightarrow> string option"
  ParsePKIXPublicKey :: "string \<Rightarrow> public_key option"
  ParsePKCS1PublicKey :: "string \<Rightarrow> public_key option"
  mongo_Connect :: "string \<Rightarrow> duration \<Rightarrow> bool"
  mongo_Ping :: "string \<Rightarrow> duration \<Rightarrow> bool"
  mongo_Find :: "string \<Rightarrow> string \<Rightarrow> duration \<Rightarrow> key_document option list option"

section \<open>Parsing the configuration\<close>

text \<open>\<^verbatim>\<open>if v, ok := configMap[k].(string); ok && v != "" { ... }\<close>.\<close>

definition nonempty_string :: "any_map \<Rightarrow> string \<Rightarrow> string option" where
  "nonempty_string m k = (case get_string m k of Some s \<Rightarrow> if s \<noteq> [] then Some s else None | None \<Rightarrow> None)"

definition with_string :: "any_map \<Rightarrow> string \<Rightarrow> (string \<Rightarrow> 'p \<Rightarrow> 'p) \<Rightarrow> 'p \<Rightarrow> 'p" where
  "with_string m k f p = (case nonempty_string m k of Some s \<Rightarrow> f s p | None \<Rightarrow> p)"

definition with_positive :: "any_map \<Rightarrow> string \<Rightarrow> (int \<Rightarrow> 'p \<Rightarrow> 'p) \<Rightarrow> 'p \<Rightarrow> 'p" where
  "with_positive m k f p = (case get_int m k of Some n \<Rightarrow> if n > 0 then f n p else p | None \<Rightarrow> p)"

definition apply_strings :: "any_map \<Rightarrow> AuthenticationPlugin \<Rightarrow> AuthenticationPlugin" where
  "apply_strings m p =
     (let p = with_string m ''provider'' (\<lambda>s p. p\<lparr>Provider := ToLower s\<rparr>) p;
          p = with_string m ''jwt_secret'' (\<lambda>s p. p\<lparr>jwtSecretKey := Some s\<rparr>) p;
          p = with_string m ''jwt_algorithm'' (\<lambda>s p. p\<lparr>jwtExpectedAlgorithm := s\<rparr>) p;
          p = with_string m ''jwt_issuer'' (\<lambda>s p. p\<lparr>jwtExpectedIssuer := s\<rparr>) p;
          p = with_string m ''jwt_audience'' (\<lambda>s p. p\<lparr>jwtExpectedAudience := s\<rparr>) p;
          p = with_string m ''token_header_name'' (\<lambda>s p. p\<lparr>tokenHeaderName := s\<rparr>) p;
          p = with_string m ''token_header_scheme'' (\<lambda>s p. p\<lparr>tokenHeaderScheme := s\<rparr>) p
      in with_string m ''api_key_header_name'' (\<lambda>s p. p\<lparr>apiKeyHeaderName := s\<rparr>) p)"

definition apply_mongo :: "bool \<Rightarrow> any_map \<Rightarrow> AuthenticationPlugin \<Rightarrow> AuthenticationPlugin" where
  "apply_mongo global m p =
     (case nonempty_string m ''mongodb_uri'' of
        Some uri \<Rightarrow>
          (let p = p\<lparr>mongoURIFromConfig := uri, useMongoDBForAPIKeys := True\<rparr>;
               p = (case nonempty_string m ''mongodb_database'' of
                      Some db \<Rightarrow> p\<lparr>mongoDatabaseName := db\<rparr>
                    | None \<Rightarrow> p\<lparr>useMongoDBForAPIKeys := False\<rparr>);
               p = (case nonempty_string m ''mongodb_collection_apikeys'' of
                      Some coll \<Rightarrow> p\<lparr>mongoCollectionName := coll\<rparr>
                    | None \<Rightarrow> p\<lparr>useMongoDBForAPIKeys := False\<rparr>);
               p = with_positive m ''mongodb_timeout_ms''
                     (\<lambda>n p. p\<lparr>mongoOperationContextTimeout := Duration n Millisecond\<rparr>) p
           in with_positive m ''mongodb_apikeys_refresh_interval_sec''
                (\<lambda>n p. p\<lparr>apiKeyRefreshInterval := Duration n Second\<rparr>) p)
      | None \<Rightarrow> if global then p\<lparr>useMongoDBForAPIKeys := False\<rparr> else p)"

text \<open>
  The argument \<^verbatim>\<open>lookupKey[:8]\<close> of the debug message is evaluated whatever the log level is:
  a lookup key of fewer than eight bytes panics.
\<close>

definition slice8 :: "string \<Rightarrow> string outcome" where
  "slice8 s = (if 8 \<le> length s then Ok (take 8 s) else Panic ''slice bounds out of range'')"

text \<open>One entry of the YAML list \<^verbatim>\<open>api_keys\<close>.\<close>

definition load_entry :: "any \<Rightarrow> AuthenticationPlugin \<Rightarrow> AuthenticationPlugin outcome" where
  "load_entry keyEntry p =
     (case keyEntry of
        AMap keyMap \<Rightarrow>
          (case (get_string keyMap ''lookup_key'', get_string keyMap ''hashed_value'') of
             (Some lookupKey, Some hashedValue) \<Rightarrow>
               if lookupKey \<noteq> [] \<and> hashedValue \<noteq> []
               then (let clientID = (case get_string keyMap ''client_id'' of Some c \<Rightarrow> c | None \<Rightarrow> []);
                         p = p\<lparr>validAPIKeys := (validAPIKeys p)(lookupKey \<mapsto>
                                \<lparr>hk_ClientID = clientID, BcryptHash = hashedValue\<rparr>)\<rparr>
                     in bind_outcome (slice8 lookupKey) (\<lambda>_. Ok p))
               else Ok p
           | _ \<Rightarrow> Ok p)
      | _ \<Rightarrow> Ok p)"

fun load_entries :: "any list \<Rightarrow> AuthenticationPlugin \<Rightarrow> AuthenticationPlugin outcome" where
  "load_entries [] p = Ok p"
| "load_entries (e # es) p = bind_outcome (load_entry e p) (load_entries es)"

definition apply_yaml_keys :: "bool \<Rightarrow> any_map \<Rightarrow> AuthenticationPlugin \<Rightarrow> AuthenticationPlugin outcome" where
  "apply_yaml_keys global m p =
     (if \<not> useMongoDBForAPIKeys p \<and> global
      then (case get_list m ''api_keys'' of Some keysList \<Rightarrow> load_entries keysList p | None \<Rightarrow> Ok p)
      else Ok p)"

definition apply_public_key :: "auth_init_env \<Rightarrow> any_map \<Rightarrow> AuthenticationPlugin \<Rightarrow> AuthenticationPlugin" where
  "apply_public_key env m p =
     (case nonempty_string m ''jwt_public_key_file'' of
        None \<Rightarrow> p
      | Some pubKeyFile \<Rightarrow>
          (case ReadFile env pubKeyFile of
             None \<Rightarrow> p
           | Some keyBytes \<Rightarrow>
               (case pem_Decode env keyBytes of
                  None \<Rightarrow> p
                | Some block \<Rightarrow>
                    (case (case ParsePKIXPublicKey env block of
                             Some pub \<Rightarrow> Some pub
                           | None \<Rightarrow> ParsePKCS1PublicKey env block) of
                       None \<Rightarrow> p
                     | Some (OtherPublicKey _) \<Rightarrow> p
                     | Some pub \<Rightarrow> p\<lparr>jwtPublicKey := Some pub\<rparr>))))"

definition applyAuthConfig ::
  "auth_init_env \<Rightarrow> bool \<Rightarrow> any_map \<Rightarrow> AuthenticationPlugin \<Rightarrow> AuthenticationPlugin outcome" where
  "applyAuthConfig env global m p =
     bind_outcome (apply_yaml_keys global m (apply_mongo global m (apply_strings m p)))
       (\<lambda>p. Ok (apply_public_key env m p))"

section \<open>MongoDB\<close>

text \<open>\<^verbatim>\<open>connectMongoDB\<close>: the client is kept only when the ping succeeds.\<close>

definition connectMongoDB :: "auth_init_env \<Rightarrow> AuthenticationPlugin \<Rightarrow> AuthenticationPlugin outcome" where
  "connectMongoDB env p =
     (if mongoURIFromConfig p = [] then Err ''mongodb_uri not configured''
      else if \<not> mongo_Connect env (mongoURIFromConfig p) (mongoOperationContextTimeout p)
      then Err ''failed to connect to mongo''
      else if \<not> mongo_Ping env (mongoURIFromConfig p) (mongoOperationContextTimeout p)
      then Err ''failed to ping mongo''
      else Ok (p\<lparr>mongoClient := True\<rparr>))"

fun load_documents :: "key_document option list \<Rightarrow> (string \<rightharpoonup> HashedAPIKeyDetails)
    \<Rightarrow> (string \<rightharpoonup> HashedAPIKeyDetails) outcome" where
  "load_documents [] loaded = Ok loaded"
| "load_documents (None # ds) loaded = load_documents ds loaded"
| "load_documents (Some d # ds) loaded =
     bind_outcome (slice8 (kd_LookupKey d)) (\<lambda>_. load_documents ds
       (loaded(kd_LookupKey d \<mapsto> \<lparr>hk_ClientID = kd_ClientID d, BcryptHash = kd_HashedValue d\<rparr>)))"

definition loadAPIKeysFromMongoDB :: "auth_init_env \<Rightarrow> AuthenticationPlugin \<Rightarrow> AuthenticationPlugin outcome" where
  "loadAPIKeysFromMongoDB env p =
     (if \<not> mongoClient p \<or> mongoDatabaseName p = [] \<or> mongoCollectionName p = []
      then Err ''mongodb client or configuration not initialized''
      else (case mongo_Find env (mongoDatabaseName p) (mongoCollectionName p) (mongoOperationContextTimeout p) of
              None \<Rightarrow> Err ''failed to query api_keys collection''
            | Some docs \<Rightarrow> bind_outcome (load_documents docs Map.empty) (\<lambda>loaded. Ok (p\<lparr>validAPIKeys := loaded\<rparr>))))"

text \<open>One tick of \<^verbatim>\<open>periodicAPIKeyRefresh\<close>: an error is logged and the old keys stay.\<close>

definition refresh_tick :: "auth_init_env \<Rightarrow> AuthenticationPlugin \<Rightarrow> AuthenticationPlugin outcome" where
  "refresh_tick env p = (case loadAPIKeysFromMongoDB env p of Err _ \<Rightarrow> Ok p | res \<Rightarrow> res)"

section \<open>Init and Shutdown\<close>

definition auth_defaults :: "AuthenticationPlugin \<Rightarrow> AuthenticationPlugin" where
  "auth_defaults p = p\<lparr>Provider := ''none'', tokenHeaderName := ''Authorization'', tokenHeaderScheme := ''Bearer'',
     apiKeyHeaderName := ''X-API-Key'', mongoOperationContextTimeout := 5 * Second,
     apiKeyRefreshInterval := 5 * Minute, stopAPIKeyRefresh := False\<rparr>"

definition check_jwt :: "AuthenticationPlugin \<Rightarrow> AuthenticationPlugin outcome" where
  "check_jwt p =
     (if Provider p = ''jwt''
      then (let alg = jwtExpectedAlgorithm p;
                isHmac = HasPrefix alg ''HS'';
                isRsaEcdsaEdDsa = HasPrefix alg ''RS'' \<or> HasPrefix alg ''ES'' \<or> HasPrefix alg ''PS''
            in if alg = [] then Err ''jwt_algorithm is not configured''
               else if isHmac \<and> jwtSecretKey p = None then Err ''jwt_secret required''
               else if isRsaEcdsaEdDsa \<and> jwtPublicKey p = None then Err ''jwt_public_key_file required''
               else if \<not> isHmac \<and> \<not> isRsaEcdsaEdDsa then Err ''Unsupported JWT algorithm''
               else Ok p)
      else Ok p)"

definition init_mongo :: "auth_init_env \<Rightarrow> AuthenticationPlugin \<Rightarrow> AuthenticationPlugin outcome" where
  "init_mongo env p =
     (if Provider p = ''api-key'' \<and> useMongoDBForAPIKeys p
      then (case connectMongoDB env p of
              Err _ \<Rightarrow> Ok (p\<lparr>useMongoDBForAPIKeys := False\<rparr>)
            | Panic e \<Rightarrow> Panic e
            | Ok p \<Rightarrow>
                (case loadAPIKeysFromMongoDB env p of
                   Err _ \<Rightarrow> Ok p
                 | Panic e \<Rightarrow> Panic e
                 | Ok p \<Rightarrow> Ok (if apiKeyRefreshInterval p > 0 then p\<lparr>apiKeyRefreshTicker := True\<rparr> else p)))
      else Ok p)"

definition auth_Init :: "auth_init_env \<Rightarrow> any_map option \<Rightarrow> PluginsConfig option
    \<Rightarrow> AuthenticationPlugin \<Rightarrow> AuthenticationPlugin outcome" where
  "auth_Init env pluginConfig globals p =
     bind_outcome
       (case globals of
          None \<Rightarrow> Ok (auth_defaults p)
        | Some g \<Rightarrow> (case pc_Authentication g of
                      None \<Rightarrow> Ok (auth_defaults p)
                    | Some m \<Rightarrow> applyAuthConfig env True m (auth_defaults p)))
       (\<lambda>p. bind_outcome
          (case pluginConfig of None \<Rightarrow> Ok p | Some m \<Rightarrow> applyAuthConfig env False m p)
          (\<lambda>p. bind_outcome (check_jwt p) (init_mongo env)))"

text \<open>\<^verbatim>\<open>Shutdown\<close>; closing the stop channel a second time panics.\<close>

definition auth_Shutdown :: "bool \<Rightarrow> AuthenticationPlugin \<Rightarrow> AuthenticationPlugin outcome" where
  "auth_Shutdown disconnects p =
     bind_outcome
       (if apiKeyRefreshTicker p
        then (if stopAPIKeyRefresh p then Panic ''close of closed channel'' else Ok (p\<lparr>stopAPIKeyRefresh := True\<rparr>))
        else Ok p)
       (\<lambda>p. if mongoClient p \<and> \<not> disconnects then Err ''disconnect'' else Ok p)"

section \<open>The decision on a request\<close>

text \<open>Tokens, keys and parser options of \<^verbatim>\<open>golang-jwt\<close>, as far as the plugin looks at them.\<close>

datatype signing_method = SigningMethodHMAC | SigningMethodRSA | SigningMethodRSAPSS | SigningMethodECDSA
  | SigningMethodEd25519 | SigningMethodNone

record jwt_token =
  tk_alg :: "any option"
  tk_Method :: signing_method
  tk_Claims :: any_map
  tk_Valid :: bool

datatype jwt_key = SecretKey "string option" | PublicKey "public_key option"

record parser_options =
  po_ValidMethods :: "string list"
  po_Issuer :: "string option"
  po_Audience :: "string option"

record auth_env =
  ParseWithClaims :: "instant \<Rightarrow> string \<Rightarrow> (jwt_token \<Rightarrow> jwt_key option) \<Rightarrow> parser_options \<Rightarrow> jwt_token option"
  CompareHashAndPassword :: "string \<Rightarrow> string \<Rightarrow> bool"

definition keyFunc :: "AuthenticationPlugin \<Rightarrow> jwt_token \<Rightarrow> jwt_key option" where
  "keyFunc p token =
     (if tk_alg token \<noteq> Some (AString (jwtExpectedAlgorithm p)) then None
      else (case tk_Method token of
              SigningMethodHMAC \<Rightarrow> Some (SecretKey (jwtSecretKey p))
            | SigningMethodRSA \<Rightarrow> Some (PublicKey (jwtPublicKey p))
            | SigningMethodECDSA \<Rightarrow> Some (PublicKey (jwtPublicKey p))
            | SigningMethodEd25519 \<Rightarrow> Some (PublicKey (jwtPublicKey p))
            | _ \<Rightarrow> None))"

definition parserOpts :: "AuthenticationPlugin \<Rightarrow> parser_options" where
  "parserOpts p = \<lparr>po_ValidMethods = [jwtExpectedAlgorithm p],
     po_Issuer = (if jwtExpectedIssuer p \<noteq> [] then Some (jwtExpectedIssuer p) else None),
     po_Audience = (if jwtExpectedAudience p \<noteq> [] then Some (jwtExpectedAudience p) else None)\<rparr>"

text \<open>The token in the header value, or the refusal.\<close>

datatype auth_result = Allow request | Deny string int

definition tokenString :: "AuthenticationPlugin \<Rightarrow> string \<Rightarrow> string option" where
  "tokenString p authHeader =
     (let parts = Fields authHeader
      in if length parts = 2 \<and> EqualFold (parts ! 0) (tokenHeaderScheme p) then Some (parts ! 1)
         else if length parts = 1 \<and> tokenHeaderScheme p = [] then Some (parts ! 0)
         else None)"

definition decide_jwt :: "auth_env \<Rightarrow> instant \<Rightarrow> AuthenticationPlugin \<Rightarrow> request \<Rightarrow> auth_result" where
  "decide_jwt e now p r =
     (let authHeader = hGet (Header r) (tokenHeaderName p)
      in if authHeader = [] then Deny ''Unauthorized: Missing or malformed token'' 401
         else (case tokenString p authHeader of
                 None \<Rightarrow> Deny ''Unauthorized: Malformed token'' 401
               | Some ts \<Rightarrow>
                   if ts = [] then Deny ''Unauthorized: Invalid token'' 401
                   else (case ParseWithClaims e now ts (keyFunc p) (parserOpts p) of
                           None \<Rightarrow> Deny ''Unauthorized: Invalid token'' 401
                         | Some token \<Rightarrow>
                             if tk_Valid token
                             then Allow (r\<lparr>ctxUser := Some \<lparr>au_ID = Sprint_opt (map_of (tk_Claims token) ''sub''),
                                                            au_Claims = Some (tk_Claims token)\<rparr>\<rparr>)
                             else Deny ''Unauthorized: Invalid token'' 401)))"

definition decide_api_key :: "auth_env \<Rightarrow> AuthenticationPlugin \<Rightarrow> request \<Rightarrow> auth_result" where
  "decide_api_key e p r =
     (let key = hGet (Header r) (apiKeyHeaderName p)
      in if key = [] then Deny ''Unauthorized: Missing API Key'' 401
         else (case validAPIKeys p (sha256_hex key) of
                 None \<Rightarrow> Deny ''Unauthorized: Invalid API Key'' 401
               | Some details \<Rightarrow>
                   if \<not> CompareHashAndPassword e (BcryptHash details) key
                   then Deny ''Unauthorized: Invalid API Key'' 401
                   else Allow (r\<lparr>ctxUser := Some \<lparr>au_ID = hk_ClientID details, au_Claims = None\<rparr>\<rparr>)))"

definition auth_decide :: "auth_env \<Rightarrow> instant \<Rightarrow> AuthenticationPlugin \<Rightarrow> request \<Rightarrow> auth_result" where
  "auth_decide e now p r =
     (if Provider p = ''jwt'' then decide_jwt e now p r
      else if Provider p = ''api-key'' then decide_api_key e p r
      else if Provider p = ''none'' then Allow r
      else Deny ''Internal Server Error: Authentication misconfiguration'' 500)"

section \<open>The key generator\<close>

datatype keygen_error = EmptyKey | BcryptFailed

text \<open>\<^verbatim>\<open>GenerateFromPassword\<close> (nothing on an error; the salt is random) is the argument.\<close>

definition GenerateAPIKeyHashes :: "(string \<Rightarrow> string option) \<Rightarrow> string \<Rightarrow> keygen_error + (string \<times> string)" where
  "GenerateAPIKeyHashes generate plaintextKey =
     (if plaintextKey = [] then Inl EmptyKey
      else (case generate plaintextKey of
              None \<Rightarrow> Inl BcryptFailed
            | Some hash \<Rightarrow> Inr (sha256_hex plaintextKey, hash)))"

section \<open>Loading keys\<close>

text \<open>What a YAML entry contributes, and the meaning of the whole list: later entries win.\<close>

definition entry_details :: "any \<Rightarrow> (string \<times> HashedAPIKeyDetails) option" where
  "entry_details a =
     (case a of
        AMap m \<Rightarrow>
          (case (get_string m ''lookup_key'', get_string m ''hashed_value'') of
             (Some lk, Some hv) \<Rightarrow>
               if lk \<noteq> [] \<and> hv \<noteq> []
               then Some (lk, \<lparr>hk_ClientID = (case get_string m ''client_id'' of Some c \<Rightarrow> c | None \<Rightarrow> []), BcryptHash = hv\<rparr>)
               else None
           | _ \<Rightarrow> None)
      | _ \<Rightarrow> None)"

definition entries_map :: "any list \<Rightarrow> (string \<times> HashedAPIKeyDetails) list" where
  "entries_map es = List.map_filter entry_details es"

lemma entries_map_simps [simp]:
  "entries_map [] = []"
  "entries_map (a # es) = (case entry_details a of None \<Rightarrow> entries_map es | Some kd \<Rightarrow> kd # entries_map es)"
  by (simp_all add: entries_map_def List.map_filter_def split: option.splits)

lemma load_entry_spec:
  "load_entry a p =
     (case entry_details a of
        None \<Rightarrow> Ok p
      | Some (lk, d) \<Rightarrow> if 8 \<le> length lk then Ok (p\<lparr>validAPIKeys := (validAPIKeys p)(lk \<mapsto> d)\<rparr>)
                       else Panic ''slice bounds out of range'')"
  by (simp add: load_entry_def entry_details_def slice8_def split: any.splits option.splits)

text \<open>
  If every usable entry has a lookup key of at least eight bytes, the table is extended by exactly the
  usable entries, a later entry for a lookup key replacing an earlier one.
\<close>

lemma load_entries_eq:
  "load_entries es p =
     (if list_all (\<lambda>(lk, _). 8 \<le> length lk) (entries_map es)
      then Ok (p\<lparr>validAPIKeys := validAPIKeys p ++ map_of (rev (entries_map es))\<rparr>)
      else Panic ''slice bounds out of range'')"
proof (induction es arbitrary: p)
  case (Cons a es)
  then show ?case
    by (simp add: load_entry_spec map_add_assoc [symmetric] map_add_upd split: option.splits prod.splits)
qed simp

lemma apply_frame [simp]:
  "validAPIKeys (apply_strings m p) = validAPIKeys p" "validAPIKeys (apply_mongo gl m p) = validAPIKeys p"
  "validAPIKeys (apply_public_key env m p) = validAPIKeys p"
  by (auto simp: apply_strings_def apply_mongo_def apply_public_key_def with_string_def with_positive_def Let_def
      split: option.splits public_key.splits)

lemma apply_mongo_unset: "nonempty_string m ''mongodb_uri'' = None \<Longrightarrow> \<not> useMongoDBForAPIKeys (apply_mongo True m p)"
  by (simp add: apply_mongo_def)

lemma applyAuthConfig_yaml:
  assumes "nonempty_string m ''mongodb_uri'' = None"
  shows "applyAuthConfig env True m p =
    (case get_list m ''api_keys'' of
       None \<Rightarrow> Ok (apply_public_key env m (apply_mongo True m (apply_strings m p)))
     | Some es \<Rightarrow> bind_outcome (load_entries es (apply_mongo True m (apply_strings m p))) (\<lambda>p. Ok (apply_public_key env m p)))"
  using apply_mongo_unset [OF assms] by (simp add: applyAuthConfig_def apply_yaml_keys_def split: option.splits)

text \<open>
  C38. A usable entry of \<^verbatim>\<open>api_keys\<close> whose lookup key is shorter than eight bytes makes \<^verbatim>\<open>Init\<close> panic, whatever
  the provider, the route configuration and the log level are.
\<close>

theorem short_lookup_key_panics:
  assumes "pc_Authentication g = Some m" and "nonempty_string m ''mongodb_uri'' = None"
    and "get_list m ''api_keys'' = Some es" and "(lk, d) \<in> set (entries_map es)" and "length lk < 8"
  shows "auth_Init env c (Some g) p = Panic ''slice bounds out of range''"
proof -
  have "\<not> list_all (\<lambda>(lk, _). 8 \<le> length lk) (entries_map es)"
    using assms(4,5) by (force simp: list_all_iff)
  then show ?thesis
    using assms(1-3) by (simp add: auth_Init_def applyAuthConfig_yaml load_entries_eq)
qed

definition example_entry :: "string \<Rightarrow> string \<Rightarrow> string \<Rightarrow> any" where
  "example_entry c lk h = AMap [(''client_id'', AString c), (''lookup_key'', AString lk), (''hashed_value'', AString h)]"

lemma entry_details_example: "entry_details (example_entry c lk h) =
    (if lk \<noteq> [] \<and> h \<noteq> [] then Some (lk, \<lparr>hk_ClientID = c, BcryptHash = h\<rparr>) else None)"
  by (simp add: entry_details_def example_entry_def get_string_def)

definition api_key_globals :: "any list \<Rightarrow> PluginsConfig" where
  "api_key_globals es =
     \<lparr>pc_Authentication = Some [(''provider'', AString ''api-key''), (''api_keys'', AList es)],
      pc_RateLimiting = None, pc_Caching = None, pc_Logging = None\<rparr>"

definition offline_env :: auth_init_env where
  "offline_env = \<lparr>ReadFile = \<lambda>_. None, pem_Decode = \<lambda>_. None, ParsePKIXPublicKey = \<lambda>_. None,
     ParsePKCS1PublicKey = \<lambda>_. None, mongo_Connect = \<lambda>_ _. False, mongo_Ping = \<lambda>_ _. False,
     mongo_Find = \<lambda>_ _ _. None\<rparr>"

theorem short_lookup_key_panics_witness:
  "auth_Init offline_env None (Some (api_key_globals [example_entry ''c'' ''abc'' ''h''])) new_AuthenticationPlugin
     = Panic ''slice bounds out of range''"
  using short_lookup_key_panics [of "api_key_globals [example_entry ''c'' ''abc'' ''h'']"
      "the (pc_Authentication (api_key_globals [example_entry ''c'' ''abc'' ''h'']))"
      "[example_entry ''c'' ''abc'' ''h'']" "''abc''" "\<lparr>hk_ClientID = ''c'', BcryptHash = ''h''\<rparr>"]
  by (simp add: api_key_globals_def entry_details_example nonempty_string_def get_string_def get_list_def)

section \<open>Generated keys are accepted\<close>

text \<open>What the documentation of bcrypt promises: a hash it generates matches the password it was generated from.\<close>

definition bcrypt_contract :: "(string \<Rightarrow> string option) \<Rightarrow> auth_env \<Rightarrow> bool" where
  "bcrypt_contract generate e \<longleftrightarrow>
     (\<forall>k h. generate k = Some h \<longrightarrow> h \<noteq> [] \<and> CompareHashAndPassword e h k)"

text \<open>The YAML entry an operator writes from the two hashes the generator prints for a client.\<close>

definition generated_entry :: "(string \<Rightarrow> string option) \<Rightarrow> string \<times> string \<Rightarrow> any" where
  "generated_entry generate ck = (case GenerateAPIKeyHashes generate (snd ck) of
     Inr (lk, h) \<Rightarrow> example_entry (fst ck) lk h | Inl _ \<Rightarrow> ANull)"

definition key_details :: "(string \<Rightarrow> string option) \<Rightarrow> string \<times> string \<Rightarrow> (string \<times> HashedAPIKeyDetails)" where
  "key_details generate ck = (sha256_hex (snd ck), \<lparr>hk_ClientID = fst ck, BcryptHash = the (generate (snd ck))\<rparr>)"

lemma generated_entry_details:
  assumes "bcrypt_contract generate e" and "snd ck \<noteq> []" and "generate (snd ck) \<noteq> None"
  shows "entry_details (generated_entry generate ck) = Some (key_details generate ck)"
  using assms by (auto simp: generated_entry_def GenerateAPIKeyHashes_def entry_details_example key_details_def
      bcrypt_contract_def)

lemma generated_entries_map:
  assumes "bcrypt_contract generate e" and "\<forall>ck \<in> set cks. snd ck \<noteq> [] \<and> generate (snd ck) \<noteq> None"
  shows "entries_map (map (generated_entry generate) cks) = map (key_details generate) cks"
  using assms(2) by (induction cks) (simp_all add: generated_entry_details [OF assms(1)])

lemma auth_Init_api_keys:
  "auth_Init env None (Some (api_key_globals es)) new_AuthenticationPlugin =
     bind_outcome (load_entries es ((auth_defaults new_AuthenticationPlugin)\<lparr>Provider := ''api-key''\<rparr>)) (\<lambda>p. Ok p)"
proof -
  let ?m = "[(''provider'', AString ''api-key''), (''api_keys'', AList es)]"
  let ?p = "(auth_defaults new_AuthenticationPlugin)\<lparr>Provider := ''api-key''\<rparr>"
  have m: "nonempty_string ?m k = (if k = ''provider'' then Some ''api-key'' else None)" for k
    by (simp add: nonempty_string_def get_string_def)
  have "applyAuthConfig env True ?m (auth_defaults new_AuthenticationPlugin) = bind_outcome (load_entries es ?p) Ok"
  proof -
    have "apply_strings ?m (auth_defaults new_AuthenticationPlugin) = ?p"
      by (simp add: apply_strings_def with_string_def m Let_def ToLower_def lower_char_def)
    moreover have "apply_mongo True ?m ?p = ?p"
      by (simp add: apply_mongo_def m auth_defaults_def new_AuthenticationPlugin_def)
    moreover have "get_list ?m ''api_keys'' = Some es" by (simp add: get_list_def)
    ultimately show ?thesis by (simp add: applyAuthConfig_yaml m apply_public_key_def)
  qed
  moreover have "bind_outcome (check_jwt q) (init_mongo env) = Ok q"
    if "load_entries es ?p = Ok q" for q
  proof -
    have "Provider q = ''api-key''" "\<not> useMongoDBForAPIKeys q"
      using that by (auto simp: load_entries_eq auth_defaults_def new_AuthenticationPlugin_def split: if_splits)
    then show ?thesis by (simp add: check_jwt_def init_mongo_def)
  qed
  ultimately show ?thesis
    by (cases "load_entries es ?p") (simp_all add: auth_Init_def api_key_globals_def)
qed

lemma map_of_rev_key_details:
  assumes "inj_on sha256_hex (snd ` set cks)" and "distinct (map snd cks)" and "ck \<in> set cks"
  shows "map_of (rev (map (key_details generate) cks)) (sha256_hex (snd ck)) = Some (snd (key_details generate ck))"
proof -
  have "distinct (map fst (map (key_details generate) cks))"
    using assms(1,2) by (simp add: key_details_def distinct_map comp_def inj_on_def)
  then have "distinct (map fst (rev (map (key_details generate) cks)))"
    by (metis distinct_rev rev_map)
  moreover have "(sha256_hex (snd ck), snd (key_details generate ck)) \<in> set (rev (map (key_details generate) cks))"
    using assms(3) by (force simp: key_details_def)
  ultimately show ?thesis by simp
qed

text \<open>
  C14. The keys the \<^verbatim>\<open>keygen\<close> subcommand prints are accepted. Write the two hashes of every client into the
  YAML list (distinct keys, no collision of SHA-256 among them): \<^verbatim>\<open>Init\<close> succeeds, and a request that carries
  the plaintext key of a client in \<^verbatim>\<open>X-API-Key\<close> is let through as that client.
\<close>

theorem generated_keys_accepted:
  assumes "bcrypt_contract generate e" and "\<forall>ck \<in> set cks. snd ck \<noteq> [] \<and> generate (snd ck) \<noteq> None"
    and "inj_on sha256_hex (snd ` set cks)" and "distinct (map snd cks)"
    and "(client, key) \<in> set cks" and "hGet (Header r) ''X-API-Key'' = key"
  shows "\<exists>p. auth_Init env None (Some (api_key_globals (map (generated_entry generate) cks))) new_AuthenticationPlugin = Ok p
    \<and> auth_decide e now p r = Allow (r\<lparr>ctxUser := Some \<lparr>au_ID = client, au_Claims = None\<rparr>\<rparr>)"
proof -
  let ?es = "map (generated_entry generate) cks"
  let ?p = "(auth_defaults new_AuthenticationPlugin)\<lparr>Provider := ''api-key'',
      validAPIKeys := map_of (rev (map (key_details generate) cks))\<rparr>"
  have "load_entries ?es ((auth_defaults new_AuthenticationPlugin)\<lparr>Provider := ''api-key''\<rparr>) = Ok ?p"
    using generated_entries_map [OF assms(1,2)]
    by (simp add: load_entries_eq list_all_iff key_details_def auth_defaults_def new_AuthenticationPlugin_def)
  then have "auth_Init env None (Some (api_key_globals ?es)) new_AuthenticationPlugin = Ok ?p"
    by (simp add: auth_Init_api_keys)
  moreover have "auth_decide e now ?p r = Allow (r\<lparr>ctxUser := Some \<lparr>au_ID = client, au_Claims = None\<rparr>\<rparr>)"
  proof -
    obtain h where h: "generate key = Some h" "key \<noteq> []" "CompareHashAndPassword e h key"
      using assms(1,2,5) by (force simp: bcrypt_contract_def)
    have "map_of (rev (map (key_details generate) cks)) (sha256_hex key) = Some \<lparr>hk_ClientID = client, BcryptHash = h\<rparr>"
      using map_of_rev_key_details [OF assms(3,4,5)] h(1) by (simp add: key_details_def)
    with h assms(6) show ?thesis by (simp add: auth_decide_def decide_api_key_def auth_defaults_def)
  qed
  ultimately show ?thesis by blast
qed

definition toy_generate :: "string \<Rightarrow> string option" where "toy_generate k = Some (CHR ''$'' # k)"

definition toy_auth_env :: auth_env where
  "toy_auth_env = \<lparr>ParseWithClaims = \<lambda>_ _ _ _. None, CompareHashAndPassword = \<lambda>h k. h = CHR ''$'' # k\<rparr>"

definition blank_url :: url where
  "blank_url = \<lparr>u_Scheme = [], u_Opaque = [], u_User = None, u_Host = [], u_Path = ''/'', u_RawPath = [],
     u_OmitHost = False, u_ForceQuery = False, u_RawQuery = [], u_Fragment = [], u_RawFragment = []\<rparr>"

definition request_with :: "string \<Rightarrow> string \<Rightarrow> request" where
  "request_with k v = \<lparr>Method = ''GET'', URL = blank_url, Host = ''example.org'', Header = hSet [] k v, Body = [],
     RemoteAddr = ''10.0.0.1:5000'', ctxMatchedRoute = None, ctxUser = None\<rparr>"

lemma hGet_request_with [simp]: "hGet (Header (request_with k v)) k = v"
  by (simp add: request_with_def hGet_hSet)

lemma bcrypt_contract_toy: "bcrypt_contract toy_generate toy_auth_env"
  by (simp add: bcrypt_contract_def toy_generate_def toy_auth_env_def)

theorem generated_keys_accepted_witness:
  "\<exists>p. auth_Init offline_env None (Some (api_key_globals [generated_entry toy_generate (''acme'', ''secret'')]))
        new_AuthenticationPlugin = Ok p
    \<and> auth_decide toy_auth_env 0 p (request_with ''X-API-Key'' ''secret'')
        = Allow ((request_with ''X-API-Key'' ''secret'')\<lparr>ctxUser := Some \<lparr>au_ID = ''acme'', au_Claims = None\<rparr>\<rparr>)"
  using generated_keys_accepted [OF bcrypt_contract_toy, of "[(''acme'', ''secret'')]" "''acme''" "''secret''"
      "request_with ''X-API-Key'' ''secret''" offline_env 0]
  by (simp add: toy_generate_def)

section \<open>What MongoDB changes\<close>

lemma init_mongo_unreachable:
  assumes "Provider p = ''api-key''" and "useMongoDBForAPIKeys p"
    and "\<not> (mongo_Connect env (mongoURIFromConfig p) (mongoOperationContextTimeout p)
           \<and> mongo_Ping env (mongoURIFromConfig p) (mongoOperationContextTimeout p))"
  shows "init_mongo env p = Ok (p\<lparr>useMongoDBForAPIKeys := False\<rparr>)"
  using assms by (simp add: init_mongo_def connectMongoDB_def)

lemma apply_mongo_set:
  assumes "nonempty_string m ''mongodb_uri'' = Some uri" and "nonempty_string m ''mongodb_database'' = Some db"
    and "nonempty_string m ''mongodb_collection_apikeys'' = Some coll"
  shows "useMongoDBForAPIKeys (apply_mongo gl m p) \<and> mongoURIFromConfig (apply_mongo gl m p) = uri
    \<and> Provider (apply_mongo gl m p) = Provider p"
  using assms by (simp add: apply_mongo_def with_positive_def Let_def split: option.splits)

lemma apply_public_key_frame [simp]:
  "Provider (apply_public_key env m p) = Provider p" "useMongoDBForAPIKeys (apply_public_key env m p) = useMongoDBForAPIKeys p"
  "mongoURIFromConfig (apply_public_key env m p) = mongoURIFromConfig p"
  by (auto simp: apply_public_key_def split: option.splits public_key.splits)

lemma apply_strings_provider [simp]: "Provider (apply_strings m p) =
    (case nonempty_string m ''provider'' of Some s \<Rightarrow> ToLower s | None \<Rightarrow> Provider p)"
  by (simp add: apply_strings_def with_string_def Let_def split: option.splits)

text \<open>
  C37. No fallback to YAML: when the global configuration names a MongoDB database and collection and the
  server cannot be reached, \<^verbatim>\<open>Init\<close> succeeds with an empty table even if \<^verbatim>\<open>api_keys\<close> lists keys, and every
  request is refused with 401.
\<close>

theorem mongo_unreachable_refuses_all:
  assumes "pc_Authentication g = Some m" and "nonempty_string m ''provider'' = Some ''api-key''"
    and "nonempty_string m ''mongodb_uri'' = Some uri" and "nonempty_string m ''mongodb_database'' = Some db"
    and "nonempty_string m ''mongodb_collection_apikeys'' = Some coll" and "\<And>t. \<not> (mongo_Connect env uri t \<and> mongo_Ping env uri t)"
  shows "\<exists>p. auth_Init env None (Some g) new_AuthenticationPlugin = Ok p
    \<and> (\<exists>msg. auth_decide e now p r = Deny msg 401)"
proof -
  let ?q = "apply_public_key env m (apply_mongo True m (apply_strings m (auth_defaults new_AuthenticationPlugin)))"
  note mg = apply_mongo_set [OF assms(3-5)]
  have pr: "Provider ?q = ''api-key''" using mg assms(2) by (simp add: ToLower_def lower_char_def)
  have "auth_Init env None (Some g) new_AuthenticationPlugin = bind_outcome (check_jwt ?q) (init_mongo env)"
    using assms(1) mg by (simp add: auth_Init_def applyAuthConfig_def apply_yaml_keys_def)
  also have "\<dots> = Ok (?q\<lparr>useMongoDBForAPIKeys := False\<rparr>)"
    using pr mg assms(6) by (simp add: check_jwt_def init_mongo_unreachable)
  finally have "auth_Init env None (Some g) new_AuthenticationPlugin = Ok (?q\<lparr>useMongoDBForAPIKeys := False\<rparr>)" .
  moreover have "validAPIKeys ?q = Map.empty" by (simp add: auth_defaults_def new_AuthenticationPlugin_def)
  ultimately show ?thesis using pr by (simp add: auth_decide_def decide_api_key_def Let_def)
qed

definition mongo_globals :: "any list \<Rightarrow> PluginsConfig" where
  "mongo_globals es =
     \<lparr>pc_Authentication = Some [(''provider'', AString ''api-key''), (''mongodb_uri'', AString ''mongodb://db''),
        (''mongodb_database'', AString ''gw''), (''mongodb_collection_apikeys'', AString ''keys''), (''api_keys'', AList es)],
      pc_RateLimiting = None, pc_Caching = None, pc_Logging = None\<rparr>"

theorem mongo_unreachable_refuses_all_witness:
  "\<exists>p. auth_Init offline_env None (Some (mongo_globals [generated_entry toy_generate (''acme'', ''secret'')]))
        new_AuthenticationPlugin = Ok p
    \<and> (\<exists>msg. auth_decide toy_auth_env 0 p (request_with ''X-API-Key'' ''secret'') = Deny msg 401)"
  using mongo_unreachable_refuses_all [of "mongo_globals [generated_entry toy_generate (''acme'', ''secret'')]"
      "the (pc_Authentication (mongo_globals [generated_entry toy_generate (''acme'', ''secret'')]))"
      "''mongodb://db''" "''gw''" "''keys''" offline_env toy_auth_env 0 "request_with ''X-API-Key'' ''secret''"]
  by (simp add: mongo_globals_def nonempty_string_def get_string_def offline_env_def)

text \<open>The table after a successful load: the last document for a lookup key counts.\<close>

lemma load_documents_lookup:
  "load_documents ds loaded = Ok ks \<Longrightarrow> ks k \<noteq> None \<Longrightarrow> loaded k = None \<Longrightarrow> \<exists>d. Some d \<in> set ds \<and> kd_LookupKey d = k"
proof (induction ds loaded rule: load_documents.induct)
  case (3 d ds loaded)
  have "load_documents ds (loaded(kd_LookupKey d \<mapsto> \<lparr>hk_ClientID = kd_ClientID d, BcryptHash = kd_HashedValue d\<rparr>)) = Ok ks"
    using "3.prems"(1) by (simp add: slice8_def split: if_splits)
  from "3.IH" [OF this "3.prems"(2)] "3.prems"(3) show ?case by (cases "kd_LookupKey d = k") auto
qed auto

lemma load_documents_not_Err: "load_documents ds loaded \<noteq> Err e"
  by (induction ds loaded rule: load_documents.induct) (simp_all add: slice8_def del: fun_upd_apply)

text \<open>
  C24. Revocation takes effect at the next successful refresh: once the query no longer returns an active
  document for a key, the refreshed plugin refuses every request with that key with 401.
\<close>

theorem revoked_key_refused:
  assumes "Provider p = ''api-key''" and "mongoClient p" and "mongoDatabaseName p \<noteq> []" and "mongoCollectionName p \<noteq> []"
    and "mongo_Find env (mongoDatabaseName p) (mongoCollectionName p) (mongoOperationContextTimeout p) = Some docs"
    and "\<forall>d. Some d \<in> set docs \<longrightarrow> kd_LookupKey d \<noteq> sha256_hex (hGet (Header r) (apiKeyHeaderName p))"
    and "refresh_tick env p = Ok p'"
  shows "\<exists>msg. auth_decide e now p' r = Deny msg 401"
proof -
  obtain ks where ks: "load_documents docs Map.empty = Ok ks" "p' = p\<lparr>validAPIKeys := ks\<rparr>"
    using assms(2-5,7) load_documents_not_Err [of docs Map.empty] by (cases "load_documents docs Map.empty") (auto simp: refresh_tick_def loadAPIKeysFromMongoDB_def)
  have "ks (sha256_hex (hGet (Header r) (apiKeyHeaderName p))) = None"
    using load_documents_lookup [OF ks(1)] assms(6) by blast
  then show ?thesis using ks(2) assms(1) by (simp add: auth_decide_def decide_api_key_def Let_def)
qed

definition mongo_plugin :: AuthenticationPlugin where
  "mongo_plugin = (auth_defaults new_AuthenticationPlugin)\<lparr>Provider := ''api-key'', mongoClient := True,
     mongoDatabaseName := ''gw'', mongoCollectionName := ''keys'', useMongoDBForAPIKeys := True, apiKeyRefreshTicker := True,
     validAPIKeys := [sha256_hex ''secret'' \<mapsto> \<lparr>hk_ClientID = ''acme'', BcryptHash = ''$secret''\<rparr>]\<rparr>"

definition emptied_env :: auth_init_env where
  "emptied_env = offline_env\<lparr>mongo_Find := \<lambda>_ _ _. Some [None]\<rparr>"

theorem revoked_key_refused_witness:
  "auth_decide toy_auth_env 0 mongo_plugin (request_with ''X-API-Key'' ''secret'') \<noteq> Deny ''Unauthorized: Invalid API Key'' 401
    \<and> (\<exists>msg. auth_decide toy_auth_env 0 (mongo_plugin\<lparr>validAPIKeys := Map.empty\<rparr>) (request_with ''X-API-Key'' ''secret'') = Deny msg 401)"
proof -
  let ?r = "request_with ''X-API-Key'' ''secret''"
  have "refresh_tick emptied_env mongo_plugin = Ok (mongo_plugin\<lparr>validAPIKeys := Map.empty\<rparr>)"
    by (simp add: refresh_tick_def loadAPIKeysFromMongoDB_def emptied_env_def mongo_plugin_def auth_defaults_def)
  then have "\<exists>msg. auth_decide toy_auth_env 0 (mongo_plugin\<lparr>validAPIKeys := Map.empty\<rparr>) ?r = Deny msg 401"
    by (rule revoked_key_refused [where docs = "[None]", rotated -1])
      (simp_all add: mongo_plugin_def auth_defaults_def emptied_env_def)
  moreover have "auth_decide toy_auth_env 0 mongo_plugin ?r \<noteq> Deny ''Unauthorized: Invalid API Key'' 401"
    by (simp add: auth_decide_def decide_api_key_def mongo_plugin_def auth_defaults_def toy_auth_env_def)
  ultimately show ?thesis by blast
qed

section \<open>JSON web tokens\<close>

text \<open>
  What the documentation of \<^verbatim>\<open>golang-jwt\<close> promises of \<^verbatim>\<open>ParseWithClaims\<close>: without an error, the token's algorithm
  is one of the valid methods, its method is the one registered for the algorithm, the key function
  returned a key for it, the signature verifies with that key, and the issuer is the expected one.
\<close>

definition jwt_contract :: "(jwt_key \<Rightarrow> string \<Rightarrow> string \<Rightarrow> bool) \<Rightarrow> auth_env \<Rightarrow> bool" where
  "jwt_contract verifies e \<longleftrightarrow> (\<forall>now ts kf opts token. ParseWithClaims e now ts kf opts = Some token \<longrightarrow>
     (\<exists>alg key. tk_alg token = Some (AString alg) \<and> alg \<in> set (po_ValidMethods opts)
        \<and> (HasPrefix alg ''HS'' \<longleftrightarrow> tk_Method token = SigningMethodHMAC)
        \<and> (HasPrefix alg ''PS'' \<longleftrightarrow> tk_Method token = SigningMethodRSAPSS)
        \<and> kf (token\<lparr>tk_Valid := False\<rparr>) = Some key \<and> verifies key alg ts
        \<and> (\<forall>i. po_Issuer opts = Some i \<longrightarrow> map_of (tk_Claims token) ''iss'' = Some (AString i))))"

lemma init_mongo_jwt: "Provider p = ''jwt'' \<Longrightarrow> init_mongo env p = Ok p"
  by (simp add: init_mongo_def)

lemma init_mongo_provider: "init_mongo env p = Ok p' \<Longrightarrow> Provider p' = Provider p"
  by (auto simp: init_mongo_def connectMongoDB_def loadAPIKeysFromMongoDB_def split: if_splits outcome.splits option.splits
      elim!: bind_outcome.elims)

lemma check_jwt_id: "check_jwt p = Ok p' \<Longrightarrow> p' = p"
  by (auto simp: check_jwt_def Let_def split: if_splits)

lemma auth_Init_jwt:
  assumes "auth_Init env c g p0 = Ok p" and "Provider p = ''jwt''"
  shows "check_jwt p = Ok p"
proof -
  obtain q where q: "check_jwt q = Ok q" "init_mongo env q = Ok p"
    using assms(1) by (auto simp: auth_Init_def bind_outcome_Ok dest: check_jwt_id)
  with init_mongo_provider [OF q(2)] init_mongo_jwt [of q env] assms(2) show ?thesis by simp
qed

text \<open>
  C8. The key a token was verified with is the configured one for the configured algorithm. For every plugin
  \<^verbatim>\<open>Init\<close> accepted with the provider \<^verbatim>\<open>jwt\<close>, a request is let through only if its header carries a token whose
  signature verifies under the configured algorithm with the configured secret (HMAC) or the configured
  public key (otherwise), never with a missing key and never with one standing in for the other; the
  issuer is the configured one, and the user's identity comes from the token's claims.
\<close>

theorem jwt_accepts_only_verified:
  assumes "jwt_contract verifies e" and "auth_Init env c g p0 = Ok p" and "Provider p = ''jwt''"
    and "auth_decide e now p r = Allow r'"
  shows "\<exists>ts key claims. tokenString p (hGet (Header r) (tokenHeaderName p)) = Some ts
    \<and> verifies key (jwtExpectedAlgorithm p) ts
    \<and> (if HasPrefix (jwtExpectedAlgorithm p) ''HS'' then \<exists>s. jwtSecretKey p = Some s \<and> key = SecretKey (Some s)
       else \<exists>k. jwtPublicKey p = Some k \<and> key = PublicKey (Some k))
    \<and> (jwtExpectedIssuer p \<noteq> [] \<longrightarrow> map_of claims ''iss'' = Some (AString (jwtExpectedIssuer p)))
    \<and> r' = r\<lparr>ctxUser := Some \<lparr>au_ID = Sprint_opt (map_of claims ''sub''), au_Claims = Some claims\<rparr>\<rparr>"
proof -
  obtain ts token where t: "tokenString p (hGet (Header r) (tokenHeaderName p)) = Some ts"
    "ParseWithClaims e now ts (keyFunc p) (parserOpts p) = Some token"
    "r' = r\<lparr>ctxUser := Some \<lparr>au_ID = Sprint_opt (map_of (tk_Claims token) ''sub''), au_Claims = Some (tk_Claims token)\<rparr>\<rparr>"
    using assms(3,4) by (auto simp: auth_decide_def decide_jwt_def Let_def split: if_splits option.splits)
  let ?alg = "jwtExpectedAlgorithm p"
  obtain key where k: "keyFunc p (token\<lparr>tk_Valid := False\<rparr>) = Some key" "verifies key ?alg ts"
    "HasPrefix ?alg ''HS'' \<longleftrightarrow> tk_Method token = SigningMethodHMAC"
    "jwtExpectedIssuer p \<noteq> [] \<longrightarrow> map_of (tk_Claims token) ''iss'' = Some (AString (jwtExpectedIssuer p))"
    using assms(1) t(2) unfolding jwt_contract_def by (force simp: parserOpts_def)
  have "check_jwt p = Ok p" using assms(2,3) by (rule auth_Init_jwt)
  then have "if HasPrefix ?alg ''HS'' then \<exists>s. jwtSecretKey p = Some s \<and> key = SecretKey (Some s)
       else \<exists>k. jwtPublicKey p = Some k \<and> key = PublicKey (Some k)"
    using k(1,3) assms(3) by (auto simp: check_jwt_def keyFunc_def Let_def split: if_splits signing_method.splits)
  with t k show ?thesis by blast
qed

definition example_token :: "string \<Rightarrow> signing_method \<Rightarrow> jwt_token" where
  "example_token alg m = \<lparr>tk_alg = Some (AString alg), tk_Method = m, tk_Claims = [(''sub'', AString ''alice'')], tk_Valid = False\<rparr>"

definition example_parse :: "string \<Rightarrow> signing_method \<Rightarrow> instant \<Rightarrow> string \<Rightarrow> (jwt_token \<Rightarrow> jwt_key option)
    \<Rightarrow> parser_options \<Rightarrow> jwt_token option" where
  "example_parse alg m now ts kf opts =
     (if ts = ''tok'' \<and> alg \<in> set (po_ValidMethods opts) \<and> kf (example_token alg m) \<noteq> None \<and> po_Issuer opts = None
      then Some ((example_token alg m)\<lparr>tk_Valid := True\<rparr>) else None)"

definition example_jwt_env :: "string \<Rightarrow> signing_method \<Rightarrow> auth_env" where
  "example_jwt_env alg m = \<lparr>ParseWithClaims = example_parse alg m, CompareHashAndPassword = \<lambda>_ _. False\<rparr>"

lemma jwt_contract_example:
  assumes "HasPrefix alg ''HS'' \<longleftrightarrow> m = SigningMethodHMAC" and "HasPrefix alg ''PS'' \<longleftrightarrow> m = SigningMethodRSAPSS"
  shows "jwt_contract (\<lambda>k a ts. a = alg \<and> ts = ''tok'') (example_jwt_env alg m)"
  using assms by (auto simp: jwt_contract_def example_jwt_env_def example_parse_def example_token_def split: if_splits)

definition jwt_route_config :: any_map where
  "jwt_route_config = [(''provider'', AString ''jwt''), (''jwt_secret'', AString ''s3cret''), (''jwt_algorithm'', AString ''HS256'')]"

definition jwt_plugin :: AuthenticationPlugin where
  "jwt_plugin = (auth_defaults new_AuthenticationPlugin)\<lparr>Provider := ''jwt'', jwtSecretKey := Some ''s3cret'',
     jwtExpectedAlgorithm := ''HS256''\<rparr>"

lemma jwt_plugin_Init: "auth_Init offline_env (Some jwt_route_config) None new_AuthenticationPlugin = Ok jwt_plugin"
  by (simp add: auth_Init_def jwt_plugin_def applyAuthConfig_def apply_yaml_keys_def apply_mongo_def apply_public_key_def
      apply_strings_def with_string_def nonempty_string_def get_string_def jwt_route_config_def check_jwt_def init_mongo_def
      HasPrefix_def ToLower_def lower_char_def Let_def auth_defaults_def new_AuthenticationPlugin_def)

lemma jwt_plugin_accepts:
  "auth_decide (example_jwt_env ''HS256'' SigningMethodHMAC) 0 jwt_plugin (request_with ''Authorization'' ''Bearer tok'')
     = Allow ((request_with ''Authorization'' ''Bearer tok'')\<lparr>ctxUser := Some \<lparr>au_ID = ''alice'',
         au_Claims = Some [(''sub'', AString ''alice'')]\<rparr>\<rparr>)"
  by (simp add: auth_decide_def decide_jwt_def jwt_plugin_def auth_defaults_def new_AuthenticationPlugin_def tokenString_def
      Fields_def is_space_def example_jwt_env_def example_parse_def example_token_def
      parserOpts_def keyFunc_def Sprint_opt_def Let_def)

theorem jwt_accepts_only_verified_witness:
  "\<exists>ts key. tokenString jwt_plugin ''Bearer tok'' = Some ts \<and> key = SecretKey (Some ''s3cret'') \<and> ts = ''tok''"
proof -
  have c: "jwt_contract (\<lambda>k a ts. a = ''HS256'' \<and> ts = ''tok'') (example_jwt_env ''HS256'' SigningMethodHMAC)"
    by (rule jwt_contract_example) (simp_all add: HasPrefix_def)
  have j: "Provider jwt_plugin = ''jwt''" "HasPrefix (jwtExpectedAlgorithm jwt_plugin) ''HS''"
    "jwtSecretKey jwt_plugin = Some ''s3cret''" "tokenHeaderName jwt_plugin = ''Authorization''"
    by (simp_all add: jwt_plugin_def HasPrefix_def auth_defaults_def)
  from jwt_accepts_only_verified [OF c jwt_plugin_Init j(1) jwt_plugin_accepts] j(2-4)
  show ?thesis by auto
qed

text \<open>
  The RSA-PSS algorithms cannot be used although \<^verbatim>\<open>Init\<close> accepts them: the key function has no case for
  their signing method, so with \<^verbatim>\<open>jwt_algorithm\<close> PS256, PS384 or PS512 every request is refused with 401.
\<close>

theorem pss_tokens_refused:
  assumes "jwt_contract verifies e" and "Provider p = ''jwt''" and "HasPrefix (jwtExpectedAlgorithm p) ''PS''"
  shows "\<exists>msg. auth_decide e now p r = Deny msg 401"
proof -
  have "ParseWithClaims e now ts (keyFunc p) (parserOpts p) = None" for ts
  proof (rule ccontr)
    assume "ParseWithClaims e now ts (keyFunc p) (parserOpts p) \<noteq> None"
    then obtain token key where "tk_Method token = SigningMethodRSAPSS" "keyFunc p (token\<lparr>tk_Valid := False\<rparr>) = Some key"
      using assms(1,3) unfolding jwt_contract_def by (force simp: parserOpts_def)
    then show False by (simp add: keyFunc_def split: if_splits)
  qed
  then show ?thesis using assms(2) by (simp add: auth_decide_def decide_jwt_def Let_def split: option.splits)
qed

definition pss_env :: auth_init_env where
  "pss_env = offline_env\<lparr>ReadFile := \<lambda>_. Some [], pem_Decode := Some, ParsePKIXPublicKey := \<lambda>b. Some (RSAPublicKey b)\<rparr>"

definition pss_route_config :: any_map where
  "pss_route_config = [(''provider'', AString ''jwt''), (''jwt_public_key_file'', AString ''k.pem''), (''jwt_algorithm'', AString ''PS256'')]"

definition pss_plugin :: AuthenticationPlugin where
  "pss_plugin = (auth_defaults new_AuthenticationPlugin)\<lparr>Provider := ''jwt'', jwtPublicKey := Some (RSAPublicKey []),
     jwtExpectedAlgorithm := ''PS256''\<rparr>"

lemma pss_plugin_Init: "auth_Init pss_env (Some pss_route_config) None new_AuthenticationPlugin = Ok pss_plugin"
  by (simp add: auth_Init_def pss_plugin_def applyAuthConfig_def apply_yaml_keys_def apply_mongo_def apply_public_key_def
      apply_strings_def with_string_def nonempty_string_def get_string_def pss_route_config_def check_jwt_def init_mongo_def
      HasPrefix_def ToLower_def lower_char_def pss_env_def Let_def auth_defaults_def new_AuthenticationPlugin_def)

theorem pss_tokens_refused_witness:
  "auth_Init pss_env (Some pss_route_config) None new_AuthenticationPlugin = Ok pss_plugin
    \<and> (\<exists>msg. auth_decide (example_jwt_env ''PS256'' SigningMethodRSAPSS) 0 pss_plugin
              (request_with ''Authorization'' ''Bearer tok'') = Deny msg 401)"
  using pss_plugin_Init pss_tokens_refused [OF jwt_contract_example, of "''PS256''" SigningMethodRSAPSS pss_plugin]
  by (simp add: HasPrefix_def pss_plugin_def)

end
