(* ===== verification/Middleware.thy ===== *)
theory Middleware
  imports Proxy RateLimiting Caching Authentication
begin

text \<open>
  Plugins as middleware (\<^verbatim>\<open>src/app/plugins/plugin.go\<close> and the \<^verbatim>\<open>Handle\<close> methods of the five plugins): the
  registry, \<^verbatim>\<open>GetPluginInstance\<close>, \<^verbatim>\<open>ChainPlugins\<close>, the request id and the path rewriting plugin.

  A handler is a function on the state of the process: the proxy, the plugin instances (Go objects
  behind pointers, so a heap of them), and counters that index the environment's readings (the clock,
  fresh UUIDs, the answers of the upstream, one for every call of the proxy). A handler runs as one
  step; what the locks make atomic under concurrent requests is treated with each component.
\<close>

section \<open>Instances, the process state and the environment\<close>

text \<open>\<^verbatim>\<open>regexp\<close> is a parameter; a compiled expression is represented by its source.\<close>

record PathRewritePlugin =
  pr_regex :: "string option"
  replacement :: string

datatype Plugin =
    AuthenticationP AuthenticationPlugin
  | RateLimitingP RateLimitingPlugin
  | CachingP CachingPlugin
  | RequestIDP
  | PathRewriteP PathRewritePlugin

record world =
  wProxy :: Proxy
  wPlugins :: "addr \<Rightarrow> Plugin"
  wFresh :: addr
  wClock :: nat
  wUUID :: nat
  wCalls :: nat

record plugin_env =
  pe_init :: auth_init_env
  pe_auth :: auth_env
  pe_now :: "nat \<Rightarrow> instant"
  pe_uuid :: "nat \<Rightarrow> string"
  pe_Compile :: "string \<Rightarrow> bool"
  pe_ReplaceAllString :: "string \<Rightarrow> string \<Rightarrow> string \<Rightarrow> string"
  pe_upstream :: "nat \<Rightarrow> upstream_env"

type_synonym handler = "world \<Rightarrow> writer \<Rightarrow> request \<Rightarrow> world \<times> writer"

definition time_Now :: "plugin_env \<Rightarrow> world \<Rightarrow> instant \<times> world" where
  "time_Now env w = (pe_now env (wClock w), w\<lparr>wClock := Suc (wClock w)\<rparr>)"

definition put_plugin :: "addr \<Rightarrow> Plugin \<Rightarrow> world \<Rightarrow> world" where
  "put_plugin a q w = w\<lparr>wPlugins := (wPlugins w)(a := q)\<rparr>"

section \<open>The five plugins\<close>

definition auth_Handle :: "plugin_env \<Rightarrow> AuthenticationPlugin \<Rightarrow> handler \<Rightarrow> handler" where
  "auth_Handle env p nxt w rw r =
     (let (now, w) = time_Now env w
      in case auth_decide (pe_auth env) now p r of
           Deny msg code \<Rightarrow> (w, http_Error msg code rw)
         | Allow r' \<Rightarrow> nxt w rw r')"

text \<open>\<^verbatim>\<open>int(p.window.Seconds())\<close>: the window is a positive whole number of seconds.\<close>

definition window_seconds :: "duration \<Rightarrow> int" where
  "window_seconds d = d div Second"

definition rl_Handle :: "plugin_env \<Rightarrow> addr \<Rightarrow> RateLimitingPlugin \<Rightarrow> handler \<Rightarrow> handler" where
  "rl_Handle env a p nxt w rw r =
     (case rl_clientID p r of
        Denied msg code \<Rightarrow> (w, http_Error msg code rw)
      | Client clientID \<Rightarrow>
          (let (now, w) = time_Now env w;
               (p', allowed, count) = rl_check now clientID p;
               w = put_plugin a (RateLimitingP p') w
           in if \<not> allowed
              then (w, http_Error ''Too Many Requests'' 429
                     (set_header ''Retry-After'' (Itoa (window_seconds (rl_window p)))
                       (set_header ''X-RateLimit-Remaining'' ''0''
                         (set_header ''X-RateLimit-Limit'' (Itoa (requestsPerWindow p)) rw))))
              else nxt w (set_header ''X-RateLimit-Remaining'' (Itoa (requestsPerWindow p - count))
                     (set_header ''X-RateLimit-Limit'' (Itoa (requestsPerWindow p)) rw)) r))"

text \<open>The instance behind the pointer, changed in place; the dynamic type of an instance never changes.\<close>

definition upd_cache :: "addr \<Rightarrow> (CachingPlugin \<Rightarrow> CachingPlugin) \<Rightarrow> world \<Rightarrow> world" where
  "upd_cache a f w = (case wPlugins w a of CachingP p \<Rightarrow> put_plugin a (CachingP (f p)) w | _ \<Rightarrow> w)"

definition cache_delete :: "addr \<Rightarrow> string \<Rightarrow> world \<Rightarrow> world" where
  "cache_delete a key = upd_cache a (\<lambda>p. p\<lparr>cacheStore := AList.delete key (cacheStore p)\<rparr>)"

definition cache_put :: "addr \<Rightarrow> string \<Rightarrow> cacheEntry \<Rightarrow> world \<Rightarrow> world" where
  "cache_put a key ce = upd_cache a (\<lambda>p. p\<lparr>cacheStore := AList.update key ce (cacheStore p)\<rparr>)"

definition store_recorded :: "plugin_env \<Rightarrow> addr \<Rightarrow> duration \<Rightarrow> string \<Rightarrow> writer \<Rightarrow> world \<Rightarrow> world" where
  "store_recorded env a ttl cacheKey recorder w =
     (if cacheable recorder
      then (let (now, w) = time_Now env w
            in cache_put a cacheKey (new_entry now ttl recorder) w)
      else w)"

definition caching_miss :: "plugin_env \<Rightarrow> addr \<Rightarrow> duration \<Rightarrow> string \<Rightarrow> handler \<Rightarrow> handler" where
  "caching_miss env a ttl cacheKey nxt w rw r =
     (let rw = set_header cache_status ''MISS'' rw;
          (w, recorder) = nxt w new_recorder r;
          rw = relay_recorded recorder rw
      in (store_recorded env a ttl cacheKey recorder w, rw))"

definition caching_Handle :: "plugin_env \<Rightarrow> addr \<Rightarrow> CachingPlugin \<Rightarrow> handler \<Rightarrow> handler" where
  "caching_Handle env a p nxt w rw r =
     (if Method r \<noteq> ''GET'' then nxt w rw r
      else
        let cacheKey = generateCacheKey r
        in case map_of (cacheStore p) cacheKey of
             None \<Rightarrow> caching_miss env a (cp_ttl p) cacheKey nxt w rw r
           | Some entry \<Rightarrow>
               (let (now, w) = time_Now env w
                in if \<not> isExpired now entry then (w, serve_cached entry rw)
                   else (let (now', w) = time_Now env w
                         in if isExpired now' entry then caching_miss env a (cp_ttl p) cacheKey nxt (cache_delete a cacheKey w) rw r
                            else caching_miss env a (cp_ttl p) cacheKey nxt w rw r)))"

definition requestIDHeader :: string where "requestIDHeader = ''X-Request-ID''"

text \<open>The request id plugin has no settings and nothing to initialise.\<close>

definition requestid_Init :: "any_map option \<Rightarrow> PluginsConfig option \<Rightarrow> Plugin outcome" where
  "requestid_Init pluginConfig globals = Ok RequestIDP"

definition requestid_Handle :: "plugin_env \<Rightarrow> handler \<Rightarrow> handler" where
  "requestid_Handle env nxt w rw r =
     (let requestID = hGet (Header r) requestIDHeader
      in if requestID = []
         then (let requestID = pe_uuid env (wUUID w);
                   w = w\<lparr>wUUID := Suc (wUUID w)\<rparr>;
                   r = r\<lparr>Header := hSet (Header r) requestIDHeader requestID\<rparr>
               in nxt w (set_header requestIDHeader requestID rw) r)
         else nxt w (set_header requestIDHeader requestID rw) r)"

definition new_PathRewritePlugin :: PathRewritePlugin where
  "new_PathRewritePlugin = \<lparr>pr_regex = None, replacement = []\<rparr>"

definition pathrewrite_Init :: "plugin_env \<Rightarrow> any_map option \<Rightarrow> PathRewritePlugin \<Rightarrow> PathRewritePlugin outcome" where
  "pathrewrite_Init env pluginConfig p =
     (case pluginConfig of
        None \<Rightarrow> Err ''missing configuration''
      | Some m \<Rightarrow>
          (case get_string m ''regex'' of
             None \<Rightarrow> Err ''missing or invalid regex''
           | Some regexStr \<Rightarrow>
               if regexStr = [] then Err ''missing or invalid regex''
               else if \<not> pe_Compile env regexStr then Err ''invalid regular expression''
               else (case get_string m ''replacement'' of
                       None \<Rightarrow> Err ''missing replacement''
                     | Some s \<Rightarrow> Ok (p\<lparr>pr_regex := Some regexStr, replacement := s\<rparr>))))"

definition pathrewrite_Handle :: "plugin_env \<Rightarrow> PathRewritePlugin \<Rightarrow> handler \<Rightarrow> handler" where
  "pathrewrite_Handle env p nxt w rw r =
     (let originalPath = u_Path (URL r);
          newPath = (case pr_regex p of Some re \<Rightarrow> pe_ReplaceAllString env re originalPath (replacement p) | None \<Rightarrow> originalPath)
      in nxt w rw (if newPath \<noteq> originalPath then r\<lparr>URL := (URL r)\<lparr>u_Path := newPath\<rparr>\<rparr> else r))"

section \<open>The plugin interface, registry and chains\<close>

definition Handle :: "plugin_env \<Rightarrow> addr \<Rightarrow> handler \<Rightarrow> handler" where
  "Handle env a nxt w rw r =
     (case wPlugins w a of
        AuthenticationP p \<Rightarrow> auth_Handle env p nxt w rw r
      | RateLimitingP p \<Rightarrow> rl_Handle env a p nxt w rw r
      | CachingP p \<Rightarrow> caching_Handle env a p nxt w rw r
      | RequestIDP \<Rightarrow> requestid_Handle env nxt w rw r
      | PathRewriteP p \<Rightarrow> pathrewrite_Handle env p nxt w rw r)"

definition plugin_Init :: "plugin_env \<Rightarrow> any_map option \<Rightarrow> PluginsConfig option \<Rightarrow> Plugin \<Rightarrow> Plugin outcome" where
  "plugin_Init env cfg globals q =
     (case q of
        AuthenticationP p \<Rightarrow> bind_outcome (auth_Init (pe_init env) cfg globals p) (\<lambda>p. Ok (AuthenticationP p))
      | RateLimitingP p \<Rightarrow> Ok (RateLimitingP (rl_Init cfg globals p))
      | CachingP p \<Rightarrow> Ok (CachingP (caching_Init cfg globals p))
      | RequestIDP \<Rightarrow> requestid_Init cfg globals
      | PathRewriteP p \<Rightarrow> bind_outcome (pathrewrite_Init env cfg p) (\<lambda>p. Ok (PathRewriteP p)))"

declare requestid_Init_def [simp]

text \<open>The registry maps a name to what its constructor returns; every plugin's \<^verbatim>\<open>init\<close> registers itself.\<close>

definition RegisterPlugin :: "string \<Rightarrow> Plugin \<Rightarrow> (string \<rightharpoonup> Plugin) \<Rightarrow> (string \<rightharpoonup> Plugin)" where
  "RegisterPlugin name constructor reg = reg(name \<mapsto> constructor)"

definition pluginRegistry :: "string \<rightharpoonup> Plugin" where
  "pluginRegistry =
     RegisterPlugin ''request-id'' RequestIDP
    (RegisterPlugin ''rate-limiting'' (RateLimitingP new_RateLimitingPlugin)
    (RegisterPlugin ''path-rewrite'' (PathRewriteP new_PathRewritePlugin)
    (RegisterPlugin ''caching'' (CachingP new_CachingPlugin)
    (RegisterPlugin ''authentication'' (AuthenticationP new_AuthenticationPlugin) Map.empty))))"

definition alloc_plugin :: "Plugin \<Rightarrow> world \<Rightarrow> world \<times> addr" where
  "alloc_plugin q w = (w\<lparr>wPlugins := (wPlugins w)(wFresh w := q), wFresh := Suc (wFresh w)\<rparr>, wFresh w)"

definition GetPluginInstance :: "plugin_env \<Rightarrow> PluginInstanceConfig \<Rightarrow> PluginsConfig option \<Rightarrow> world \<Rightarrow> (world \<times> addr) outcome" where
  "GetPluginInstance env instanceConfig globals w =
     (case pluginRegistry (pi_Name instanceConfig) of
        None \<Rightarrow> Err ''not registered''
      | Some constructor \<Rightarrow>
          bind_outcome (plugin_Init env (pi_Config instanceConfig) globals constructor) (\<lambda>q. Ok (alloc_plugin q w)))"

text \<open>The loop from the last plugin to the first.\<close>

definition ChainPlugins :: "plugin_env \<Rightarrow> addr list \<Rightarrow> handler \<Rightarrow> handler" where
  "ChainPlugins env plugins ultimateHandler =
     (if plugins = [] then ultimateHandler
      else fold (\<lambda>plugin currentHandler. Handle env plugin currentHandler) (rev plugins) ultimateHandler)"

text \<open>The proxy as the last handler; the environment supplies one answer for every call.\<close>

definition proxyHandler :: "plugin_env \<Rightarrow> handler" where
  "proxyHandler env w rw r =
     (let (p, rw) = Proxy_ServeHTTP (pe_upstream env (wCalls w)) (wProxy w) rw r
      in (w\<lparr>wProxy := p, wCalls := Suc (wCalls w)\<rparr>, rw))"

end
