(* ===== verification/Chain.thy ===== *)
theory Chain
  imports Middleware
begin

text \<open>
  The contract of the \<^verbatim>\<open>Plugin\<close> interface and what chains of plugins inherit from it. Locale \<^verbatim>\<open>middleware\<close>
  states what a \<^verbatim>\<open>Handle\<close> may do: answer by itself, or run the next handler once on a request that
  differs only in its path, its user and its request id, touching nothing but its own instance and the
  counters. Its lemmas lift properties of the last handler to chains; the interpretation shows that
  every plugin of the gateway keeps the contract.
\<close>

section \<open>What a plugin may change\<close>

fun plugin_ok :: "Plugin \<Rightarrow> bool" where
  "plugin_ok (RateLimitingP p) = wf_gomap (clientStore p)"
| "plugin_ok (CachingP p) = wf_gomap (cacheStore p)"
| "plugin_ok _ = True"

text \<open>Settings stay; the stores of the rate limiter and of the cache may change, and stay well-formed.\<close>

fun cell_evolves :: "Plugin \<Rightarrow> Plugin \<Rightarrow> bool" where
  "cell_evolves (RateLimitingP p) (RateLimitingP p') =
     (requestsPerWindow p' = requestsPerWindow p \<and> rl_window p' = rl_window p \<and> rl_strategy p' = rl_strategy p
      \<and> (wf_gomap (clientStore p) \<longrightarrow> wf_gomap (clientStore p')))"
| "cell_evolves (CachingP p) (CachingP p') = (cp_ttl p' = cp_ttl p \<and> (wf_gomap (cacheStore p) \<longrightarrow> wf_gomap (cacheStore p')))"
| "cell_evolves q q' = (q' = q)"

definition evolves :: "world \<Rightarrow> world \<Rightarrow> bool" where
  "evolves w w' \<longleftrightarrow> wProxy w' = wProxy w \<and> wCalls w' = wCalls w \<and> wFresh w' = wFresh w
     \<and> (\<forall>a. cell_evolves (wPlugins w a) (wPlugins w' a))"

definition same_request :: "request \<Rightarrow> request \<Rightarrow> bool" where
  "same_request r r' \<longleftrightarrow> Method r' = Method r \<and> Host r' = Host r \<and> Body r' = Body r \<and> RemoteAddr r' = RemoteAddr r
     \<and> ctxMatchedRoute r' = ctxMatchedRoute r
     \<and> (\<forall>k. CanonicalKey k \<noteq> CanonicalKey requestIDHeader \<longrightarrow> hValues (Header r') k = hValues (Header r) k)"

definition answered :: "writer \<Rightarrow> bool" where
  "answered rw \<longleftrightarrow> rwStatus rw \<noteq> None \<or> rwHijacked rw"

lemma cell_evolves_refl [simp]: "cell_evolves q q"
  by (cases q) simp_all

lemma cell_evolves_trans: "cell_evolves q q' \<Longrightarrow> cell_evolves q' q'' \<Longrightarrow> cell_evolves q q''"
  by (cases q; cases q'; cases q'') auto

lemma evolves_refl [simp]: "evolves w w"
  by (simp add: evolves_def)

lemma evolves_trans: "evolves w w' \<Longrightarrow> evolves w' w'' \<Longrightarrow> evolves w w''"
  by (auto simp: evolves_def intro: cell_evolves_trans)

lemma same_request_refl [simp]: "same_request r r"
  by (simp add: same_request_def)

lemma evolves_tick [simp]: "evolves w (w\<lparr>wClock := n\<rparr>)" "evolves w (w\<lparr>wUUID := n\<rparr>)"
  by (simp_all add: evolves_def)

lemma evolves_put: "cell_evolves (wPlugins w a) q \<Longrightarrow> evolves w (put_plugin a q w)"
  by (simp add: evolves_def put_plugin_def)

section \<open>The contract\<close>

locale middleware =
  fixes handle :: "addr \<Rightarrow> handler \<Rightarrow> handler"
  assumes pass_through:
    "(evolves w (fst (handle a nxt w rw r)) \<and> answered (snd (handle a nxt w rw r)))
     \<or> (\<exists>w1 rw1 r1. evolves w w1 \<and> same_request r r1 \<and> evolves (fst (nxt w1 rw1 r1)) (fst (handle a nxt w rw r))
          \<and> (answered (snd (nxt w1 rw1 r1)) \<longrightarrow> answered (snd (handle a nxt w rw r))))"
begin

definition chain :: "addr list \<Rightarrow> handler \<Rightarrow> handler" where
  "chain as h = foldr handle as h"

lemma chain_simps [simp]: "chain [] h = h" "chain (a # as) h = handle a (chain as h)"
  by (simp_all add: chain_def)

text \<open>An invariant of the process that every change a plugin may make keeps is kept by the whole chain.\<close>

lemma chain_keeps:
  assumes step: "\<And>w w'. I w \<Longrightarrow> evolves w w' \<Longrightarrow> I w'"
    and last: "\<And>w rw r. I w \<Longrightarrow> Q r \<Longrightarrow> I (fst (h w rw r))"
    and req: "\<And>r r'. Q r \<Longrightarrow> same_request r r' \<Longrightarrow> Q r'"
  shows "I w \<Longrightarrow> Q r \<Longrightarrow> I (fst (chain as h w rw r))"
proof (induction as arbitrary: w rw r)
  case (Cons a as)
  from pass_through [of w a "chain as h" rw r] show ?case
  proof
    assume "evolves w (fst (handle a (chain as h) w rw r)) \<and> answered (snd (handle a (chain as h) w rw r))"
    then show ?thesis using Cons.prems step by auto
  next
    assume "\<exists>w1 rw1 r1. evolves w w1 \<and> same_request r r1 \<and> evolves (fst (chain as h w1 rw1 r1)) (fst (handle a (chain as h) w rw r))
      \<and> (answered (snd (chain as h w1 rw1 r1)) \<longrightarrow> answered (snd (handle a (chain as h) w rw r)))"
    then obtain w1 rw1 r1 where n: "evolves w w1" "same_request r r1"
      "evolves (fst (chain as h w1 rw1 r1)) (fst (handle a (chain as h) w rw r))" by blast
    have "I (fst (chain as h w1 rw1 r1))" using Cons n(1,2) step req by blast
    then show ?thesis using n(3) step by auto
  qed
qed (simp add: last)

text \<open>A chain answers every request if its last handler does.\<close>

lemma chain_answers:
  assumes "\<And>w rw r. answered (snd (h w rw r))"
  shows "answered (snd (chain as h w rw r))"
proof (induction as arbitrary: w rw r)
  case (Cons a as)
  then show ?case using pass_through [of w a "chain as h" rw r] by auto
qed (simp add: assms)

text \<open>The upstream is called at most once for a request.\<close>

lemma chain_calls_once:
  assumes "\<And>w rw r. wCalls (fst (h w rw r)) \<le> Suc (wCalls w)"
  shows "wCalls (fst (chain as h w rw r)) \<le> Suc (wCalls w)"
proof (induction as arbitrary: w rw r)
  case (Cons a as)
  from pass_through [of w a "chain as h" rw r] show ?case
    using Cons.IH by (auto simp: evolves_def) (metis le_SucI order_refl)+
qed (simp add: assms)

text \<open>
  A plugin that stops a class of requests in a class of states stops them wherever it stands in the
  chain: the last handler is not reached.
\<close>

lemma chain_shield:
  assumes guard: "\<And>nxt w rw r. W w \<Longrightarrow> Q r \<Longrightarrow> wCalls (fst (handle g nxt w rw r)) = wCalls w"
    and step: "\<And>w w'. W w \<Longrightarrow> evolves w w' \<Longrightarrow> W w'"
    and req: "\<And>r r'. Q r \<Longrightarrow> same_request r r' \<Longrightarrow> Q r'"
  shows "g \<in> set as \<Longrightarrow> W w \<Longrightarrow> Q r \<Longrightarrow> wCalls (fst (chain as h w rw r)) = wCalls w"
proof (induction as arbitrary: w rw r)
  case (Cons a as)
  show ?case
  proof (cases "a = g")
    case True
    then show ?thesis using guard Cons.prems by simp
  next
    case False
    then have IH: "W w \<Longrightarrow> Q r \<Longrightarrow> wCalls (fst (chain as h w rw r)) = wCalls w" for w rw r
      using Cons.IH Cons.prems(1) by auto
    show ?thesis using pass_through [of w a "chain as h" rw r] IH step req Cons.prems
      by (auto simp: evolves_def)
  qed
qed simp

end

section \<open>Every plugin keeps the contract\<close>

definition passes :: "handler \<Rightarrow> world \<Rightarrow> writer \<Rightarrow> request \<Rightarrow> world \<times> writer \<Rightarrow> bool" where
  "passes nxt w rw r res \<longleftrightarrow> (evolves w (fst res) \<and> answered (snd res))
     \<or> (\<exists>w1 rw1 r1. evolves w w1 \<and> same_request r r1 \<and> evolves (fst (nxt w1 rw1 r1)) (fst res)
          \<and> (answered (snd (nxt w1 rw1 r1)) \<longrightarrow> answered (snd res)))"

lemma passes_answer: "evolves w w' \<Longrightarrow> answered rw' \<Longrightarrow> passes nxt w rw r (w', rw')"
  by (simp add: passes_def)

lemma passes_next: "evolves w w1 \<Longrightarrow> same_request r r1 \<Longrightarrow> passes nxt w rw r (nxt w1 rw1 r1)"
  unfolding passes_def by (metis evolves_refl)

lemma answered_http_Error [simp]: "answered (http_Error m c rw)"
  by (simp add: answered_def split: option.splits)

lemma answered_WriteHeader [simp]: "answered (WriteHeader c rw)"
  by (simp add: answered_def WriteHeader_def split: option.splits)

lemma answered_Write [simp]: "answered (Write b rw)"
  by (simp add: answered_def Write_def WriteHeader_def Let_def split: option.splits)

lemma answered_serve_cached [simp]: "answered (serve_cached ce rw)"
  by (simp add: serve_cached_def Let_def)

lemma answered_relay [simp]: "answered (relay_recorded rec rw)"
  by (simp add: relay_recorded_def Let_def)

lemma auth_allow_same: "auth_decide e now p r = Allow r' \<Longrightarrow> same_request r r' \<and> Header r' = Header r"
  by (auto simp: auth_decide_def decide_jwt_def decide_api_key_def same_request_def Let_def
      split: if_splits option.splits)

lemma passes_auth: "passes nxt w rw r (auth_Handle env p nxt w rw r)"
  by (auto simp: auth_Handle_def time_Now_def split: auth_result.splits
      intro!: passes_answer passes_next dest: auth_allow_same)

lemma passes_rl:
  assumes "wPlugins w a = RateLimitingP p"
  shows "passes nxt w rw r (rl_Handle env a p nxt w rw r)"
proof (cases "rl_clientID p r")
  case (Client c)
  let ?res = "rl_check (pe_now env (wClock w)) c p"
  have ev: "evolves w (put_plugin a (RateLimitingP (fst ?res)) (w\<lparr>wClock := Suc (wClock w)\<rparr>))"
    by (rule evolves_trans [OF evolves_tick(1) evolves_put]) (simp add: assms)
  show ?thesis using Client ev
    by (auto simp: rl_Handle_def time_Now_def case_prod_beta Let_def intro!: passes_answer passes_next)
qed (auto simp: rl_Handle_def intro!: passes_answer)

lemma evolves_upd_cache:
  "(\<And>p. cp_ttl (f p) = cp_ttl p \<and> (wf_gomap (cacheStore p) \<longrightarrow> wf_gomap (cacheStore (f p)))) \<Longrightarrow> evolves w (upd_cache a f w)"
  by (simp add: upd_cache_def evolves_put split: Plugin.splits)

lemma evolves_cache_delete: "evolves w (cache_delete a k w)"
  unfolding cache_delete_def by (rule evolves_upd_cache) simp

lemma evolves_cache_put: "evolves w (cache_put a k ce w)"
  unfolding cache_put_def by (rule evolves_upd_cache) simp

lemma evolves_store: "evolves w (store_recorded env a ttl key rec w)"
  by (auto simp: store_recorded_def time_Now_def intro: evolves_trans [OF evolves_tick(1) evolves_cache_put])

lemma passes_miss:
  assumes "evolves w w'"
  shows "passes nxt w rw r (caching_miss env a ttl key nxt w' rw r)"
proof -
  let ?n = "nxt w' new_recorder r"
  have "evolves (fst ?n) (fst (caching_miss env a ttl key nxt w' rw r))"
    "answered (snd (caching_miss env a ttl key nxt w' rw r))"
    by (simp_all add: caching_miss_def evolves_store case_prod_beta Let_def)
  then show ?thesis using assms unfolding passes_def by (metis same_request_refl)
qed

lemma passes_caching: "passes nxt w rw r (caching_Handle env a p nxt w rw r)"
proof -
  have t: "evolves w (w\<lparr>wClock := n\<rparr>)" "evolves w (cache_delete a k (w\<lparr>wClock := n\<rparr>))" for n k
    using evolves_trans [OF evolves_tick(1) evolves_cache_delete] by simp_all
  show ?thesis
    by (auto simp: caching_Handle_def time_Now_def Let_def t split: option.splits
        intro!: passes_answer passes_next passes_miss)
qed

lemma passes_requestid: "passes nxt w rw r (requestid_Handle env nxt w rw r)"
proof -
  have "same_request r (r\<lparr>Header := hSet (Header r) requestIDHeader v\<rparr>)" for v
    by (simp add: same_request_def hValues_hSet)
  then show ?thesis by (auto simp: requestid_Handle_def Let_def intro!: passes_next)
qed

lemma passes_pathrewrite: "passes nxt w rw r (pathrewrite_Handle env p nxt w rw r)"
  by (auto simp: pathrewrite_Handle_def Let_def same_request_def intro!: passes_next)

lemma passes_Handle: "passes nxt w rw r (Handle env a nxt w rw r)"
  by (auto simp: Handle_def split: Plugin.splits
      intro: passes_auth passes_rl passes_caching passes_requestid passes_pathrewrite)

interpretation gateway: middleware "Handle env" for env
  by unfold_locales (rule passes_Handle [unfolded passes_def])

lemma ChainPlugins_chain: "ChainPlugins env as h = gateway.chain env as h"
  by (cases "as = []") (simp_all add: ChainPlugins_def gateway.chain_def foldr_conv_fold)

lemma ChainPlugins_simps [simp]:
  "ChainPlugins env [] h = h" "ChainPlugins env (a # as) h = Handle env a (ChainPlugins env as h)"
  by (simp_all add: ChainPlugins_chain)

end
