(* ===== verification/CacheRuns.thy ===== *)
theory CacheRuns
  imports Chain
begin

text \<open>
  Runs of the caching plugin around an arbitrary next handler: where the responses come from, how old
  they can be, and when two requests share an entry.
\<close>

section \<open>Provenance of responses\<close>

text \<open>
  A relation \<^term>\<open>R\<close> between cache keys, times and recorded responses that holds for everything the next handler
  answers: the theorems hold for every such relation, so for the least one, \<^emph>\<open>was answered to a request with
  this key at this time\<close>.
\<close>

definition answers_in :: "(string \<Rightarrow> instant \<Rightarrow> writer \<Rightarrow> bool) \<Rightarrow> plugin_env \<Rightarrow> handler \<Rightarrow> bool" where
  "answers_in R env nxt \<longleftrightarrow> (\<forall>w r. R (generateCacheKey r) (pe_now env (wClock (fst (nxt w new_recorder r)))) (snd (nxt w new_recorder r)))"

text \<open>The next handler leaves the plugin's own instance alone, and time does not run backwards in it.\<close>

definition keeps_cell :: "addr \<Rightarrow> handler \<Rightarrow> bool" where
  "keeps_cell a nxt \<longleftrightarrow> (\<forall>w rw r. wPlugins (fst (nxt w rw r)) a = wPlugins w a \<and> wClock w \<le> wClock (fst (nxt w rw r)))"

definition cache_inv :: "(string \<Rightarrow> instant \<Rightarrow> writer \<Rightarrow> bool) \<Rightarrow> duration \<Rightarrow> addr \<Rightarrow> world \<Rightarrow> bool" where
  "cache_inv R ttl a w \<longleftrightarrow> (\<exists>p. wPlugins w a = CachingP p \<and> cp_ttl p = ttl
     \<and> (\<forall>k ce. map_of (cacheStore p) k = Some ce \<longrightarrow> (\<exists>t rec. R k t rec \<and> cacheable rec \<and> ce = new_entry t ttl rec)))"

text \<open>A response that stems from an answer in \<^term>\<open>R\<close> to the same key that is at most \<^term>\<open>ttl\<close> old.\<close>

definition genuine :: "(string \<Rightarrow> instant \<Rightarrow> writer \<Rightarrow> bool) \<Rightarrow> duration \<Rightarrow> instant \<Rightarrow> request \<Rightarrow> string \<Rightarrow> writer \<Rightarrow> bool" where
  "genuine R ttl now r before rw \<longleftrightarrow> (\<exists>t rec. R (generateCacheKey r) t rec \<and> now \<le> t + ttl
     \<and> rwStatus rw = Some (rec_code rec) \<and> rwBody rw = before @ rwBody rec)"

lemma cache_inv_cell: "wPlugins w' a = wPlugins w a \<Longrightarrow> cache_inv R ttl a w' = cache_inv R ttl a w"
  by (simp add: cache_inv_def)

lemma cache_inv_delete: "cache_inv R ttl a w \<Longrightarrow> cache_inv R ttl a (cache_delete a k w)"
  by (auto simp: cache_inv_def cache_delete_def upd_cache_def put_plugin_def lookup_delete split: if_splits)

lemma cache_inv_store:
  assumes "cache_inv R ttl a w" and "R key (pe_now env (wClock w)) rec"
  shows "cache_inv R ttl a (store_recorded env a ttl key rec w)"
  using assms by (auto simp: cache_inv_def store_recorded_def time_Now_def cache_put_def upd_cache_def put_plugin_def
      lookup_update split: if_splits) blast

lemma caching_miss_genuine:
  assumes "cache_inv R ttl a w" and "answers_in R env nxt" and "keeps_cell a nxt" and "mono (pe_now env)"
    and "0 \<le> ttl" and "rwStatus rw = None" and "now \<le> pe_now env (wClock w)"
  shows "cache_inv R ttl a (fst (caching_miss env a ttl (generateCacheKey r) nxt w rw r))
    \<and> genuine R ttl now r (rwBody rw) (snd (caching_miss env a ttl (generateCacheKey r) nxt w rw r))"
proof -
  obtain w' rec where n: "nxt w new_recorder r = (w', rec)" by fastforce
  have R: "R (generateCacheKey r) (pe_now env (wClock w')) rec"
    using assms(2) n unfolding answers_in_def by (metis fst_conv snd_conv)
  have c: "wPlugins w' a = wPlugins w a" "wClock w \<le> wClock w'"
    using assms(3) n unfolding keeps_cell_def by (metis fst_conv)+
  have "now \<le> pe_now env (wClock w') + ttl" using assms(4,5,7) c(2) monoD [OF assms(4) c(2)] by linarith
  moreover have "rwStatus (set_header cache_status ''MISS'' rw) = None" using assms(6) by simp
  ultimately have "genuine R ttl now r (rwBody rw) (relay_recorded rec (set_header cache_status ''MISS'' rw))"
    unfolding genuine_def using R relay_recorded_fields [of "set_header cache_status ''MISS'' rw" rec] by auto
  moreover have "cache_inv R ttl a (store_recorded env a ttl (generateCacheKey r) rec w')"
    using assms(1) cache_inv_cell [OF c(1)] R by (simp add: cache_inv_store)
  ultimately show ?thesis using n by (simp add: caching_miss_def)
qed

lemma caching_step_genuine:
  assumes "cache_inv R ttl a w" and "answers_in R env nxt" and "keeps_cell a nxt" and "mono (pe_now env)"
    and "0 \<le> ttl" and "rwStatus rw = None"
  shows "cache_inv R ttl a (fst (Handle env a nxt w rw r))
    \<and> (Method r = ''GET'' \<longrightarrow> genuine R ttl (pe_now env (wClock w)) r (rwBody rw) (snd (Handle env a nxt w rw r)))"
proof -
  obtain p where p: "wPlugins w a = CachingP p" "cp_ttl p = ttl" using assms(1) by (auto simp: cache_inv_def)
  let ?k = "generateCacheKey r"
  have t: "pe_now env (wClock w) \<le> pe_now env n" if "wClock w \<le> n" for n using monoD [OF assms(4) that] .
  have inv: "cache_inv R ttl a (w\<lparr>wClock := n\<rparr>)" for n using assms(1) cache_inv_cell [of "w\<lparr>wClock := n\<rparr>" a w] by simp
  have clk: "wClock (cache_delete a k w') = wClock w'" for k w'
    by (simp add: cache_delete_def upd_cache_def put_plugin_def split: Plugin.splits)
  show ?thesis
  proof (cases "Method r = ''GET''")
    case False
    have "wPlugins (fst (nxt w rw r)) a = wPlugins w a" using assms(3) by (simp add: keeps_cell_def)
    from cache_inv_cell [OF this, of R ttl] False p assms(1) show ?thesis by (simp add: Handle_def caching_Handle_def)
  next
    case get: True
    show ?thesis
    proof (cases "map_of (cacheStore p) ?k")
      case None
      then show ?thesis using get p caching_miss_genuine [OF assms(1-6) order_refl] by (simp add: Handle_def caching_Handle_def)
    next
      case (Some ce)
      show ?thesis
      proof (cases "isExpired (pe_now env (wClock w)) ce")
        case False
        obtain t rec where e: "R ?k t rec" "ce = new_entry t ttl rec"
          using assms(1) p Some unfolding cache_inv_def by (metis Plugin.inject(3))
        have "genuine R ttl (pe_now env (wClock w)) r (rwBody rw) (serve_cached ce rw)"
          unfolding genuine_def
          by (rule exI [of _ t], rule exI [of _ rec])
            (use e False serve_cached_fields [OF assms(6), of ce] in \<open>auto simp: isExpired_def new_entry_def\<close>)
        then show ?thesis using get p Some False inv by (simp add: Handle_def caching_Handle_def time_Now_def)
      next
        case True
        let ?w = "w\<lparr>wClock := Suc (Suc (wClock w))\<rparr>"
        have le: "pe_now env (wClock w) \<le> pe_now env (wClock ?w)" "pe_now env (wClock w) \<le> pe_now env (wClock (cache_delete a ?k ?w))"
          by (simp_all add: t clk)
        show ?thesis
          using True get p Some caching_miss_genuine [OF cache_inv_delete [OF inv] assms(2-6) le(2)]
            caching_miss_genuine [OF inv assms(2-6) le(1)]
          by (simp add: Handle_def caching_Handle_def time_Now_def Let_def)
      qed
    qed
  qed
qed

section \<open>Runs\<close>

text \<open>Requests one after another, each on a fresh response writer; the time each starts is recorded.\<close>

fun cache_run :: "plugin_env \<Rightarrow> addr \<Rightarrow> handler \<Rightarrow> world \<Rightarrow> request list \<Rightarrow> (instant \<times> request \<times> writer) list" where
  "cache_run env a nxt w [] = []"
| "cache_run env a nxt w (r # rs) =
     (let (w', rw) = Handle env a nxt w new_writer r in (pe_now env (wClock w), r, rw) # cache_run env a nxt w' rs)"

text \<open>
  C15. The cache never invents and never serves anything too old. Over any run of requests from an empty
  store, with a clock that does not run backwards, the status and body of every answer to a \<^verbatim>\<open>GET\<close> are those
  of a response the next handler gave to a request with the same cache key at most the configured
  time to live before.
\<close>

theorem cached_responses_genuine:
  assumes "wPlugins w a = CachingP (caching_Init c g new_CachingPlugin)" and "0 \<le> cp_ttl (caching_Init c g new_CachingPlugin)"
    and "answers_in R env nxt" and "keeps_cell a nxt" and "mono (pe_now env)"
  shows "list_all (\<lambda>(now, r, rw). Method r = ''GET'' \<longrightarrow> genuine R (cp_ttl (caching_Init c g new_CachingPlugin)) now r [] rw)
    (cache_run env a nxt w rs)"
proof -
  let ?ttl = "cp_ttl (caching_Init c g new_CachingPlugin)"
  have "cache_inv R ?ttl a w"
    using assms(1) by (simp add: cache_inv_def caching_Init_def new_CachingPlugin_def Let_def)
  then show ?thesis
  proof (induction rs arbitrary: w)
    case (Cons r rs)
    obtain w' rw where h: "Handle env a nxt w new_writer r = (w', rw)" by fastforce
    have "rwStatus new_writer = None" "rwBody new_writer = []" by (simp_all add: new_writer_def)
    with caching_step_genuine [OF Cons.prems assms(3-5,2), of new_writer r] h
    have "cache_inv R ?ttl a w'" "Method r = ''GET'' \<longrightarrow> genuine R ?ttl (pe_now env (wClock w)) r [] rw" by auto
    then show ?case using Cons.IH h by simp
  qed simp
qed

lemma cache_run_requests: "(now, r, rw) \<in> set (cache_run env a nxt w rs) \<Longrightarrow> r \<in> set rs"
  by (induction rs arbitrary: w) (auto split: prod.splits)

definition hello :: handler where
  "hello w rw r = (w, Write ''hello'' (WriteHeader 200 rw))"

definition hello_env :: "auth_env \<Rightarrow> auth_init_env \<Rightarrow> upstream_env \<Rightarrow> plugin_env" where
  "hello_env ae ie ue = \<lparr>pe_init = ie, pe_auth = ae, pe_now = int, pe_uuid = \<lambda>_. ''0'', pe_Compile = \<lambda>_. True,
     pe_ReplaceAllString = \<lambda>_ s _. s, pe_upstream = \<lambda>_. ue\<rparr>"

definition cache_world :: world where
  "cache_world = \<lparr>wProxy = example_proxy (\<lambda>_. True) example_lc,
     wPlugins = \<lambda>_. CachingP (caching_Init None None new_CachingPlugin), wFresh = 1, wClock = 0, wUUID = 0, wCalls = 0\<rparr>"

theorem cached_responses_genuine_witness:
  "list_all (\<lambda>(now, r, rw). rwBody rw = ''hello'')
     (cache_run (hello_env toy_auth_env offline_env example_env) 0 hello cache_world [example_request [], example_request []])"
proof -
  let ?env = "hello_env toy_auth_env offline_env example_env"
  define rs where "rs = [example_request [], example_request []]"
  define run where "run = cache_run ?env 0 hello cache_world rs"
  let ?R = "\<lambda>k t rec. rwBody rec = ''hello''"
  have "answers_in ?R ?env hello"
    by (simp add: answers_in_def hello_def Write_def WriteHeader_def new_recorder_def new_writer_def Let_def)
  moreover have "keeps_cell 0 hello" by (simp add: keeps_cell_def hello_def)
  moreover have "mono (pe_now ?env)" by (simp add: hello_env_def mono_def)
  moreover have "wPlugins cache_world 0 = CachingP (caching_Init None None new_CachingPlugin)" by (simp add: cache_world_def)
  moreover have "0 \<le> cp_ttl (caching_Init None None new_CachingPlugin)"
    by (simp add: caching_Init_def ttl_override_def defaultCacheTTL_def)
  ultimately have "list_all (\<lambda>(now, r, rw). Method r = ''GET'' \<longrightarrow>
      genuine ?R (cp_ttl (caching_Init None None new_CachingPlugin)) now r [] rw) run"
    unfolding run_def using cached_responses_genuine [of cache_world 0 None None ?R ?env hello] by blast
  moreover have "Method r = ''GET''" if "(now, r, rw) \<in> set run" for now r rw
    using cache_run_requests [OF that [unfolded run_def]] by (auto simp: rs_def example_request_def)
  ultimately have "list_all (\<lambda>(now, r, rw). rwBody rw = ''hello'') run" by (fastforce simp: list_all_iff genuine_def)
  then show ?thesis by (simp only: run_def rs_def)
qed

section \<open>Sharing an entry\<close>

text \<open>
  C16. Requests share an entry only if they ask for the same thing: two \<^verbatim>\<open>GET\<close> requests with the same cache key have
  the same host and the same request URI, as long as SHA-256 has no collision between their raw keys,
  no host contains a slash and the URIs start with one.
\<close>

theorem same_key_same_resource:
  assumes "generateCacheKey r = generateCacheKey r'" and "Method r = ''GET''" and "Method r' = ''GET''"
    and "inj_on sha256_hex {ToUpper (Method r) @ '':'' @ Host r @ '':'' @ RequestURI (URL r),
           ToUpper (Method r') @ '':'' @ Host r' @ '':'' @ RequestURI (URL r')}"
    and "CHR ''/'' \<notin> set (Host r)" and "CHR ''/'' \<notin> set (Host r')"
    and "HasPrefix (RequestURI (URL r)) ''/''" and "HasPrefix (RequestURI (URL r')) ''/''"
  shows "Host r = Host r' \<and> RequestURI (URL r) = RequestURI (URL r')"
proof -
  have eq: "Host r @ '':'' @ RequestURI (URL r) = Host r' @ '':'' @ RequestURI (URL r')"
    using assms(1-4) unfolding generateCacheKey_def by (auto dest: inj_onD)
  obtain u u' where u: "RequestURI (URL r) = CHR ''/'' # u" "RequestURI (URL r') = CHR ''/'' # u'"
    using assms(7,8) by (auto simp: HasPrefix_iff prefix_def)
  have split: "takeWhile (\<lambda>c. c \<noteq> CHR ''/'') (h @ '':'' @ CHR ''/'' # v) = h @ '':''" if "CHR ''/'' \<notin> set h" for h v
    using that by (simp add: takeWhile_append)
  have "Host r @ '':'' = Host r' @ '':''"
    using arg_cong [OF eq, of "takeWhile (\<lambda>c. c \<noteq> CHR ''/'')"] split [OF assms(5)] split [OF assms(6)] u by simp
  then show ?thesis using eq by simp
qed

text \<open>
  C34. A hit takes no account of who asks: while an entry is fresh, every request for the same method, host and URI is
  answered from it without asking the next handler, whatever its headers say (credentials, cookies, content
  negotiation) and whichever user an authentication plugin in front has put into its context.
\<close>

theorem hit_ignores_credentials:
  assumes "wPlugins w a = CachingP p" and "Method r = ''GET''" and "map_of (cacheStore p) (generateCacheKey r) = Some entry"
    and "\<not> isExpired (pe_now env (wClock w)) entry"
  shows "snd (Handle env a nxt w rw (r\<lparr>Header := h, ctxUser := u\<rparr>)) = serve_cached entry rw
    \<and> wCalls (fst (Handle env a nxt w rw (r\<lparr>Header := h, ctxUser := u\<rparr>))) = wCalls w"
proof -
  have "generateCacheKey (r\<lparr>Header := h, ctxUser := u\<rparr>) = generateCacheKey r" by (simp add: generateCacheKey_def)
  with assms show ?thesis by (simp add: Handle_def caching_Handle_def time_Now_def)
qed

text \<open>An entry stored for one user answers another one.\<close>

theorem hit_ignores_credentials_witness:
  "let r = request_with ''Authorization'' ''Bearer alice'';
       ce = \<lparr>ce_statusCode = 200, ce_header = [], ce_body = ''secret of alice'', expiresAt = 9\<rparr>;
       w = cache_world\<lparr>wPlugins := \<lambda>_. CachingP (new_CachingPlugin\<lparr>cacheStore := [(generateCacheKey r, ce)]\<rparr>)\<rparr>;
       bob = r\<lparr>Header := hSet [] ''Authorization'' ''Bearer bob'', ctxUser := Some \<lparr>au_ID = ''bob'', au_Claims = None\<rparr>\<rparr>
   in rwBody (snd (Handle (hello_env toy_auth_env offline_env example_env) 0 hello w new_writer bob)) = ''secret of alice''"
proof -
  let ?r = "request_with ''Authorization'' ''Bearer alice''"
  let ?ce = "\<lparr>ce_statusCode = 200, ce_header = [], ce_body = ''secret of alice'', expiresAt = 9\<rparr>"
  let ?p = "new_CachingPlugin\<lparr>cacheStore := [(generateCacheKey ?r, ?ce)]\<rparr>"
  have "rwBody (serve_cached ?ce new_writer) = ''secret of alice''"
    by (simp add: serve_cached_fields new_writer_def)
  then show ?thesis
    using hit_ignores_credentials [of "cache_world\<lparr>wPlugins := \<lambda>_. CachingP ?p\<rparr>" 0 ?p ?r ?ce
        "hello_env toy_auth_env offline_env example_env" hello new_writer]
    unfolding Let_def by (simp add: request_with_def isExpired_def hello_env_def cache_world_def)
qed

theorem same_key_same_resource_witness:
  "Host (request_with ''A'' ''1'') = Host (request_with ''B'' ''2'')
    \<and> RequestURI (URL (request_with ''A'' ''1'')) = RequestURI (URL (request_with ''B'' ''2''))"
  by (rule same_key_same_resource)
    (simp_all add: generateCacheKey_def request_with_def blank_url_def RequestURI_def EscapedPath_def HasPrefix_def
      should_escape_def is_alnum_def)

end
