(* ===== verification/Router.thy ===== *)
theory Router
  imports Chain
begin

text \<open>
  The router (\<^verbatim>\<open>src/app/router/router.go\<close>): path patterns, the loop over the routes, and the construction of
  one plugin chain per route. The lemmas give the pattern language a meaning, show that the loop is a
  first-match search, that a built chain consists of the configured instances in order, and what
  happens to a route whose chain could not be built.
\<close>

section \<open>Matching\<close>

definition matchPath :: "string \<Rightarrow> string \<Rightarrow> bool" where
  "matchPath requestPath pattern =
     (if HasSuffix pattern ''/*''
      then (let prefix = TrimSuffix pattern ''/*''
            in if requestPath = prefix \<or> HasPrefix requestPath (prefix @ ''/'') then True else requestPath = pattern)
      else if HasSuffix pattern ''*'' \<and> \<not> HasSuffix pattern ''/*''
      then (let prefix = TrimSuffix pattern ''*''
            in if HasPrefix requestPath prefix then True else requestPath = pattern)
      else requestPath = pattern)"

text \<open>Step 1 of the loop: a route without a host matches every host.\<close>

definition match_host :: "RouteConfig \<Rightarrow> string \<Rightarrow> bool" where
  "match_host route requestHost =
     (if rt_Host route \<noteq> []
      then (let hostname = (if Contains requestHost (CHR '':'') then Split requestHost (CHR '':'') ! 0 else requestHost)
            in if HasPrefix (rt_Host route) ''*.''
               then (let wildcardBase = TrimPrefix (rt_Host route) ''*.''
                     in hostname \<noteq> wildcardBase \<and> HasSuffix hostname (''.'' @ wildcardBase))
               else rt_Host route = hostname)
      else True)"

definition match_method :: "RouteConfig \<Rightarrow> string \<Rightarrow> bool" where
  "match_method route requestMethod =
     (if Methods route \<noteq> [] then list_ex (\<lambda>m. EqualFold m requestMethod) (Methods route) else True)"

definition match_paths :: "RouteConfig \<Rightarrow> string \<Rightarrow> bool" where
  "match_paths route requestPath = list_ex (matchPath requestPath) (Paths route)"

section \<open>The router\<close>

record Router =
  rt_routes :: "RouteConfig list"
  serviceMap :: "string \<rightharpoonup> ServiceConfig"
  rt_globalConfig :: GlobalConfig
  rt_pluginsConfig :: PluginsConfig
  rt_proxyHandler :: handler
  routeHandlers :: "string \<rightharpoonup> handler"

text \<open>What the loop does with the route it has found.\<close>

definition dispatch :: "Router \<Rightarrow> RouteConfig \<Rightarrow> ServiceConfig \<Rightarrow> handler" where
  "dispatch rt route serviceCfg w rw r =
     (let r = r\<lparr>ctxMatchedRoute := Some \<lparr>mi_RouteConfig = route, mi_ServiceConfig = serviceCfg\<rparr>\<rparr>
      in case routeHandlers rt (ID route) of
           None \<Rightarrow> rt_proxyHandler rt w rw r
         | Some chainedHandler \<Rightarrow> chainedHandler w rw r)"

fun serve_routes :: "Router \<Rightarrow> RouteConfig list \<Rightarrow> handler" where
  "serve_routes rt [] w rw r = (w, http_NotFound rw)"
| "serve_routes rt (route # routes) w rw r =
     (if \<not> match_host route (Host r) then serve_routes rt routes w rw r
      else if \<not> match_method route (Method r) then serve_routes rt routes w rw r
      else if \<not> match_paths route (u_Path (URL r)) then serve_routes rt routes w rw r
      else (case serviceMap rt (Service route) of
              None \<Rightarrow> serve_routes rt routes w rw r
            | Some serviceCfg \<Rightarrow> dispatch rt route serviceCfg w rw r))"

definition Router_ServeHTTP :: "Router \<Rightarrow> handler" where
  "Router_ServeHTTP rt w rw r = serve_routes rt (rt_routes rt) w rw r"

text \<open>Construction. An error skips the route; a panic in a plugin's \<^verbatim>\<open>Init\<close> ends the process.\<close>

fun get_instances :: "plugin_env \<Rightarrow> PluginsConfig \<Rightarrow> PluginInstanceConfig list \<Rightarrow> world \<Rightarrow> (world \<times> addr list) outcome" where
  "get_instances env globals [] w = Ok (w, [])"
| "get_instances env globals (ic # ics) w =
     bind_outcome (GetPluginInstance env ic (Some globals) w)
       (\<lambda>(w, a). bind_outcome (get_instances env globals ics w) (\<lambda>(w, as). Ok (w, a # as)))"

definition buildPluginChain :: "plugin_env \<Rightarrow> Router \<Rightarrow> RouteConfig \<Rightarrow> handler \<Rightarrow> world \<Rightarrow> (world \<times> handler) outcome" where
  "buildPluginChain env rt route h w =
     bind_outcome (get_instances env (rt_pluginsConfig rt) (rt_Plugins route) w)
       (\<lambda>(w, activePlugins). Ok (w, ChainPlugins env activePlugins h))"

fun build_routes :: "plugin_env \<Rightarrow> handler \<Rightarrow> RouteConfig list \<Rightarrow> world \<Rightarrow> Router \<Rightarrow> (world \<times> Router) outcome" where
  "build_routes env h [] w rt = Ok (w, rt)"
| "build_routes env h (route # routes) w rt =
     (case buildPluginChain env rt route h w of
        Err _ \<Rightarrow> build_routes env h routes w rt
      | Panic e \<Rightarrow> Panic e
      | Ok (w, chainedHandler) \<Rightarrow>
          build_routes env h routes w (rt\<lparr>routeHandlers := (routeHandlers rt)(ID route \<mapsto> chainedHandler)\<rparr>))"

definition buildRouteHandlers :: "plugin_env \<Rightarrow> handler \<Rightarrow> world \<Rightarrow> Router \<Rightarrow> (world \<times> Router) outcome" where
  "buildRouteHandlers env h w rt = build_routes env h (rt_routes rt) w rt"

definition service_map :: "ServiceConfig list \<Rightarrow> string \<rightharpoonup> ServiceConfig" where
  "service_map ss = fold (\<lambda>s m. m(svc_Name s \<mapsto> s)) ss Map.empty"

definition NewRouter :: "plugin_env \<Rightarrow> Config \<Rightarrow> handler \<Rightarrow> world \<Rightarrow> (world \<times> Router) outcome" where
  "NewRouter env cfg h w =
     buildRouteHandlers env h w
       \<lparr>rt_routes = Routes cfg, serviceMap = service_map (Services cfg), rt_globalConfig = Global cfg,
        rt_pluginsConfig = Plugins cfg, rt_proxyHandler = h, routeHandlers = Map.empty\<rparr>"

section \<open>The meaning of the patterns\<close>

text \<open>
  C27. The meaning of a path pattern: it matches itself; \<^verbatim>\<open>p/*\<close> matches \<^verbatim>\<open>p\<close> and everything below \<^verbatim>\<open>p/\<close>, so never a
  longer last segment; \<^verbatim>\<open>p*\<close> without a slash before the star matches everything that starts with \<^verbatim>\<open>p\<close>.
\<close>

theorem matchPath_meaning:
  "matchPath path pattern \<longleftrightarrow> path = pattern
     \<or> (\<exists>p. pattern = p @ ''/*'' \<and> (path = p \<or> prefix (p @ ''/'') path))
     \<or> (\<exists>p. pattern = p @ ''*'' \<and> \<not> suffix ''/'' p \<and> prefix p path)"
proof -
  have sl: "suffix ''/*'' (p @ ''*'') \<longleftrightarrow> suffix ''/'' p" for p
    by (simp add: suffix_def)
  show ?thesis
  proof (cases "HasSuffix pattern ''/*''")
    case True
    then obtain p where p: "pattern = p @ ''/*''" by (auto simp: HasSuffix_iff suffix_def)
    have "\<not> (\<exists>q. pattern = q @ ''*'' \<and> \<not> suffix ''/'' q)"
      using True sl by (auto simp: HasSuffix_iff)
    then show ?thesis using True unfolding p by (auto simp: matchPath_def TrimSuffix_append HasPrefix_iff)
  next
    case False
    then have no: "\<not> (\<exists>p. pattern = p @ ''/*'')" by (auto simp: HasSuffix_iff suffix_def)
    show ?thesis
    proof (cases "HasSuffix pattern ''*''")
      case True
      then obtain p where p: "pattern = p @ ''*''" by (auto simp: HasSuffix_iff suffix_def)
      have "\<not> suffix ''/'' p" using False sl by (simp add: p HasSuffix_iff)
      with no False show ?thesis unfolding p by (auto simp: matchPath_def TrimSuffix_append HasPrefix_iff HasSuffix_iff)
    next
      case star: False
      then have "\<not> (\<exists>p. pattern = p @ ''*'')" by (auto simp: HasSuffix_iff suffix_def)
      with no False star show ?thesis by (auto simp: matchPath_def)
    qed
  qed
qed

text \<open>The host name of a request: what comes before the first colon.\<close>

definition hostname_of :: "string \<Rightarrow> string" where
  "hostname_of host = takeWhile (\<lambda>c. c \<noteq> CHR '':'') host"

lemma hostname_split:
  "(if Contains host (CHR '':'') then Split host (CHR '':'') ! 0 else host) = hostname_of host"
proof (cases "Contains host (CHR '':'')")
  case True
  then show ?thesis by (simp add: hostname_of_def hd_Split [symmetric] hd_conv_nth)
next
  case False
  then have "takeWhile (\<lambda>c. c \<noteq> CHR '':'') host = host"
    by (simp only: takeWhile_eq_all_conv Contains_def) blast
  with False show ?thesis by (simp add: hostname_of_def del: takeWhile_eq_all_conv)
qed

text \<open>
  C28. The meaning of a route's host: an empty one matches every request; \<^verbatim>\<open>*.base\<close> matches exactly the host
  names that end in \<^verbatim>\<open>.base\<close> (the base itself is not among them); any other must equal the host name. The
  host name is the \<^verbatim>\<open>Host\<close> header up to its first colon.
\<close>

theorem match_host_meaning:
  "match_host route host \<longleftrightarrow> rt_Host route = []
     \<or> (\<exists>base sub. rt_Host route = ''*.'' @ base \<and> hostname_of host = sub @ ''.'' @ base)
     \<or> (rt_Host route = hostname_of host \<and> \<not> prefix ''*.'' (rt_Host route))"
proof (cases "rt_Host route = []")
  case ne: False
  show ?thesis
  proof (cases "HasPrefix (rt_Host route) ''*.''")
    case True
    then obtain base where b: "rt_Host route = ''*.'' @ base" by (auto simp: HasPrefix_iff prefix_def)
    have "h \<noteq> base \<and> suffix (''.'' @ base) h \<longleftrightarrow> (\<exists>sub. h = sub @ ''.'' @ base)" for h
      by (auto simp: suffix_def)
    then show ?thesis using ne True
      by (auto simp: match_host_def hostname_split Let_def b TrimPrefix_append [of "''*.''", simplified] HasSuffix_iff HasPrefix_iff)
  next
    case False
    then have "\<not> (\<exists>base. rt_Host route = ''*.'' @ base)" by (auto simp: HasPrefix_iff prefix_def)
    with ne False show ?thesis by (auto simp: match_host_def hostname_split Let_def HasPrefix_iff)
  qed
qed (simp add: match_host_def)

section \<open>First match\<close>

definition route_matches :: "request \<Rightarrow> RouteConfig \<Rightarrow> bool" where
  "route_matches r route \<longleftrightarrow> match_host route (Host r) \<and> match_method route (Method r) \<and> match_paths route (u_Path (URL r))"

definition routable :: "Router \<Rightarrow> bool" where
  "routable rt \<longleftrightarrow> (\<forall>route \<in> set (rt_routes rt). serviceMap rt (Service route) \<noteq> None)"

lemma serve_routes_find:
  assumes "\<forall>route \<in> set routes. serviceMap rt (Service route) \<noteq> None"
  shows "serve_routes rt routes w rw r =
    (case List.find (route_matches r) routes of
       None \<Rightarrow> (w, http_NotFound rw)
     | Some route \<Rightarrow> dispatch rt route (the (serviceMap rt (Service route))) w rw r)"
  using assms by (induction routes) (auto simp: route_matches_def)

lemma service_map_eq: "service_map ss = map_of (rev (map (\<lambda>s. (svc_Name s, s)) ss))"
proof -
  have "fold (\<lambda>s m. m(svc_Name s \<mapsto> s)) ss m = m ++ map_of (rev (map (\<lambda>s. (svc_Name s, s)) ss))" for m
    by (induction ss arbitrary: m) (simp_all add: map_add_upd_left map_add_upd map_add_assoc [symmetric])
  then show ?thesis by (simp add: service_map_def)
qed

lemma service_map_dom: "service_map ss k \<noteq> None \<longleftrightarrow> k \<in> svc_Name ` set ss"
  by (auto simp: service_map_eq map_of_eq_None_iff image_image)

lemma service_map_name: "service_map ss k = Some s \<Longrightarrow> svc_Name s = k \<and> s \<in> set ss"
  by (auto simp: service_map_eq dest!: map_of_SomeD)

text \<open>The router a configuration gives: everything but the chains is fixed at the start.\<close>

lemma build_routes_frame:
  "build_routes env h routes w rt = Ok (w', rt') \<Longrightarrow>
     rt_routes rt' = rt_routes rt \<and> serviceMap rt' = serviceMap rt \<and> rt_proxyHandler rt' = rt_proxyHandler rt
     \<and> rt_pluginsConfig rt' = rt_pluginsConfig rt"
proof (induction routes arbitrary: w rt)
  case (Cons route routes)
  then show ?case by (auto split: outcome.splits dest!: Cons.IH)
qed simp

lemma NewRouter_frame:
  assumes "NewRouter env cfg h w = Ok (w', rt)"
  shows "rt_routes rt = Routes cfg" "serviceMap rt = service_map (Services cfg)" "rt_proxyHandler rt = h"
    "rt_pluginsConfig rt = Plugins cfg"
  using build_routes_frame [OF assms [unfolded NewRouter_def buildRouteHandlers_def]] by simp_all

lemma valid_routable:
  assumes "valid_config cfg" and "NewRouter env cfg h w = Ok (w', rt)"
  shows "routable rt"
  unfolding routable_def NewRouter_frame [OF assms(2)] service_map_dom
  using assms(1) by (simp add: valid_config_def list_all_iff valid_route_def)

text \<open>
  C6. Routing is a first-match search. For a router built from a validated configuration, a request goes to the
  first route in configuration order whose host, method and path patterns all match, with the route
  and its service attached to the request, and to the chain built for that route; without such a
  route the client gets 404. In particular the branch for an undefined service is never taken.
\<close>

theorem routing_first_match:
  assumes "validateAndSetDefaults cfg0 = Inr cfg" and "NewRouter env cfg h w0 = Ok (w1, rt)"
  shows "Router_ServeHTTP rt w rw r =
    (case List.find (route_matches r) (Routes cfg) of
       None \<Rightarrow> (w, http_NotFound rw)
     | Some route \<Rightarrow> dispatch rt route (the (service_map (Services cfg) (Service route))) w rw r)"
  using valid_routable [OF validate_sound_aux [OF assms(1)] assms(2)]
  by (simp add: Router_ServeHTTP_def routable_def serve_routes_find NewRouter_frame [OF assms(2)] split: option.split)

section \<open>The chain of a route\<close>

text \<open>The instance a plugin configuration gives, independent of the state.\<close>

definition configured :: "plugin_env \<Rightarrow> PluginsConfig \<Rightarrow> PluginInstanceConfig \<Rightarrow> Plugin outcome" where
  "configured env g ic = (case pluginRegistry (pi_Name ic) of
     None \<Rightarrow> Err ''not registered''
   | Some q \<Rightarrow> plugin_Init env (pi_Config ic) (Some g) q)"

lemma GetPluginInstance_configured:
  "GetPluginInstance env ic (Some g) w = bind_outcome (configured env g ic) (\<lambda>q. Ok (alloc_plugin q w))"
  by (simp add: GetPluginInstance_def configured_def split: option.splits)

definition instances_at :: "plugin_env \<Rightarrow> PluginsConfig \<Rightarrow> world \<Rightarrow> PluginInstanceConfig list \<Rightarrow> addr list \<Rightarrow> bool" where
  "instances_at env g w ics as = list_all2 (\<lambda>ic a. configured env g ic = Ok (wPlugins w a) \<and> a < wFresh w) ics as"

text \<open>Allocation only adds cells.\<close>

definition grown :: "world \<Rightarrow> world \<Rightarrow> bool" where
  "grown w w' \<longleftrightarrow> wFresh w \<le> wFresh w' \<and> (\<forall>a < wFresh w. wPlugins w' a = wPlugins w a)
     \<and> wProxy w' = wProxy w \<and> wCalls w' = wCalls w"

lemma grown_refl [simp]: "grown w w"
  by (simp add: grown_def)

lemma grown_trans: "grown w w' \<Longrightarrow> grown w' w'' \<Longrightarrow> grown w w''"
  by (simp add: grown_def)

lemma instances_grown: "instances_at env g w ics as \<Longrightarrow> grown w w' \<Longrightarrow> instances_at env g w' ics as"
  unfolding instances_at_def by (erule list_all2_mono) (auto simp: grown_def)

lemma grown_alloc: "alloc_plugin q w = (w', a) \<Longrightarrow> grown w w' \<and> wPlugins w' a = q \<and> a < wFresh w'"
  by (auto simp: alloc_plugin_def grown_def)

lemma get_instances_Ok:
  "get_instances env g ics w = Ok (w', as) \<Longrightarrow> grown w w' \<and> instances_at env g w' ics as"
proof (induction ics arbitrary: w as)
  case (Cons ic ics)
  obtain q where q: "configured env g ic = Ok q"
    using Cons.prems by (auto simp: GetPluginInstance_configured bind_outcome_Ok)
  obtain w1 a where w1: "alloc_plugin q w = (w1, a)" by fastforce
  obtain as' where as': "get_instances env g ics w1 = Ok (w', as')" "as = a # as'"
    using Cons.prems q w1 by (auto simp: GetPluginInstance_configured bind_outcome_Ok)
  from Cons.IH [OF as'(1)] grown_alloc [OF w1] q as'(2) show ?case
    by (auto simp: instances_at_def grown_def)
qed (simp add: instances_at_def)

lemma get_instances_Err:
  "get_instances env g ics w = Err e \<Longrightarrow> \<exists>ic \<in> set ics. \<exists>e. configured env g ic = Err e"
proof (induction ics arbitrary: w)
  case (Cons ic ics)
  show ?case
  proof (cases "configured env g ic")
    case (Ok q)
    obtain w1 a where w1: "alloc_plugin q w = (w1, a)" by fastforce
    have "get_instances env g ics w1 = Err e"
      using Cons.prems Ok w1 by (cases "get_instances env g ics w1") (auto simp: GetPluginInstance_configured)
    then show ?thesis using Cons.IH by auto
  next
    case (Err e')
    then show ?thesis by auto
  next
    case (Panic e')
    with Cons.prems show ?thesis by (simp add: GetPluginInstance_configured)
  qed
qed simp

text \<open>What building gives for every route: its chain, or an error of one of its plugins and no chain.\<close>

definition chain_built :: "plugin_env \<Rightarrow> handler \<Rightarrow> PluginsConfig \<Rightarrow> world \<Rightarrow> Router \<Rightarrow> RouteConfig \<Rightarrow> bool" where
  "chain_built env h g w rt route \<longleftrightarrow>
     (\<exists>as. routeHandlers rt (ID route) = Some (ChainPlugins env as h) \<and> instances_at env g w (rt_Plugins route) as)"

definition chain_failed :: "plugin_env \<Rightarrow> PluginsConfig \<Rightarrow> Router \<Rightarrow> RouteConfig \<Rightarrow> bool" where
  "chain_failed env g rt route \<longleftrightarrow>
     routeHandlers rt (ID route) = None \<and> (\<exists>ic \<in> set (rt_Plugins route). \<exists>e. configured env g ic = Err e)"

lemma build_routes_handlers:
  "build_routes env h routes w rt = Ok (w', rt') \<Longrightarrow> ID route \<notin> ID ` set routes \<Longrightarrow> routeHandlers rt' (ID route) = routeHandlers rt (ID route)"
proof (induction routes arbitrary: w rt)
  case (Cons r routes)
  then show ?case by (auto split: outcome.splits dest!: Cons.IH)
qed simp

lemma buildPluginChain_Ok:
  assumes "buildPluginChain env rt route h w = Ok (w', c)"
  obtains as where "c = ChainPlugins env as h" "grown w w'" "instances_at env (rt_pluginsConfig rt) w' (rt_Plugins route) as"
  using assms get_instances_Ok by (fastforce simp: buildPluginChain_def bind_outcome_Ok)

lemma build_routes_grown: "build_routes env h routes w rt = Ok (w', rt') \<Longrightarrow> grown w w'"
proof (induction routes arbitrary: w rt)
  case (Cons r routes)
  then show ?case
    by (auto split: outcome.splits elim!: buildPluginChain_Ok dest!: Cons.IH intro: grown_trans)
qed simp

lemma build_routes_spec:
  "build_routes env h routes w rt = Ok (w', rt') \<Longrightarrow> distinct (map ID routes) \<Longrightarrow>
   (\<forall>route \<in> set routes. routeHandlers rt (ID route) = None) \<Longrightarrow> route \<in> set routes \<Longrightarrow>
   chain_built env h (rt_pluginsConfig rt) w' rt' route \<or> chain_failed env (rt_pluginsConfig rt) rt' route"
proof (induction routes arbitrary: w rt)
  case (Cons r0 routes)
  have notin: "ID r0 \<notin> ID ` set routes" using Cons.prems(2) by auto
  show ?case
  proof (cases "buildPluginChain env rt r0 h w")
    case (Ok wc)
    obtain w1 c where wc: "wc = (w1, c)" by fastforce
    obtain as where as: "c = ChainPlugins env as h" "instances_at env (rt_pluginsConfig rt) w1 (rt_Plugins r0) as"
      using buildPluginChain_Ok [of env rt r0 h w w1 c] Ok wc by auto
    let ?rt = "rt\<lparr>routeHandlers := (routeHandlers rt)(ID r0 \<mapsto> c)\<rparr>"
    have b: "build_routes env h routes w1 ?rt = Ok (w', rt')" using Cons.prems(1) Ok wc by simp
    show ?thesis
    proof (cases "route = r0")
      case True
      have "routeHandlers rt' (ID r0) = Some c" using build_routes_handlers [OF b notin] by simp
      then show ?thesis using True as instances_grown [OF as(2) build_routes_grown [OF b]]
        by (auto simp: chain_built_def)
    next
      case False
      have "\<forall>r \<in> set routes. routeHandlers ?rt (ID r) = None"
        using Cons.prems(3) notin by (auto simp: image_iff)
      then show ?thesis using Cons.IH [OF b] Cons.prems(2,4) False by simp
    qed
  next
    case (Err e)
    then have b: "build_routes env h routes w rt = Ok (w', rt')" using Cons.prems(1) by simp
    have "\<exists>ic \<in> set (rt_Plugins r0). \<exists>e. configured env (rt_pluginsConfig rt) ic = Err e"
      using Err get_instances_Err [of env "rt_pluginsConfig rt" "rt_Plugins r0" w]
      by (cases "get_instances env (rt_pluginsConfig rt) (rt_Plugins r0) w") (auto simp: buildPluginChain_def)
    then have "chain_failed env (rt_pluginsConfig rt) rt' r0"
      using build_routes_handlers [OF b notin] Cons.prems(3) by (simp add: chain_failed_def)
    then show ?thesis using Cons.IH [OF b] Cons.prems(2-4) by auto
  next
    case (Panic e)
    with Cons.prems(1) show ?thesis by simp
  qed
qed simp

lemma NewRouter_chains:
  assumes "NewRouter env cfg h w0 = Ok (w1, rt)" and "distinct (map ID (Routes cfg))" and "route \<in> set (Routes cfg)"
  shows "chain_built env h (Plugins cfg) w1 rt route \<or> chain_failed env (Plugins cfg) rt route"
  using build_routes_spec [OF assms(1) [unfolded NewRouter_def buildRouteHandlers_def, simplified], of route] assms(2,3)
  by simp

lemma valid_distinct_IDs: "validateAndSetDefaults cfg0 = Inr cfg \<Longrightarrow> distinct (map ID (Routes cfg))"
  using validate_sound_aux by (auto simp: valid_config_def)

text \<open>
  C7. The chain of a route is the configured one: after \<^verbatim>\<open>NewRouter\<close>, every route of a validated configuration
  either has a handler that runs, in configuration order, one instance per configured plugin, each as
  its \<^verbatim>\<open>Init\<close> returned it, around the proxy; or one of its plugins cannot be created and it has no handler.
\<close>

theorem chains_follow_config:
  assumes "validateAndSetDefaults cfg0 = Inr cfg" and "NewRouter env cfg h w0 = Ok (w1, rt)" and "route \<in> set (Routes cfg)"
  shows "(\<exists>as. routeHandlers rt (ID route) = Some (foldr (Handle env) as h)
      \<and> list_all2 (\<lambda>ic a. configured env (Plugins cfg) ic = Ok (wPlugins w1 a)) (rt_Plugins route) as)
    \<or> (routeHandlers rt (ID route) = None \<and> (\<exists>ic \<in> set (rt_Plugins route). \<exists>e. configured env (Plugins cfg) ic = Err e))"
  using NewRouter_chains [OF assms(2) valid_distinct_IDs [OF assms(1)] assms(3)]
  by (auto simp: chain_built_def chain_failed_def instances_at_def ChainPlugins_chain gateway.chain_def
      elim!: list_all2_mono)

text \<open>
  C33. A route whose plugins cannot all be created is not skipped, as the log message of \<^verbatim>\<open>buildRouteHandlers\<close>
  announces: requests it matches go straight to the proxy, with none of its plugins, an authentication
  plugin included.
\<close>

theorem failed_chain_serves_unprotected:
  assumes "validateAndSetDefaults cfg0 = Inr cfg" and "NewRouter env cfg h w0 = Ok (w1, rt)"
    and "List.find (route_matches r) (Routes cfg) = Some route"
    and "ic \<in> set (rt_Plugins route)" and "configured env (Plugins cfg) ic = Err e"
  shows "Router_ServeHTTP rt w rw r = h w rw (r\<lparr>ctxMatchedRoute :=
    Some \<lparr>mi_RouteConfig = route, mi_ServiceConfig = the (service_map (Services cfg) (Service route))\<rparr>\<rparr>)"
proof -
  have mem: "route \<in> set (Routes cfg)" using assms(3) by (auto simp: find_Some_iff)
  have "\<not> chain_built env h (Plugins cfg) w1 rt route"
    using assms(4,5) by (auto simp: chain_built_def instances_at_def in_set_conv_nth list_all2_conv_all_nth)
  then have "routeHandlers rt (ID route) = None"
    using NewRouter_chains [OF assms(2) valid_distinct_IDs [OF assms(1)] mem] by (auto simp: chain_failed_def)
  moreover have "Router_ServeHTTP rt w rw r = dispatch rt route (the (service_map (Services cfg) (Service route))) w rw r"
    using valid_routable [OF validate_sound_aux [OF assms(1)] assms(2)] assms(3)
    by (simp add: Router_ServeHTTP_def routable_def serve_routes_find NewRouter_frame [OF assms(2)])
  ultimately show ?thesis by (simp add: dispatch_def NewRouter_frame [OF assms(2)])
qed

section \<open>Examples\<close>

definition example_penv :: plugin_env where
  "example_penv = \<lparr>pe_init = offline_env, pe_auth = toy_auth_env, pe_now = int, pe_uuid = \<lambda>_. ''0'', pe_Compile = \<lambda>_. True,
     pe_ReplaceAllString = \<lambda>_ s _. s, pe_upstream = \<lambda>_. example_env\<rparr>"

definition example_world :: world where
  "example_world = \<lparr>wProxy = example_proxy (\<lambda>_. True) example_lc, wPlugins = \<lambda>_. RequestIDP, wFresh = 0, wClock = 0, wUUID = 0, wCalls = 0\<rparr>"

text \<open>The sample route behind an API key check, once as it should be and once with a plugin that is misconfigured.\<close>

definition api_key_instance :: PluginInstanceConfig where
  "api_key_instance = \<lparr>pi_Name = ''authentication'', pi_Config = Some [(''provider'', AString ''api-key'')]\<rparr>"

definition broken_instance :: PluginInstanceConfig where
  "broken_instance = \<lparr>pi_Name = ''path-rewrite'', pi_Config = None\<rparr>"

definition guarded_config :: "PluginInstanceConfig list \<Rightarrow> Config" where
  "guarded_config ics = sample_config\<lparr>Services := [sample_validated_service],
     Routes := [sample_route\<lparr>rt_Plugins := api_key_instance # ics\<rparr>]\<rparr>"

definition info_request :: "header \<Rightarrow> request" where
  "info_request h = \<lparr>Method = ''GET'', URL = blank_url\<lparr>u_Path := ''/service1/info''\<rparr>, Host = ''gw.example'', Header = h,
     Body = [], RemoteAddr = ''10.0.0.1:5000'', ctxMatchedRoute = None, ctxUser = None\<rparr>"

lemma guarded_validates: "validateAndSetDefaults (sample_config\<lparr>Routes := [sample_route\<lparr>rt_Plugins := api_key_instance # ics\<rparr>]\<rparr>)
    = Inr (guarded_config ics)"
  by (simp add: validate_defs sample_defs sample_validated_service_def guarded_config_def)

lemma guarded_matches: "List.find (route_matches (info_request h)) (Routes (guarded_config ics))
    = Some (sample_route\<lparr>rt_Plugins := api_key_instance # ics\<rparr>)"
  by (simp add: guarded_config_def route_matches_def match_host_def match_method_def match_paths_def matchPath_def
      sample_route_def info_request_def HasSuffix_def)

definition api_key_plugin :: AuthenticationPlugin where
  "api_key_plugin = (auth_defaults new_AuthenticationPlugin)\<lparr>Provider := ''api-key''\<rparr>"

lemma configured_api_key: "configured example_penv (Plugins (guarded_config ics)) api_key_instance = Ok (AuthenticationP api_key_plugin)"
  by (simp add: configured_def api_key_instance_def pluginRegistry_def RegisterPlugin_def plugin_Init_def auth_Init_def
      guarded_config_def sample_config_def applyAuthConfig_def apply_yaml_keys_def apply_mongo_def apply_public_key_def
      apply_strings_def with_string_def nonempty_string_def get_string_def get_list_def check_jwt_def init_mongo_def
      ToLower_def lower_char_def api_key_plugin_def auth_defaults_def new_AuthenticationPlugin_def Let_def)

lemma configured_broken: "configured example_penv g broken_instance = Err ''missing configuration''"
  by (simp add: configured_def broken_instance_def pluginRegistry_def RegisterPlugin_def plugin_Init_def pathrewrite_Init_def)

lemma guarded_routes: "Routes (guarded_config ics) = [sample_route\<lparr>rt_Plugins := api_key_instance # ics\<rparr>]"
  by (simp add: guarded_config_def)

lemma guarded_router:
  "\<exists>w1 rt. NewRouter example_penv (guarded_config []) h w = Ok (w1, rt)"
  "\<exists>w1 rt. NewRouter example_penv (guarded_config [broken_instance]) h w = Ok (w1, rt)"
  by (simp_all add: NewRouter_def buildRouteHandlers_def guarded_routes buildPluginChain_def GetPluginInstance_configured
      configured_api_key configured_broken alloc_plugin_def)

theorem routing_first_match_witness:
  "\<exists>w1 rt. NewRouter example_penv (guarded_config []) (proxyHandler example_penv) example_world = Ok (w1, rt)
    \<and> Router_ServeHTTP rt w1 new_writer (info_request []) =
        dispatch rt (sample_route\<lparr>rt_Plugins := [api_key_instance]\<rparr>)
          (the (service_map (Services (guarded_config [])) ''my-backend-service-1'')) w1 new_writer (info_request [])"
proof -
  obtain w1 rt where n: "NewRouter example_penv (guarded_config []) (proxyHandler example_penv) example_world = Ok (w1, rt)"
    using guarded_router(1) by blast
  from routing_first_match [OF guarded_validates n, of w1 new_writer "info_request []"] n show ?thesis
    by (simp add: guarded_matches sample_route_def)
qed

theorem chains_follow_config_witness:
  "\<exists>w1 rt. NewRouter example_penv (guarded_config []) (proxyHandler example_penv) example_world = Ok (w1, rt)
    \<and> (\<exists>a. routeHandlers rt ''route-for-service-1'' = Some (Handle example_penv a (proxyHandler example_penv))
        \<and> wPlugins w1 a = AuthenticationP api_key_plugin)"
proof -
  obtain w1 rt where n: "NewRouter example_penv (guarded_config []) (proxyHandler example_penv) example_world = Ok (w1, rt)"
    using guarded_router(1) by blast
  from chains_follow_config [OF guarded_validates n, of "sample_route\<lparr>rt_Plugins := [api_key_instance]\<rparr>"] n show ?thesis
    by (auto simp: guarded_routes configured_api_key list_all2_Cons1 sample_route_def)
qed

theorem failed_chain_serves_unprotected_witness:
  "\<exists>w1 rt. NewRouter example_penv (guarded_config [broken_instance]) (proxyHandler example_penv) example_world = Ok (w1, rt)
    \<and> (\<exists>info. Router_ServeHTTP rt w1 new_writer (info_request []) =
          proxyHandler example_penv w1 new_writer ((info_request [])\<lparr>ctxMatchedRoute := Some info\<rparr>))"
proof -
  obtain w1 rt where n: "NewRouter example_penv (guarded_config [broken_instance]) (proxyHandler example_penv) example_world = Ok (w1, rt)"
    using guarded_router(2) by blast
  from failed_chain_serves_unprotected [OF guarded_validates n guarded_matches _ configured_broken, of w1 new_writer "[]"] n
  show ?thesis by auto
qed

end
