(* ===== verification/Server.thy ===== *)
theory Server
  imports Router
begin

text \<open>
  The HTTP server around the router (\<^verbatim>\<open>src/app/server/server.go\<close>): its timeouts, the goroutine that loads
  the certificates and listens, and the shutdown. \<^verbatim>\<open>tls.LoadX509KeyPair\<close>, listening and
  \<^verbatim>\<open>http.Server.Shutdown\<close> are parameters.
\<close>

record http_server =
  hs_Addr :: string
  hs_Handler :: handler
  hs_ReadTimeout :: duration
  hs_WriteTimeout :: duration
  hs_IdleTimeout :: duration
  hs_ReadHeaderTimeout :: duration

record GatewayServer =
  gs_config :: Config
  gs_httpServer :: "http_server option"
  gs_Handler :: handler

text \<open>Without a main handler every request gets 404.\<close>

definition NewServer :: "Config \<Rightarrow> handler option \<Rightarrow> GatewayServer" where
  "NewServer cfg mainHandler =
     \<lparr>gs_config = cfg, gs_httpServer = None,
      gs_Handler = (case mainHandler of None \<Rightarrow> (\<lambda>w rw r. (w, http_NotFound rw)) | Some h \<Rightarrow> h)\<rparr>"

definition make_http_server :: "GatewayServer \<Rightarrow> http_server" where
  "make_http_server s =
     (let g = Global (gs_config s)
      in \<lparr>hs_Addr = '':'' @ Itoa (Port g), hs_Handler = gs_Handler s,
          hs_ReadTimeout = override_sec (ReadTimeoutSec g) (30 * Second),
          hs_WriteTimeout = override_sec (WriteTimeoutSec g) (30 * Second),
          hs_IdleTimeout = override_sec (IdleTimeoutSec g) (60 * Second),
          hs_ReadHeaderTimeout = override_sec (ReadHeaderTimeoutSec g) (15 * Second)\<rparr>)"

text \<open>The end of the serving goroutine: what it does until \<^verbatim>\<open>ListenAndServe\<close> blocks, or how it ends the process.\<close>

datatype 'cert serving =
    ListenHTTP
  | ListenHTTPS "'cert list"
  | FatalNoCertificates
  | FatalCertificate string
  | FatalListen string

fun load_certificates :: "(string \<Rightarrow> string \<Rightarrow> 'cert option) \<Rightarrow> CertificateConfig list \<Rightarrow> 'cert list \<Rightarrow> 'cert serving" where
  "load_certificates load [] certs = ListenHTTPS certs"
| "load_certificates load (c # cs) certs =
     (case load (CertFile c) (KeyFile c) of
        None \<Rightarrow> FatalCertificate (Hostname c)
      | Some cert \<Rightarrow> load_certificates load cs (certs @ [cert]))"

definition serve_goroutine :: "(string \<Rightarrow> string \<Rightarrow> 'cert option) \<Rightarrow> Config \<Rightarrow> 'cert serving" where
  "serve_goroutine load cfg =
     (if EnableHTTPS (Global cfg)
      then (case TLS cfg of
              None \<Rightarrow> FatalNoCertificates
            | Some t \<Rightarrow> if Certificates t = [] then FatalNoCertificates else load_certificates load (Certificates t) [])
      else ListenHTTP)"

definition shutdown_timeout :: "GatewayServer \<Rightarrow> duration" where
  "shutdown_timeout s = (let t = GetDefaultTimeout (Some (Global (gs_config s))) in if t \<le> 0 then 30 * Second else t)"

definition server_Shutdown :: "(duration \<Rightarrow> bool) \<Rightarrow> GatewayServer \<Rightarrow> unit outcome" where
  "server_Shutdown shutdown s =
     (case gs_httpServer s of
        None \<Rightarrow> Ok ()
      | Some _ \<Rightarrow> if shutdown (shutdown_timeout s) then Ok () else Err ''Server shutdown error'')"

text \<open>
  \<^verbatim>\<open>Start\<close>: the server is set up and the goroutine started. The parameter \<^term>\<open>listen\<close> stands for
  \<^verbatim>\<open>ListenAndServe\<close> and \<^verbatim>\<open>ListenAndServeTLS\<close>: it gives the error with which listening ends, if this is not
  \<^verbatim>\<open>ErrServerClosed\<close>. If the goroutine does not end the process, the call blocks until the signal arrives and then
  shuts the server down.
\<close>

datatype 'cert start_result = ProcessExits "'cert serving" | Stopped GatewayServer "unit outcome"

definition server_Start :: "(string \<Rightarrow> string \<Rightarrow> 'cert option) \<Rightarrow> ('cert serving \<Rightarrow> http_server \<Rightarrow> string option)
    \<Rightarrow> (duration \<Rightarrow> bool) \<Rightarrow> GatewayServer \<Rightarrow> 'cert start_result" where
  "server_Start load listen shutdown s =
     (let srv = make_http_server s;
          s = s\<lparr>gs_httpServer := Some srv\<rparr>;
          mode = serve_goroutine load (gs_config s)
      in case mode of
           FatalNoCertificates \<Rightarrow> ProcessExits mode
         | FatalCertificate h \<Rightarrow> ProcessExits mode
         | _ \<Rightarrow> (case listen mode srv of
                   Some err \<Rightarrow> ProcessExits (FatalListen err)
                 | None \<Rightarrow> Stopped s (server_Shutdown shutdown s)))"

section \<open>Facts\<close>

lemma load_certificates_spec:
  "load_certificates load cs certs =
     (case List.find (\<lambda>c. load (CertFile c) (KeyFile c) = None) cs of
        Some c \<Rightarrow> FatalCertificate (Hostname c)
      | None \<Rightarrow> ListenHTTPS (certs @ map (\<lambda>c. the (load (CertFile c) (KeyFile c))) cs))"
  by (induction cs arbitrary: certs) (auto split: option.splits)

lemma server_mode:
  assumes "validateAndSetDefaults cfg0 = Inr cfg"
  shows "serve_goroutine load cfg =
      (if \<not> EnableHTTPS (Global cfg) then ListenHTTP
       else case List.find (\<lambda>c. load (CertFile c) (KeyFile c) = None) (Certificates (the (TLS cfg))) of
              Some c \<Rightarrow> FatalCertificate (Hostname c)
            | None \<Rightarrow> ListenHTTPS (map (\<lambda>c. the (load (CertFile c) (KeyFile c))) (Certificates (the (TLS cfg)))))"
  using validate_sound_aux [OF assms]
  by (auto simp: valid_config_def valid_tls_def serve_goroutine_def load_certificates_spec split: option.splits)

text \<open>
  With a validated configuration the server comes up as configured: the goroutine never ends the process for
  want of certificates; without HTTPS it listens, with HTTPS it listens with all configured pairs in
  order unless one of them does not load, which ends the process; the shutdown timeout is always positive.
\<close>

theorem server_comes_up:
  assumes "validateAndSetDefaults cfg0 = Inr cfg"
  shows "serve_goroutine load cfg =
      (if \<not> EnableHTTPS (Global cfg) then ListenHTTP
       else case List.find (\<lambda>c. load (CertFile c) (KeyFile c) = None) (Certificates (the (TLS cfg))) of
              Some c \<Rightarrow> FatalCertificate (Hostname c)
            | None \<Rightarrow> ListenHTTPS (map (\<lambda>c. the (load (CertFile c) (KeyFile c))) (Certificates (the (TLS cfg)))))
    \<and> 0 < shutdown_timeout (NewServer cfg h)"
  by (simp add: server_mode [OF assms] shutdown_timeout_def Let_def)

theorem server_comes_up_witness:
  "serve_goroutine (\<lambda>_ _. None :: nat option) (guarded_config []) = ListenHTTP
    \<and> 0 < shutdown_timeout (NewServer (guarded_config []) None)"
  using server_comes_up [OF guarded_validates [of "[]"], of "\<lambda>_ _. None :: nat option" None]
  by (simp add: guarded_config_def sample_config_def sample_global_def)

end
