(* ===== verification/Logging.thy ===== *)
theory Logging
  imports Fmt
begin

text \<open>
  The logger (\<^verbatim>\<open>src/app/logging/logger.go\<close>): levels, the two formatters, \<^verbatim>\<open>Init\<close>, the setters, the filtering
  output function and the package-level functions. The state is the standard logger with what has been
  written to every \<^verbatim>\<open>io.Writer\<close>; the clock's rendering, \<^verbatim>\<open>json.Marshal\<close> and \<^verbatim>\<open>runtime.Caller\<close> are parameters.
  Variadic arguments arrive formatted: \<^verbatim>\<open>fmt.Sprint\<close> and \<^verbatim>\<open>fmt.Sprintf\<close> build the message before the call.
\<close>

section \<open>Levels\<close>

datatype Level = SilentLevel | ErrorLevel | WarnLevel | InfoLevel | DebugLevel

text \<open>The value of the constant; the order of levels is the order of these numbers.\<close>

fun level_num :: "Level \<Rightarrow> nat" where
  "level_num SilentLevel = 0"
| "level_num ErrorLevel = 1"
| "level_num WarnLevel = 2"
| "level_num InfoLevel = 3"
| "level_num DebugLevel = 4"

lemma level_num_inj: "level_num l = level_num m \<Longrightarrow> l = m"
  by (cases l; cases m) simp_all

instantiation Level :: linorder
begin

definition less_eq_Level :: "Level \<Rightarrow> Level \<Rightarrow> bool" where "less_eq_Level l m \<longleftrightarrow> level_num l \<le> level_num m"
definition less_Level :: "Level \<Rightarrow> Level \<Rightarrow> bool" where "less_Level l m \<longleftrightarrow> level_num l < level_num m"

instance
  by standard (auto simp: less_eq_Level_def less_Level_def dest: level_num_inj)

end

fun levelToString :: "Level \<Rightarrow> string" where
  "levelToString ErrorLevel = ''ERROR''"
| "levelToString WarnLevel = ''WARN''"
| "levelToString InfoLevel = ''INFO''"
| "levelToString DebugLevel = ''DEBUG''"
| "levelToString SilentLevel = []"

definition stringToLevel :: "string \<rightharpoonup> Level" where
  "stringToLevel = map_of [(''error'', ErrorLevel), (''warn'', WarnLevel), (''info'', InfoLevel), (''debug'', DebugLevel)]"

section \<open>Logger, formatters and environment\<close>

datatype Formatter = TextFormatter string | JSONFormatter

record Logger =
  lg_out :: nat
  lg_level :: Level
  lg_formatter :: Formatter
  lg_reportCaller :: bool
  lg_callerSkip :: int

record jsonLogEntry =
  je_Timestamp :: string
  je_Level :: string
  je_Message :: string
  je_Caller :: string
  je_Fields :: any_map

record log_state =
  std :: Logger
  sinks :: "nat \<Rightarrow> string"

record log_env =
  le_Format :: "string \<Rightarrow> instant \<Rightarrow> string"
  le_UTC :: "instant \<Rightarrow> string"
  le_Marshal :: "jsonLogEntry \<Rightarrow> string + string"
  le_Caller :: "int \<Rightarrow> (string \<times> int) option"
  le_Prefix :: "instant \<Rightarrow> string"

definition Stdout :: nat where "Stdout = 0"
definition Stderr :: nat where "Stderr = 1"
definition RFC3339 :: string where "RFC3339 = ''2006-01-02T15:04:05Z07:00''"

text \<open>The fields of an entry in the order in which the range loop meets them: Go leaves it open, the list fixes one.\<close>

fun join_fields :: "(string \<times> any) list \<Rightarrow> string" where
  "join_fields [] = []"
| "join_fields [(k, v)] = k @ '': '' @ Sprint_v v"
| "join_fields ((k, v) # fs) = k @ '': '' @ Sprint_v v @ '', '' @ join_fields fs"

definition Text_Format :: "log_env \<Rightarrow> string \<Rightarrow> Level \<Rightarrow> instant \<Rightarrow> string \<Rightarrow> any_map \<Rightarrow> string \<Rightarrow> string" where
  "Text_Format e tsFormat lvl now message flds caller =
     le_Format e (if tsFormat = [] then RFC3339 else tsFormat) now @ '' ['' @ levelToString lvl @ ''] ''
     @ (if caller \<noteq> [] then caller @ '' '' else []) @ message
     @ (if flds \<noteq> [] then '' {'' @ join_fields flds @ ''}'' else []) @ [CHR 0x0A]"

definition JSON_Format :: "log_env \<Rightarrow> Level \<Rightarrow> instant \<Rightarrow> string \<Rightarrow> any_map \<Rightarrow> string \<Rightarrow> string + string" where
  "JSON_Format e lvl now message flds caller =
     le_Marshal e \<lparr>je_Timestamp = le_UTC e now, je_Level = levelToString lvl, je_Message = message,
       je_Caller = caller, je_Fields = flds\<rparr>"

definition New :: "nat \<Rightarrow> Level \<Rightarrow> Formatter \<Rightarrow> bool \<Rightarrow> Logger" where
  "New out lvl f report = \<lparr>lg_out = out, lg_level = lvl, lg_formatter = f, lg_reportCaller = report, lg_callerSkip = 2\<rparr>"

definition initial_logging :: log_state where
  "initial_logging = \<lparr>std = New Stdout InfoLevel (TextFormatter RFC3339) False, sinks = \<lambda>_. []\<rparr>"

definition write_to :: "nat \<Rightarrow> string \<Rightarrow> log_state \<Rightarrow> log_state" where
  "write_to n b s = s\<lparr>sinks := (sinks s)(n := sinks s n @ b)\<rparr>"

section \<open>Output\<close>

text \<open>\<^verbatim>\<open>filepath.Base\<close>, on slash-separated paths.\<close>

definition filepath_Base :: "string \<Rightarrow> string" where
  "filepath_Base p =
     (if p = [] then ''.''
      else let q = rev (dropWhile (\<lambda>c. c = CHR ''/'') (rev p))
           in if q = [] then ''/'' else rev (takeWhile (\<lambda>c. c \<noteq> CHR ''/'') (rev q)))"

definition caller_of :: "log_env \<Rightarrow> Logger \<Rightarrow> string" where
  "caller_of e l =
     (if lg_reportCaller l
      then (case le_Caller e (lg_callerSkip l) of Some (file, line) \<Rightarrow> filepath_Base file @ '':'' @ Itoa line | None \<Rightarrow> [])
      else [])"

definition log_output :: "log_env \<Rightarrow> instant \<Rightarrow> Level \<Rightarrow> string \<Rightarrow> any_map \<Rightarrow> log_state \<Rightarrow> log_state" where
  "log_output e now lvl message flds s =
     (let l = std s
      in if lg_level l < lvl then s
         else (case lg_formatter l of
                 TextFormatter f \<Rightarrow> write_to (lg_out l) (Text_Format e f lvl now message flds (caller_of e l)) s
               | JSONFormatter \<Rightarrow>
                   (case JSON_Format e lvl now message flds (caller_of e l) of
                      Inl err \<Rightarrow> write_to (lg_out l) (''Error formatting log message: '' @ err @ ''. Original: ['' @
                                   levelToString lvl @ ''] '' @ message @ [CHR 0x0A]) s
                    | Inr b \<Rightarrow> write_to (lg_out l) [CHR 0x0A] (write_to (lg_out l) b s))))"

definition logf :: "log_env \<Rightarrow> instant \<Rightarrow> Level \<Rightarrow> string \<Rightarrow> log_state \<Rightarrow> log_state" where
  "logf e now lvl message s = (if lg_level (std s) < lvl then s else log_output e now lvl message [] s)"

definition logw :: "log_env \<Rightarrow> instant \<Rightarrow> Level \<Rightarrow> string \<Rightarrow> any_map \<Rightarrow> log_state \<Rightarrow> log_state" where
  "logw e now lvl message flds s = (if lg_level (std s) < lvl then s else log_output e now lvl message flds s)"

text \<open>\<^verbatim>\<open>log.Printf\<close> of the standard library, which writes to standard error.\<close>

definition log_Printf :: "log_env \<Rightarrow> instant \<Rightarrow> string \<Rightarrow> log_state \<Rightarrow> log_state" where
  "log_Printf e now msg = write_to Stderr (le_Prefix e now @ msg @ [CHR 0x0A])"

section \<open>Initialisation and setters\<close>

definition upd_std :: "(Logger \<Rightarrow> Logger) \<Rightarrow> log_state \<Rightarrow> log_state" where
  "upd_std f s = s\<lparr>std := f (std s)\<rparr>"

definition SetOutput :: "nat \<Rightarrow> log_state \<Rightarrow> log_state" where "SetOutput w = upd_std (\<lambda>l. l\<lparr>lg_out := w\<rparr>)"
definition SetLevel :: "Level \<Rightarrow> log_state \<Rightarrow> log_state" where "SetLevel lvl = upd_std (\<lambda>l. l\<lparr>lg_level := lvl\<rparr>)"
definition SetFormatter :: "Formatter \<Rightarrow> log_state \<Rightarrow> log_state" where "SetFormatter f = upd_std (\<lambda>l. l\<lparr>lg_formatter := f\<rparr>)"
definition SetReportCaller :: "bool \<Rightarrow> log_state \<Rightarrow> log_state" where "SetReportCaller b = upd_std (\<lambda>l. l\<lparr>lg_reportCaller := b\<rparr>)"

definition init_level :: "log_env \<Rightarrow> instant \<Rightarrow> string \<Rightarrow> log_state \<Rightarrow> log_state" where
  "init_level e now lvlStr s =
     (if lvlStr \<noteq> []
      then (case stringToLevel (ToLower lvlStr) of
              Some parsedLevel \<Rightarrow> SetLevel parsedLevel s
            | None \<Rightarrow> SetLevel InfoLevel (log_Printf e now (''logging: Invalid log level '' @ [CHR 0x27] @ lvlStr @ [CHR 0x27] @
                        '' in config, defaulting to '' @ [CHR 0x27] @ ''info'' @ [CHR 0x27]) s))
      else SetLevel InfoLevel s)"

definition init_format :: "log_env \<Rightarrow> instant \<Rightarrow> any_map option \<Rightarrow> log_state \<Rightarrow> log_state" where
  "init_format e now cfg s =
     (let formatStr = (case cfg of
                         None \<Rightarrow> ''text''
                       | Some m \<Rightarrow> (case get_string m ''format'' of Some f \<Rightarrow> ToLower f | None \<Rightarrow> ''text''))
      in if formatStr = ''json'' then SetFormatter JSONFormatter s
         else if formatStr = ''text'' then SetFormatter (TextFormatter RFC3339) s
         else SetFormatter (TextFormatter RFC3339) (log_Printf e now (''logging: Invalid log format '' @ [CHR 0x27] @ formatStr @ [CHR 0x27] @
                '' in config, defaulting to '' @ [CHR 0x27] @ ''text'' @ [CHR 0x27]) s))"

definition logging_Init :: "log_env \<Rightarrow> instant \<Rightarrow> GlobalConfig \<Rightarrow> any_map option \<Rightarrow> log_state \<Rightarrow> log_state" where
  "logging_Init e now g cfg s =
     (let s = SetOutput Stdout s;
          s = init_level e now (LogLevel g) s;
          s = init_format e now cfg s
      in log_output e now InfoLevel ''Logger initialized'' [] s)"

section \<open>Package-level functions\<close>

text \<open>How a call ends: it returns, exits the process with a code, or panics.\<close>

datatype log_end = Returns | Exits int | Panics string

definition Debug where "Debug e now msg = log_output e now DebugLevel msg []"
definition Debugf where "Debugf e now msg = logf e now DebugLevel msg"
definition Debugw where "Debugw e now msg flds = logw e now DebugLevel msg flds"
definition Info where "Info e now msg = log_output e now InfoLevel msg []"
definition Infof where "Infof e now msg = logf e now InfoLevel msg"
definition Infow where "Infow e now msg flds = logw e now InfoLevel msg flds"
definition Warn where "Warn e now msg = log_output e now WarnLevel msg []"
definition Warnf where "Warnf e now msg = logf e now WarnLevel msg"
definition Warnw where "Warnw e now msg flds = logw e now WarnLevel msg flds"
definition Error where "Error e now msg = log_output e now ErrorLevel msg []"
definition Errorf where "Errorf e now msg = logf e now ErrorLevel msg"
definition Errorw where "Errorw e now msg flds = logw e now ErrorLevel msg flds"

definition Fatal where "Fatal e now msg s = (log_output e now ErrorLevel msg [] s, Exits 1)"
definition Fatalf where "Fatalf e now msg s = (logf e now ErrorLevel msg s, Exits 1)"
definition Fatalw where "Fatalw e now msg flds s = (logw e now ErrorLevel msg flds s, Exits 1)"
definition log_Panic where "log_Panic e now msg s = (log_output e now ErrorLevel msg [] s, Panics msg)"
definition Panicf where "Panicf e now msg s = (logf e now ErrorLevel msg s, Panics msg)"
definition Panicw where "Panicw e now msg flds s =
  (logw e now ErrorLevel msg flds s, Panics (msg @ '' '' @ Sprint_v (AMap flds)))"

definition GetLogger where "GetLogger s = std s"

section \<open>Filtering\<close>

lemma write_to_std [simp]: "std (write_to n b s) = std s"
  by (simp add: write_to_def)

lemma write_to_id: "write_to n b s = s \<longleftrightarrow> b = []"
  by (cases s) (auto simp: write_to_def fun_eq_iff)

lemma log_output_std [simp]: "std (log_output e now lvl m f s) = std s"
  by (simp add: log_output_def Let_def split: Formatter.splits sum.splits)

lemma log_output_id_iff: "log_output e now lvl m f s = s \<longleftrightarrow> lg_level (std s) < lvl"
proof (cases "lg_level (std s) < lvl")
  case False
  have two: "write_to n [CHR 0x0A] (write_to n b s) \<noteq> s" for n b
    by (cases s) (auto simp: write_to_def fun_eq_iff)
  show ?thesis using False two by (simp add: log_output_def Let_def write_to_id Text_Format_def split: Formatter.splits sum.splits)
qed (simp add: log_output_def Let_def)

lemma logw_eq: "logw e now lvl m f s = log_output e now lvl m f s"
  by (simp add: logw_def log_output_def Let_def)

lemma logf_eq: "logf e now lvl m s = log_output e now lvl m [] s"
  by (simp add: logf_def log_output_def Let_def)

lemma level_after_Init:
  "lg_level (std (logging_Init e now g cfg s)) =
     (case stringToLevel (ToLower (LogLevel g)) of Some l \<Rightarrow> l | None \<Rightarrow> InfoLevel)"
proof -
  have "stringToLevel [] = None" by (simp add: stringToLevel_def)
  then show ?thesis
    by (simp add: logging_Init_def init_level_def init_format_def SetLevel_def SetFormatter_def SetOutput_def upd_std_def
        log_Printf_def ToLower_def Let_def split: option.splits)
qed

text \<open>The level each name of a configuration stands for, and the level of all other names.\<close>

lemma level_of_name:
  "ToLower (LogLevel g) = ''error'' \<Longrightarrow> lg_level (std (logging_Init e now g cfg s)) = ErrorLevel"
  "ToLower (LogLevel g) = ''warn'' \<Longrightarrow> lg_level (std (logging_Init e now g cfg s)) = WarnLevel"
  "ToLower (LogLevel g) = ''debug'' \<Longrightarrow> lg_level (std (logging_Init e now g cfg s)) = DebugLevel"
  "ToLower (LogLevel g) \<notin> {''error'', ''warn'', ''debug''} \<Longrightarrow> lg_level (std (logging_Init e now g cfg s)) = InfoLevel"
  by (simp_all add: level_after_Init stringToLevel_def)

text \<open>
  C32. The configured name decides which calls write. After \<^verbatim>\<open>Init\<close> with a name (in any case of letters): \<^verbatim>\<open>debug\<close> calls
  write exactly under \<^verbatim>\<open>debug\<close>; \<^verbatim>\<open>info\<close> calls write unless the name is \<^verbatim>\<open>warn\<close> or \<^verbatim>\<open>error\<close>; \<^verbatim>\<open>warn\<close> calls write unless
  it is \<^verbatim>\<open>error\<close>; error calls always write. Every other name counts as \<^verbatim>\<open>info\<close>, also \<^verbatim>\<open>fatal\<close>, which the documentation lists:
  it does not silence anything \<^verbatim>\<open>info\<close> writes. The plain, formatting and field variants agree.
\<close>

theorem log_threshold:
  fixes g e t cfg s0
  defines "s \<equiv> logging_Init e t g cfg s0" and "name \<equiv> ToLower (LogLevel g)"
  shows "(Debug e now m s \<noteq> s \<longleftrightarrow> name = ''debug'') \<and> (Info e now m s \<noteq> s \<longleftrightarrow> name \<noteq> ''warn'' \<and> name \<noteq> ''error'')
    \<and> (Warn e now m s \<noteq> s \<longleftrightarrow> name \<noteq> ''error'') \<and> Error e now m s \<noteq> s
    \<and> Debugf e now m s = Debug e now m s \<and> Infof e now m s = Info e now m s
    \<and> Warnf e now m s = Warn e now m s \<and> Errorf e now m s = Error e now m s
    \<and> (Debugw e now m f s \<noteq> s \<longleftrightarrow> name = ''debug'') \<and> (Infow e now m f s \<noteq> s \<longleftrightarrow> name \<noteq> ''warn'' \<and> name \<noteq> ''error'')
    \<and> (Warnw e now m f s \<noteq> s \<longleftrightarrow> name \<noteq> ''error'') \<and> Errorw e now m f s \<noteq> s"
proof -
  have "name = ''error'' \<and> lg_level (std s) = ErrorLevel \<or> name = ''warn'' \<and> lg_level (std s) = WarnLevel
      \<or> name = ''debug'' \<and> lg_level (std s) = DebugLevel
      \<or> name \<notin> {''error'', ''warn'', ''debug''} \<and> lg_level (std s) = InfoLevel"
    unfolding s_def name_def using level_of_name by blast
  then show ?thesis
    by (elim disjE conjE) (simp_all add: Debug_def Info_def Warn_def Error_def Debugf_def Infof_def Warnf_def Errorf_def Debugw_def Infow_def
        Warnw_def Errorw_def logf_eq logw_eq log_output_id_iff less_Level_def)
qed

end
