(* ===== verification/Gateway.thy ===== *)
theory Gateway
  imports HealthChecker ProxyInit CacheRuns Server Logging
begin

text \<open>
  The process as a whole (\<^verbatim>\<open>src/app/main.go\<close>): the \<^verbatim>\<open>keygen\<close> subcommand, the order in which the parts are built,
  and the running gateway as a step relation in which requests, health checks, the cleanups of the
  plugins, the refresh of API keys and the shutdown interleave.
\<close>

section \<open>Start-up\<close>

record boot_env =
  be_ReadFile :: "string \<Rightarrow> string option"
  be_Unmarshal :: "string \<Rightarrow> Config option"
  be_parse :: "string \<Rightarrow> url option"
  be_urlString :: "url \<Rightarrow> string"
  be_generate :: "string \<Rightarrow> string option"
  be_log :: log_env
  be_time :: instant
  be_plugins :: plugin_env

text \<open>The logger is as \<^verbatim>\<open>Init\<close> leaves it; what the running gateway writes to it is not tracked.\<close>

record gateway =
  gw_config :: Config
  gw_log :: log_state
  gw_world :: world
  gw_hc :: HealthChecker
  gw_router :: Router
  gw_server :: GatewayServer

datatype main_result =
    KeygenUsage
  | KeygenFailed keygen_error
  | KeygenPrinted string string string
  | FatalConfig load_error
  | FatalProxy proxy_error
  | Crash string
  | Running gateway

definition main_keygen :: "boot_env \<Rightarrow> string list \<Rightarrow> main_result" where
  "main_keygen be args =
     (if length args \<noteq> 3 then KeygenUsage
      else (case GenerateAPIKeyHashes (be_generate be) (args ! 2) of
              Inl e \<Rightarrow> KeygenFailed e
            | Inr (lookupKey, bcryptHash) \<Rightarrow> KeygenPrinted (args ! 2) lookupKey bcryptHash))"

definition initial_world :: "Proxy \<Rightarrow> world" where
  "initial_world p = \<lparr>wProxy = p, wPlugins = \<lambda>_. RequestIDP, wFresh = 0, wClock = 0, wUUID = 0, wCalls = 0\<rparr>"

definition main_serve :: "boot_env \<Rightarrow> string \<Rightarrow> target_store \<Rightarrow> main_result" where
  "main_serve be configPath st =
     (case LoadConfig (be_ReadFile be) (be_Unmarshal be) configPath of
        Inl e \<Rightarrow> FatalConfig e
      | Inr cfg \<Rightarrow>
          (let lg = logging_Init (be_log be) (be_time be) (Global cfg) (pc_Logging (Plugins cfg)) initial_logging
           in case NewProxy (be_parse be) cfg st of
             Inl e \<Rightarrow> FatalProxy e
           | Inr p \<Rightarrow>
               (let (hc, p) = hc_Start (be_urlString be) (NewHealthChecker cfg, p);
                    env = be_plugins be
                in case NewRouter env cfg (proxyHandler env) (initial_world p) of
                     Panic e \<Rightarrow> Crash e
                   | Err e \<Rightarrow> Crash e
                   | Ok (w, rt) \<Rightarrow>
                       Running \<lparr>gw_config = cfg, gw_log = lg, gw_world = w, gw_hc = hc, gw_router = rt,
                         gw_server = NewServer cfg (Some (Router_ServeHTTP rt))\<rparr>)))"

text \<open>The arguments are those of the process; \<^verbatim>\<open>configPath\<close> is what the \<^verbatim>\<open>-config\<close> flag parses to.\<close>

definition main :: "boot_env \<Rightarrow> string list \<Rightarrow> string \<Rightarrow> target_store \<Rightarrow> main_result" where
  "main be args configPath st =
     (if length args > 1 \<and> args ! 1 = ''keygen'' then main_keygen be args else main_serve be configPath st)"

text \<open>
  The rest of \<^verbatim>\<open>main\<close>: the server runs until the signal, then the health checker, in the state it has reached by
  then, is told to stop. An error of the server is only logged. That the wait of \<^verbatim>\<open>hc.Stop\<close> for the monitors ends is
  the subject of theory \<^verbatim>\<open>Shutdown\<close>, where locks and running probes are modelled.
\<close>

datatype 'cert main_exit = ExitsWithError "'cert serving" | AwaitsMonitors HealthChecker

definition main_end :: "(string \<Rightarrow> string \<Rightarrow> 'cert option) \<Rightarrow> ('cert serving \<Rightarrow> http_server \<Rightarrow> string option)
    \<Rightarrow> (duration \<Rightarrow> bool) \<Rightarrow> gateway \<Rightarrow> HealthChecker \<Rightarrow> 'cert main_exit" where
  "main_end load listen shutdown gw hc =
     (case server_Start load listen shutdown (gw_server gw) of
        ProcessExits why \<Rightarrow> ExitsWithError why
      | Stopped s result \<Rightarrow> AwaitsMonitors (hc\<lparr>hc_stopped := True\<rparr>))"

section \<open>The running gateway\<close>

text \<open>
  A state is the health checker and the process state. A refresh or a cleanup replaces the instance it
  belongs to; a refresh that panics ends the process and has no successor state.
\<close>

inductive gw_step :: "(url \<Rightarrow> string) \<Rightarrow> plugin_env \<Rightarrow> Router \<Rightarrow> HealthChecker \<times> world \<Rightarrow> HealthChecker \<times> world \<Rightarrow> bool"
  for us env rt where
  request: "gw_step us env rt (hc, w) (hc, fst (Router_ServeHTTP rt w new_writer r))"
| check: "i \<in> set (hc_running hc) \<Longrightarrow> pe_string e = us \<Longrightarrow> monitor_check e i (hc, wProxy w) = (hc', p')
    \<Longrightarrow> gw_step us env rt (hc, w) (hc', w\<lparr>wProxy := p'\<rparr>)"
| limiter_cleanup: "wPlugins w a = RateLimitingP p \<Longrightarrow> time_Now env w = (now, w')
    \<Longrightarrow> gw_step us env rt (hc, w) (hc, put_plugin a (RateLimitingP (rl_cleanup now p)) w')"
| cache_cleanup: "wPlugins w a = CachingP p
    \<Longrightarrow> gw_step us env rt (hc, w) (hc, put_plugin a (CachingP (cleanupExpiredEntries (pe_now env) (wClock w) p))
          (w\<lparr>wClock := wClock w + length (cacheStore p)\<rparr>))"
| key_refresh: "wPlugins w a = AuthenticationP p \<Longrightarrow> apiKeyRefreshTicker p \<Longrightarrow> refresh_tick ie p = Ok p'
    \<Longrightarrow> gw_step us env rt (hc, w) (hc, put_plugin a (AuthenticationP p') w)"
| stop: "\<not> hc_stopped hc \<Longrightarrow> gw_step us env rt (hc, w) (hc\<lparr>hc_stopped := True\<rparr>, w)"
| monitor_exit: "hc_stopped hc \<Longrightarrow> i \<in> set (hc_running hc)
    \<Longrightarrow> gw_step us env rt (hc, w) (hc\<lparr>hc_running := remove1 i (hc_running hc)\<rparr>, w)"

inductive gw_steps :: "(url \<Rightarrow> string) \<Rightarrow> plugin_env \<Rightarrow> Router \<Rightarrow> HealthChecker \<times> world \<Rightarrow> HealthChecker \<times> world \<Rightarrow> bool"
  for us env rt where
  refl: "gw_steps us env rt st st"
| step: "gw_steps us env rt st st1 \<Longrightarrow> gw_step us env rt st1 st2 \<Longrightarrow> gw_steps us env rt st st2"

section \<open>The router as a chain\<close>

definition router_ok :: "plugin_env \<Rightarrow> Router \<Rightarrow> bool" where
  "router_ok env rt \<longleftrightarrow> rt_proxyHandler rt = proxyHandler env
     \<and> (\<forall>id h. routeHandlers rt id = Some h \<longrightarrow> (\<exists>as. h = ChainPlugins env as (proxyHandler env)))"

lemma build_routes_ok:
  "build_routes env (proxyHandler env) routes w rt = Ok (w', rt') \<Longrightarrow> router_ok env rt \<Longrightarrow> router_ok env rt'"
proof (induction routes arbitrary: w rt)
  case (Cons route routes)
  show ?case
  proof (cases "buildPluginChain env rt route (proxyHandler env) w")
    case (Ok wc)
    obtain w1 c where wc: "wc = (w1, c)" by fastforce
    obtain as where "c = ChainPlugins env as (proxyHandler env)"
      using buildPluginChain_Ok [of env rt route "proxyHandler env" w w1 c] Ok wc by auto
    then have "router_ok env (rt\<lparr>routeHandlers := (routeHandlers rt)(ID route \<mapsto> c)\<rparr>)"
      using Cons.prems(2) by (auto simp: router_ok_def)
    then show ?thesis using Cons Ok wc by simp
  qed (use Cons in auto)
qed simp

lemma NewRouter_ok: "NewRouter env cfg (proxyHandler env) w = Ok (w', rt) \<Longrightarrow> router_ok env rt"
  unfolding NewRouter_def buildRouteHandlers_def by (erule build_routes_ok) (simp add: router_ok_def)

text \<open>Whatever the routes are, a request gets 404 or runs through one chain around the proxy.\<close>

lemma serve_routes_cases:
  assumes "router_ok env rt"
  shows "serve_routes rt routes w rw r = (w, http_NotFound rw)
    \<or> (\<exists>as info. serve_routes rt routes w rw r = ChainPlugins env as (proxyHandler env) w rw (r\<lparr>ctxMatchedRoute := info\<rparr>))"
proof (induction routes)
  case (Cons route routes)
  have "\<exists>as info. dispatch rt route s w rw r = ChainPlugins env as (proxyHandler env) w rw (r\<lparr>ctxMatchedRoute := info\<rparr>)" for s
  proof (cases "routeHandlers rt (ID route)")
    case None
    then have "dispatch rt route s w rw r = ChainPlugins env [] (proxyHandler env) w rw
        (r\<lparr>ctxMatchedRoute := Some \<lparr>mi_RouteConfig = route, mi_ServiceConfig = s\<rparr>\<rparr>)"
      using assms by (simp add: dispatch_def router_ok_def)
    then show ?thesis by blast
  next
    case (Some h)
    then obtain as where "h = ChainPlugins env as (proxyHandler env)" using assms unfolding router_ok_def by blast
    then show ?thesis using Some by (auto simp: dispatch_def Let_def)
  qed
  with Cons.IH show ?case by (auto split: option.splits)
qed simp

lemma Router_cases:
  assumes "router_ok env rt"
  obtains "Router_ServeHTTP rt w rw r = (w, http_NotFound rw)"
  | as info where "Router_ServeHTTP rt w rw r = ChainPlugins env as (proxyHandler env) w rw (r\<lparr>ctxMatchedRoute := info\<rparr>)"
  using serve_routes_cases [OF assms, of "rt_routes rt" w rw r] unfolding Router_ServeHTTP_def by blast

text \<open>An invariant that plugins and the proxy keep is kept by serving a request.\<close>

lemma Router_keeps:
  assumes "router_ok env rt" and "I w" and "\<And>w w'. I w \<Longrightarrow> evolves w w' \<Longrightarrow> I w'"
    and "\<And>w rw r. I w \<Longrightarrow> I (fst (proxyHandler env w rw r))"
  shows "I (fst (Router_ServeHTTP rt w rw r))"
proof (rule Router_cases [OF assms(1), of w rw r])
  fix as info
  assume eq: "Router_ServeHTTP rt w rw r = ChainPlugins env as (proxyHandler env) w rw (r\<lparr>ctxMatchedRoute := info\<rparr>)"
  show ?thesis unfolding eq ChainPlugins_chain
    by (rule gateway.chain_keeps [where Q = "\<lambda>_. True"]) (use assms in auto)
qed (simp add: assms(2))

lemma main_Running:
  assumes "main be args path st = Running gw"
  obtains cfg0 p where "validateAndSetDefaults cfg0 = Inr (gw_config gw)" "NewProxy (be_parse be) (gw_config gw) st = Inr p"
    "hc_Start (be_urlString be) (NewHealthChecker (gw_config gw), p) = (gw_hc gw, wProxy (gw_world gw))"
    "NewRouter (be_plugins be) (gw_config gw) (proxyHandler (be_plugins be)) (initial_world (wProxy (gw_world gw)))
       = Ok (gw_world gw, gw_router gw)"
    "router_ok (be_plugins be) (gw_router gw)"
proof -
  obtain cfg0 cfg p hc p1 w rt where parts: "validateAndSetDefaults cfg0 = Inr cfg" "NewProxy (be_parse be) cfg st = Inr p"
    "hc_Start (be_urlString be) (NewHealthChecker cfg, p) = (hc, p1)"
    "NewRouter (be_plugins be) cfg (proxyHandler (be_plugins be)) (initial_world p1) = Ok (w, rt)"
    "gw = \<lparr>gw_config = cfg, gw_log = logging_Init (be_log be) (be_time be) (Global cfg) (pc_Logging (Plugins cfg)) initial_logging,
       gw_world = w, gw_hc = hc, gw_router = rt, gw_server = NewServer cfg (Some (Router_ServeHTTP rt))\<rparr>"
    using assms by (auto simp: main_def main_keygen_def main_serve_def LoadConfig_def Let_def
        split: if_splits sum.splits prod.splits outcome.splits option.splits)
  have "wProxy w = p1"
    using build_routes_grown [OF parts(4) [unfolded NewRouter_def buildRouteHandlers_def]]
    by (simp add: grown_def initial_world_def)
  with parts NewRouter_ok [OF parts(4)] show ?thesis by (intro that [of cfg0 p]) simp_all
qed

section \<open>Every request is answered, with at most one upstream call\<close>

text \<open>
  The takeover of a connection after a 101 response leaves it hijacked, or reports an error through the
  writer; this is what \<^verbatim>\<open>handleUpgradeResponse\<close> of the standard library does.
\<close>

definition switch_answers :: "plugin_env \<Rightarrow> bool" where
  "switch_answers env \<longleftrightarrow> (\<forall>n q res rw. answered (ue_Switch (pe_upstream env n) q res rw))"

lemma answered_upstream_error [simp]: "answered (upstream_error n rw)"
  by (simp add: upstream_error_def)

lemma answered_copy_response [simp]: "answered (copy_response res rw)"
  by (simp add: copy_response_def Let_def)

lemma proxyHandler_answers: "switch_answers env \<Longrightarrow> answered (snd (proxyHandler env w rw r))"
  by (auto simp: proxyHandler_def Proxy_ServeHTTP_def ReverseProxy_ServeHTTP_def switch_answers_def Let_def
      split: option.splits sum.splits prod.splits)

lemma proxyHandler_calls [simp]: "wCalls (fst (proxyHandler env w rw r)) = Suc (wCalls w)"
  by (simp add: proxyHandler_def case_prod_beta)

text \<open>
  C5. Every request gets an answer and causes at most one request to an upstream: for the router of a running
  gateway, whatever the routes, the plugins and the state are, serving a request leaves a status
  written (or the connection taken over), and calls the proxy at most once.
\<close>

theorem every_request_answered_once:
  assumes "main be args path st = Running gw" and "switch_answers (be_plugins be)"
  shows "answered (snd (Router_ServeHTTP (gw_router gw) w rw r))
    \<and> wCalls w \<le> wCalls (fst (Router_ServeHTTP (gw_router gw) w rw r))
    \<and> wCalls (fst (Router_ServeHTTP (gw_router gw) w rw r)) \<le> Suc (wCalls w)"
proof -
  let ?env = "be_plugins be" and ?rt = "gw_router gw"
  have ok: "router_ok ?env ?rt" using assms(1) by (rule main_Running)
  have le: "wCalls w \<le> wCalls (fst (Router_ServeHTTP ?rt w rw r))"
    by (rule Router_keeps [OF ok]) (auto simp: evolves_def)
  show ?thesis
  proof (rule Router_cases [OF ok, of w rw r])
    assume "Router_ServeHTTP ?rt w rw r = (w, http_NotFound rw)"
    then show ?thesis by (simp add: http_NotFound_def)
  next
    fix as info
    assume eq: "Router_ServeHTTP ?rt w rw r = ChainPlugins ?env as (proxyHandler ?env) w rw (r\<lparr>ctxMatchedRoute := info\<rparr>)"
    show ?thesis using le unfolding eq ChainPlugins_chain
      by (simp add: gateway.chain_answers gateway.chain_calls_once proxyHandler_answers [OF assms(2)])
  qed
qed

section \<open>The gateway refines the health checker's view\<close>

lemma gw_step_simulated:
  "gw_step us env rt st st' \<Longrightarrow> router_ok env rt \<Longrightarrow> hc_steps us hp (fst st, wProxy (snd st))
   \<Longrightarrow> hc_steps us hp (fst st', wProxy (snd st'))"
proof (induction rule: gw_step.induct)
  case (request hc w r)
  have "hc_steps us hp (hc, wProxy (fst (Router_ServeHTTP rt w new_writer r)))"
  proof (rule Router_keeps [OF request.prems(1), where I = "\<lambda>w1. hc_steps us hp (hc, wProxy w1)"])
    fix w2 :: world and rw r
    assume "hc_steps us hp (hc, wProxy w2)"
    then show "hc_steps us hp (hc, wProxy (fst (proxyHandler env w2 rw r)))"
      by (rule hc_steps.step) (auto simp: proxyHandler_def case_prod_beta intro: hc_step.serve)
  qed (use request.prems in \<open>auto simp: evolves_def\<close>)
  then show ?case by simp
next
  case (check i hc e w hc' p')
  then have "hc_step us (hc, wProxy w) (hc', p')" using hc_step.check [of i hc e us "wProxy w"] by simp
  with check.prems show ?case by (auto intro: hc_steps.step)
next
  case (stop hc w)
  then show ?case by (auto intro: hc_steps.step hc_step.stop)
next
  case (monitor_exit hc i w)
  then show ?case by (auto intro: hc_steps.step hc_step.exit)
qed (auto simp: put_plugin_def time_Now_def)

lemma gw_steps_simulated:
  "gw_steps us env rt st st' \<Longrightarrow> router_ok env rt \<Longrightarrow> hc_steps us (fst st, wProxy (snd st)) (fst st', wProxy (snd st'))"
  by (induction rule: gw_steps.induct) (auto intro: hc_steps.refl gw_step_simulated)

text \<open>
  C10. Seen from the health checker, a running gateway does nothing but serve requests, check targets and shut
  down: every run of the whole process (requests through any chain of plugins, cleanups, key refreshes,
  checks, shutdown) is, on the checker and the proxy, a run of the health checker's step relation. So
  in every reachable state the health flags the balancers read agree with the checker's verdicts, as
  long as no two statuses are about the same target.
\<close>

theorem gateway_simulates_checker:
  assumes "main be args path st = Running gw"
    and "gw_steps (be_urlString be) (be_plugins be) (gw_router gw) (gw_hc gw, gw_world gw) (hc, w)"
  shows "hc_steps (be_urlString be) (gw_hc gw, wProxy (gw_world gw)) (hc, wProxy w)
    \<and> (statuses_apart (be_urlString be) (gw_hc gw, wProxy (gw_world gw)) \<longrightarrow> hc_synced (be_urlString be) (hc, wProxy w))"
proof (rule main_Running [OF assms(1)])
  let ?us = "be_urlString be"
  fix p
  assume start: "hc_Start ?us (NewHealthChecker (gw_config gw), p) = (gw_hc gw, wProxy (gw_world gw))"
    and ok: "router_ok (be_plugins be) (gw_router gw)"
  have run: "hc_steps ?us (gw_hc gw, wProxy (gw_world gw)) (hc, wProxy w)"
    using gw_steps_simulated [OF assms(2) ok] by simp
  moreover have "hc_synced ?us (hc, wProxy w)" if "statuses_apart ?us (gw_hc gw, wProxy (gw_world gw))"
    using hc_steps_inv [OF run] hc_Start_inv [of ?us "gw_config gw" p] start that by simp
  ultimately show ?thesis by blast
qed

section \<open>Unauthenticated requests never reach an upstream\<close>

text \<open>What becomes of an instance over a run: its settings stay, only API keys and the stores change.\<close>

fun cell_follows :: "Plugin \<Rightarrow> Plugin \<Rightarrow> bool" where
  "cell_follows (AuthenticationP p) (AuthenticationP p') = (\<exists>ks. p' = p\<lparr>validAPIKeys := ks\<rparr>)"
| "cell_follows q q' = cell_evolves q q'"

definition follows :: "world \<Rightarrow> world \<Rightarrow> bool" where
  "follows w0 w \<longleftrightarrow> (\<forall>a. cell_follows (wPlugins w0 a) (wPlugins w a))"

lemma keys_self: "\<exists>ks. p = (p :: AuthenticationPlugin)\<lparr>validAPIKeys := ks\<rparr>"
  by (rule exI [of _ "validAPIKeys p"]) simp

lemma cell_follows_refl [simp]: "cell_follows q q"
  by (cases q) (auto simp: keys_self)

lemma cell_evolves_follows: "cell_evolves q q' \<Longrightarrow> cell_follows q q'"
  by (cases q; cases q') (auto simp: keys_self)

lemma follows_refl [simp]: "follows w w"
  by (simp add: follows_def)

lemma follows_proxyHandler [simp]: "follows w0 (fst (proxyHandler env w rw r)) = follows w0 w"
  by (simp add: follows_def proxyHandler_def case_prod_beta)

lemma cell_follows_trans: "cell_follows q q' \<Longrightarrow> cell_follows q' q'' \<Longrightarrow> cell_follows q q''"
  by (cases q; cases q'; cases q'') (auto dest: cell_evolves_trans)

lemma follows_step: "follows w0 w \<Longrightarrow> (\<And>a. cell_follows (wPlugins w a) (wPlugins w' a)) \<Longrightarrow> follows w0 w'"
  unfolding follows_def by (blast intro: cell_follows_trans)

lemma follows_evolves: "follows w0 w \<Longrightarrow> evolves w w' \<Longrightarrow> follows w0 w'"
  by (erule follows_step) (auto simp: evolves_def intro: cell_evolves_follows)

lemma follows_put: "follows w0 w \<Longrightarrow> cell_follows (wPlugins w a) q \<Longrightarrow> follows w0 (put_plugin a q w)"
  by (erule follows_step) (simp add: put_plugin_def)

lemma follows_clock [simp]: "follows w0 (w\<lparr>wClock := n\<rparr>) = follows w0 w"
  by (simp add: follows_def)

lemma refresh_tick_keys: "refresh_tick ie p = Ok p' \<Longrightarrow> \<exists>ks. p' = p\<lparr>validAPIKeys := ks\<rparr>"
  by (auto simp: refresh_tick_def loadAPIKeysFromMongoDB_def bind_outcome_Ok intro: exI [of _ "validAPIKeys p"]
      split: outcome.splits if_splits option.splits)

lemma gw_step_follows:
  "gw_step us env rt st st' \<Longrightarrow> router_ok env rt \<Longrightarrow> follows w0 (snd st) \<Longrightarrow> follows w0 (snd st')"
proof (induction rule: gw_step.induct)
  case (request hc w r)
  have "follows w0 (fst (Router_ServeHTTP rt w new_writer r))"
    by (rule Router_keeps [OF request.prems(1), where I = "follows w0"])
      (use request.prems in \<open>auto intro: follows_evolves\<close>)
  then show ?case by simp
next
  case (limiter_cleanup w a p now w' hc)
  then have "wPlugins w' a = RateLimitingP p" "follows w0 w'" by (auto simp: time_Now_def)
  then show ?case by (auto intro!: follows_put simp: rl_cleanup_def)
next
  case (cache_cleanup w a p hc)
  then show ?case by (auto intro!: follows_put simp: cleanupExpiredEntries_def)
next
  case (key_refresh w a p ie p' hc)
  then show ?case using refresh_tick_keys by (auto intro!: follows_put)
qed (auto simp: follows_def)

lemma gw_steps_follows:
  "gw_steps us env rt st st' \<Longrightarrow> router_ok env rt \<Longrightarrow> follows (snd st) (snd st')"
  by (induction rule: gw_steps.induct) (auto intro: gw_step_follows)

text \<open>The header a plugin wants its credential in.\<close>

definition demands :: "AuthenticationPlugin \<Rightarrow> string \<Rightarrow> bool" where
  "demands p h \<longleftrightarrow> Provider p = ''jwt'' \<and> tokenHeaderName p = h \<or> Provider p = ''api-key'' \<and> apiKeyHeaderName p = h"

definition guards :: "addr \<Rightarrow> string \<Rightarrow> world \<Rightarrow> bool" where
  "guards g h w \<longleftrightarrow> (\<exists>p. wPlugins w g = AuthenticationP p \<and> demands p h)"

lemma guards_evolves: "guards g h w \<Longrightarrow> evolves w w' \<Longrightarrow> guards g h w'"
  unfolding guards_def evolves_def by (metis cell_evolves.simps(3))

lemma guards_follows: "guards g h w0 \<Longrightarrow> follows w0 w \<Longrightarrow> guards g h w"
proof -
  assume "guards g h w0" "follows w0 w"
  then obtain p where p: "wPlugins w0 g = AuthenticationP p" "demands p h" "cell_follows (AuthenticationP p) (wPlugins w g)"
    unfolding guards_def follows_def by metis
  then show ?thesis by (cases "wPlugins w g") (auto simp: guards_def demands_def)
qed

lemma Handle_guards:
  assumes "guards g h w" and "hGet (Header r) h = []"
  shows "wCalls (fst (Handle env g nxt w rw r)) = wCalls w"
proof -
  obtain p where p: "wPlugins w g = AuthenticationP p" "demands p h" using assms(1) by (auto simp: guards_def)
  then have "\<exists>msg code. auth_decide (pe_auth env) now p r = Deny msg code" for now
    using assms(2) by (auto simp: demands_def auth_decide_def decide_jwt_def decide_api_key_def)
  then obtain msg code where "auth_decide (pe_auth env) (pe_now env (wClock w)) p r = Deny msg code" by blast
  with p show ?thesis by (simp add: Handle_def auth_Handle_def time_Now_def)
qed

lemma same_request_header:
  "same_request r r' \<Longrightarrow> CanonicalKey h \<noteq> CanonicalKey requestIDHeader \<Longrightarrow> hGet (Header r') h = hGet (Header r) h"
  by (simp add: same_request_def hGet_def)

lemma chain_guarded:
  assumes "g \<in> set as" and "guards g h w" and "hGet (Header r) h = []" and "CanonicalKey h \<noteq> CanonicalKey requestIDHeader"
  shows "wCalls (fst (ChainPlugins env as nxt w rw r)) = wCalls w"
  unfolding ChainPlugins_chain
  by (rule gateway.chain_shield [where W = "guards g h" and Q = "\<lambda>r. hGet (Header r) h = []"])
    (use assms in \<open>auto simp: Handle_guards same_request_header intro: guards_evolves\<close>)

section \<open>A running example\<close>

text \<open>The sample configuration with its route behind an API key check, as it boots.\<close>

definition example_log :: log_env where
  "example_log = \<lparr>le_Format = \<lambda>f _. f, le_UTC = \<lambda>_. [], le_Marshal = \<lambda>_. Inl [], le_Caller = \<lambda>_. None, le_Prefix = \<lambda>_. []\<rparr>"

definition example_boot :: boot_env where
  "example_boot = \<lparr>be_ReadFile = \<lambda>_. Some [],
     be_Unmarshal = \<lambda>_. Some (sample_config\<lparr>Routes := [sample_route\<lparr>rt_Plugins := [api_key_instance]\<rparr>]\<rparr>),
     be_parse = \<lambda>_. Some example_url, be_urlString = sample_string, be_generate = toy_generate,
     be_log = example_log, be_time = 0, be_plugins = example_penv\<rparr>"

lemma example_runs: "\<exists>gw. main example_boot [''corridor''] ''config.yaml'' empty_store = Running gw \<and> gw_config gw = guarded_config []"
proof -
  have cfg: "LoadConfig (be_ReadFile example_boot) (be_Unmarshal example_boot) ''config.yaml'' = Inr (guarded_config [])"
    by (simp add: LoadConfig_def example_boot_def guarded_validates)
  have "FailOnServiceInitError (Global (guarded_config [])) = None"
    by (simp add: guarded_config_def sample_config_def sample_global_def)
  then obtain p where p: "NewProxy (be_parse example_boot) (guarded_config []) empty_store = Inr p"
    using init_lbs_lenient [of "be_parse example_boot" "Services (guarded_config [])" empty_store Map.empty]
    by (auto simp: NewProxy_def Let_def split: sum.splits prod.splits)
  obtain hc p1 where hc: "hc_Start (be_urlString example_boot) (NewHealthChecker (guarded_config []), p) = (hc, p1)" by fastforce
  obtain w rt where "NewRouter (be_plugins example_boot) (guarded_config []) (proxyHandler (be_plugins example_boot)) (initial_world p1) = Ok (w, rt)"
    using guarded_router(1) [of "proxyHandler example_penv" "initial_world p1"] by (auto simp: example_boot_def)
  with cfg p hc show ?thesis by (simp add: main_def main_serve_def)
qed

lemma example_switch: "switch_answers (be_plugins example_boot)"
  by (simp add: switch_answers_def example_boot_def example_penv_def example_env_def answered_def)

theorem every_request_answered_once_witness:
  "\<exists>gw. main example_boot [''corridor''] ''config.yaml'' empty_store = Running gw
    \<and> answered (snd (Router_ServeHTTP (gw_router gw) (gw_world gw) new_writer (info_request [])))"
  using example_runs every_request_answered_once [OF _ example_switch] by blast

theorem gateway_simulates_checker_witness:
  "\<exists>gw. main example_boot [''corridor''] ''config.yaml'' empty_store = Running gw
    \<and> hc_steps sample_string (gw_hc gw, wProxy (gw_world gw))
        (gw_hc gw, wProxy (fst (Router_ServeHTTP (gw_router gw) (gw_world gw) new_writer (info_request []))))"
proof -
  obtain gw where gw: "main example_boot [''corridor''] ''config.yaml'' empty_store = Running gw" using example_runs by blast
  have us: "be_urlString example_boot = sample_string" by (simp add: example_boot_def)
  have "gw_steps (be_urlString example_boot) (be_plugins example_boot) (gw_router gw) (gw_hc gw, gw_world gw)
      (gw_hc gw, fst (Router_ServeHTTP (gw_router gw) (gw_world gw) new_writer (info_request [])))"
    by (rule gw_steps.step [OF gw_steps.refl gw_step.request])
  with gateway_simulates_checker [OF gw] gw us show ?thesis by metis
qed

section \<open>The end\<close>

lemma gw_server_config: "main be args path st = Running gw \<Longrightarrow> gs_config (gw_server gw) = gw_config gw"
  by (auto simp: main_def main_keygen_def main_serve_def NewServer_def Let_def
      split: if_splits sum.splits prod.splits outcome.splits)

text \<open>A started gateway exits early only when a certificate does not load or listening fails.\<close>

lemma main_end_exits:
  assumes "main be args path st = Running gw" and "main_end load listen shutdown gw hc = ExitsWithError why"
  shows "(\<exists>host. why = FatalCertificate host) \<or> (\<exists>err. why = FatalListen err)"
proof (rule main_Running [OF assms(1)])
  fix cfg0
  assume "validateAndSetDefaults cfg0 = Inr (gw_config gw)"
  then have "serve_goroutine load (gw_config gw) \<noteq> FatalNoCertificates"
    using server_mode [of cfg0 "gw_config gw" load] by (auto split: option.splits)
  then show ?thesis
    using assms(2) gw_server_config [OF assms(1)]
    by (cases "serve_goroutine load (gw_config gw)") (auto simp: main_end_def server_Start_def Let_def split: option.splits)
qed

end
