(* ===== verification/Locks.thy ===== *)
theory Locks
  imports Prelude
begin

text \<open>
  Goroutines that use \<^verbatim>\<open>sync.Mutex\<close> and \<^verbatim>\<open>sync.RWMutex\<close>. A goroutine is the list of locking operations it still has to make
  and the locks it holds. The locale \<^verbatim>\<open>lock_order\<close> is the discipline of acquiring locks in increasing rank and
  releasing all of them: goroutines that keep it never block each other for ever, also when waiting writers have
  precedence over new readers, as in Go.
\<close>

section \<open>Goroutines and locks\<close>

text \<open>\<^verbatim>\<open>Await\<close> is a blocking call with a timeout; as for \<^verbatim>\<open>http.Client.Timeout\<close>, zero means that there is none.\<close>

datatype 'l instr = Lock 'l | Unlock 'l | RLock 'l | RUnlock 'l | Await duration

record 'l thread =
  th_held :: "('l \<times> bool) list"
  th_code :: "'l instr list"

text \<open>The locks a goroutine holds after an operation; the flag tells a write lock from a read lock.\<close>

fun after :: "'l instr \<Rightarrow> ('l \<times> bool) list \<Rightarrow> ('l \<times> bool) list" where
  "after (Lock l) H = (l, True) # H"
| "after (RLock l) H = (l, False) # H"
| "after (Unlock l) H = remove1 (l, True) H"
| "after (RUnlock l) H = remove1 (l, False) H"
| "after (Await d) H = H"

definition holds :: "'l \<Rightarrow> 'l thread \<Rightarrow> bool" where
  "holds l t \<longleftrightarrow> l \<in> fst ` set (th_held t)"

definition wants_write :: "'l \<Rightarrow> 'l thread \<Rightarrow> bool" where
  "wants_write l t \<longleftrightarrow> (case th_code t of Lock l' # _ \<Rightarrow> l' = l | _ \<Rightarrow> False)"

text \<open>
  Whether an operation can be made. With \<^term>\<open>strict\<close>, a goroutine that is about to take a write lock already keeps new
  readers out; without, it does not yet. Go lies in between: it depends on whether the call has been made.
\<close>

fun ready :: "bool \<Rightarrow> 'l thread list \<Rightarrow> 'l instr \<Rightarrow> bool" where
  "ready strict ths (Lock l) = (\<not> list_ex (holds l) ths)"
| "ready strict ths (RLock l) =
     (\<not> list_ex (\<lambda>t. (l, True) \<in> set (th_held t)) ths \<and> \<not> (strict \<and> list_ex (wants_write l) ths))"
| "ready strict ths (Await d) = (0 < d)"
| "ready strict ths _ = True"

lemma ready_strict: "ready True ths x \<Longrightarrow> ready b ths x"
  by (cases x) auto

section \<open>The discipline\<close>

locale lock_order =
  fixes rank :: "'l \<Rightarrow> nat"
begin

text \<open>Locks are taken in increasing rank, released by their holder, and all released in the end; calls have timeouts.\<close>

fun ordered :: "('l \<times> bool) list \<Rightarrow> 'l instr list \<Rightarrow> bool" where
  "ordered H [] = (H = [])"
| "ordered H (Lock l # c) = ((\<forall>h \<in> set H. rank (fst h) < rank l) \<and> ordered ((l, True) # H) c)"
| "ordered H (RLock l # c) = ((\<forall>h \<in> set H. rank (fst h) < rank l) \<and> ordered ((l, False) # H) c)"
| "ordered H (Unlock l # c) = ((l, True) \<in> set H \<and> ordered (remove1 (l, True) H) c)"
| "ordered H (RUnlock l # c) = ((l, False) \<in> set H \<and> ordered (remove1 (l, False) H) c)"
| "ordered H (Await d # c) = (0 < d \<and> ordered H c)"

definition disciplined :: "'l thread \<Rightarrow> bool" where
  "disciplined t \<longleftrightarrow> ordered (th_held t) (th_code t)"

lemma ordered_after: "ordered H (x # c) \<Longrightarrow> ordered (after x H) c"
  by (cases x) auto

text \<open>The lock the next operation is blocked on.\<close>

definition awaits :: "'l thread \<Rightarrow> 'l \<Rightarrow> bool" where
  "awaits t l \<longleftrightarrow> (\<exists>c. th_code t = Lock l # c \<or> th_code t = RLock l # c)"

lemma awaits_above_held: "disciplined t \<Longrightarrow> awaits t l \<Longrightarrow> holds k t \<Longrightarrow> rank k < rank l"
  by (fastforce simp: disciplined_def awaits_def holds_def)

lemma holder_unfinished: "disciplined t \<Longrightarrow> holds l t \<Longrightarrow> th_code t \<noteq> []"
  by (auto simp: disciplined_def holds_def)

lemma blocked_awaits: "disciplined t \<Longrightarrow> th_code t = x # c \<Longrightarrow> \<not> ready True ths x \<Longrightarrow> \<exists>l. awaits t l"
  by (cases x) (auto simp: disciplined_def awaits_def)

text \<open>Behind every blocked operation there is a holder of the lock: directly, or behind a waiting writer.\<close>

lemma blocked_holder:
  assumes stuck: "\<And>t x c. t \<in> set ths \<Longrightarrow> th_code t = x # c \<Longrightarrow> \<not> ready True ths x"
    and "t \<in> set ths" and "awaits t l"
  shows "\<exists>h \<in> set ths. holds l h"
proof -
  have writer: "\<exists>h \<in> set ths. holds l h" if "u \<in> set ths" "th_code u = Lock l # c" for u c
    using stuck [OF that] by (auto simp: list_ex_iff)
  consider c where "th_code t = Lock l # c" | c where "th_code t = RLock l # c"
    using assms(3) by (auto simp: awaits_def)
  then show ?thesis
  proof cases
    case 1
    then show ?thesis using writer assms(2) by blast
  next
    case (2 c)
    have "list_ex (\<lambda>u. (l, True) \<in> set (th_held u)) ths \<or> list_ex (wants_write l) ths"
      using stuck [OF assms(2) 2] by auto
    then consider u where "u \<in> set ths" "(l, True) \<in> set (th_held u)" | u where "u \<in> set ths" "wants_write l u"
      by (auto simp: list_ex_iff)
    then show ?thesis
    proof cases
      case 1
      then show ?thesis by (force simp: holds_def)
    next
      case (2 u)
      then obtain c' where "th_code u = Lock l # c'"
        by (auto simp: wants_write_def split: list.splits instr.splits)
      then show ?thesis using writer 2(1) by blast
    qed
  qed
qed

lemma progress:
  assumes disc: "\<And>t. t \<in> set ths \<Longrightarrow> disciplined t" and "t0 \<in> set ths" and "th_code t0 \<noteq> []"
  shows "\<exists>t \<in> set ths. \<exists>x c. th_code t = x # c \<and> ready True ths x"
proof (rule ccontr)
  assume "\<not> ?thesis"
  then have stuck: "\<And>t x c. t \<in> set ths \<Longrightarrow> th_code t = x # c \<Longrightarrow> \<not> ready True ths x" by blast
  have waits: "\<exists>l. awaits t l" if mem: "t \<in> set ths" and ne: "th_code t \<noteq> []" for t
  proof -
    obtain x c where "th_code t = x # c" using ne by (cases "th_code t") auto
    from blocked_awaits [OF disc [OF mem] this stuck [OF mem this]] show ?thesis .
  qed
  define W where "W = {n. \<exists>t l. n = rank l \<and> t \<in> set ths \<and> awaits t l}"
  have W: "n \<in> W \<longleftrightarrow> (\<exists>t l. n = rank l \<and> t \<in> set ths \<and> awaits t l)" for n by (simp add: W_def)
  have "W \<subseteq> (\<Union>t \<in> set ths. case th_code t of Lock l # _ \<Rightarrow> {rank l} | RLock l # _ \<Rightarrow> {rank l} | _ \<Rightarrow> {})"
    by (force simp: W awaits_def)
  then have fin: "finite W" by (rule finite_subset) (auto split: list.split instr.split)
  have "W \<noteq> {}" using waits assms(2,3) W by blast
  with fin have "Max W \<in> W" by (rule Max_in)
  then obtain t l where t: "t \<in> set ths" "awaits t l" "Max W = rank l" using W by blast
  obtain h where h: "h \<in> set ths" "holds l h" using stuck blocked_holder [OF _ t(1,2)] by blast
  obtain l' where l': "awaits h l'" using waits [OF h(1)] holder_unfinished [OF disc [OF h(1)] h(2)] by blast
  have "rank l < rank l'" using awaits_above_held [OF disc [OF h(1)] l' h(2)] .
  moreover have "rank l' \<le> Max W" using W h(1) l' by (intro Max_ge [OF fin]) blast
  ultimately show False using t(3) by simp
qed

section \<open>Building disciplined code\<close>

text \<open>Code that, below rank \<^term>\<open>r\<close>, can be put in front of anything: it releases what it takes.\<close>

definition guarded :: "nat \<Rightarrow> 'l instr list \<Rightarrow> bool" where
  "guarded r c \<longleftrightarrow> (\<forall>H rest. (\<forall>h \<in> set H. rank (fst h) < r) \<longrightarrow> ordered H (c @ rest) = ordered H rest)"

lemma guarded_Nil [simp, intro]: "guarded r []"
  by (simp add: guarded_def)

lemma guarded_append [intro]: "guarded r c \<Longrightarrow> guarded r d \<Longrightarrow> guarded r (c @ d)"
  by (simp add: guarded_def)

lemma guarded_mono: "guarded r' c \<Longrightarrow> r \<le> r' \<Longrightarrow> guarded r c"
  unfolding guarded_def using less_le_trans by blast

lemma guarded_Await: "0 < d \<Longrightarrow> guarded r c \<Longrightarrow> guarded r (Await d # c)"
  by (simp add: guarded_def)

lemma guarded_section:
  assumes "guarded (Suc (rank l)) c" and "r \<le> rank l"
  shows "guarded r (Lock l # c @ [Unlock l])" and "guarded r (RLock l # c @ [RUnlock l])"
proof -
  have low: "\<forall>h \<in> set H. rank (fst h) < rank l" if "\<forall>h \<in> set H. rank (fst h) < r" for H
    using that assms(2) by fastforce
  have go: "ordered ((l, b) # H) (c @ rest) = ordered ((l, b) # H) rest" if "\<forall>h \<in> set H. rank (fst h) < r" for b H rest
  proof -
    have "\<forall>h \<in> set ((l, b) # H). rank (fst h) < Suc (rank l)" using low [OF that] by fastforce
    with assms(1) show ?thesis unfolding guarded_def by blast
  qed
  show "guarded r (Lock l # c @ [Unlock l])" "guarded r (RLock l # c @ [RUnlock l])"
    unfolding guarded_def by (auto simp: go low)
qed

lemma guarded_ordered: "guarded r c \<Longrightarrow> ordered [] c"
  unfolding guarded_def by (metis append_Nil2 empty_iff empty_set ordered.simps(1))

end

end
