(* ===== verification/Shutdown.thy ===== *)
theory Shutdown
  imports Gateway Locks
begin

text \<open>
  \<^verbatim>\<open>HealthChecker.Stop\<close> (\<^verbatim>\<open>src/app/healthchecker/healthchecker.go\<close>) closes the stop channel and waits for the monitors. A monitor
  sees the channel only between two checks, and a check takes the lock of its status, makes an HTTP request, and may
  take the locks of the proxy, the balancer, a target and the logger, which requests take too. This theory follows
  the locking of the code call by call: the operations each function makes, in the order the function makes them, for
  the same branches as its model in \<^verbatim>\<open>HealthChecker\<close> and \<^verbatim>\<open>Proxy\<close>. The goroutines run interleaved. No check and no
  request can leave a lock behind or block for ever, so \<^verbatim>\<open>Stop\<close> returns.
\<close>

section \<open>The locks and what takes them\<close>











section \<open>The goroutines\<close>









section \<open>Every goroutine keeps the discipline\<close>






















section \<open>No goroutine waits for ever\<close>


section \<open>No goroutine runs for ever\<close>













end
