(* ===== verification/RoundRobinConcurrent.thy ===== *)
theory RoundRobinConcurrent
  imports LoadBalancer "HOL-Library.Multiset"
begin

text \<open>
  Concurrent calls of \<^verbatim>\<open>roundRobinLoadBalancer.Next\<close>. The read lock does not exclude other calls, so the
  scans of several goroutines interleave at the atomic increment of the shared index: each increment
  hands out one position. A call that runs alone is \<^const>\<open>rr_Next\<close>; an interleaved one may fail although a
  target is healthy.
\<close>

section \<open>Interleaved scans\<close>

text \<open>A call that still has attempts left (never zero), one that has returned a target, one that has failed.\<close>

datatype rr_call = Scanning nat | Found addr | Failed

type_synonym rr_calls = "32 word \<times> rr_call list"

text \<open>One round of the loop of call \<^term>\<open>i\<close>: atomic increment, look at the target, return or go on.\<close>

definition rr_turn :: "target_heap \<Rightarrow> addr list \<Rightarrow> nat \<Rightarrow> rr_calls \<Rightarrow> rr_calls" where
  "rr_turn h ts i st =
     (let (idx, cs) = st
      in case cs ! i of
           Scanning (Suc k) \<Rightarrow>
             (let idx' = idx + 1;
                  currentIndex = idx' - 1;
                  target = ts ! unat (currentIndex mod word_of_nat (length ts))
              in (idx', cs[i := if IsHealthy (h target) then Found target
                               else if k = 0 then Failed else Scanning k]))
         | _ \<Rightarrow> st)"

inductive rr_step :: "target_heap \<Rightarrow> addr list \<Rightarrow> rr_calls \<Rightarrow> rr_calls \<Rightarrow> bool" for h ts where
  turn: "i < length cs \<Longrightarrow> cs ! i = Scanning (Suc k) \<Longrightarrow> rr_step h ts (idx, cs) (rr_turn h ts i (idx, cs))"

inductive rr_steps :: "target_heap \<Rightarrow> addr list \<Rightarrow> nat \<Rightarrow> rr_calls \<Rightarrow> rr_calls \<Rightarrow> bool" for h ts where
  none: "rr_steps h ts 0 st st"
| more: "rr_steps h ts n st st1 \<Longrightarrow> rr_step h ts st1 st2 \<Longrightarrow> rr_steps h ts (Suc n) st st2"

inductive_cases rr_stepE: "rr_step h ts (idx, cs) st"

text \<open>The start: every call has one attempt per target.\<close>

definition rr_start :: "32 word \<Rightarrow> addr list \<Rightarrow> nat \<Rightarrow> rr_calls" where
  "rr_start idx ts m = (idx, replicate m (Scanning (length ts)))"

section \<open>Termination\<close>

fun attempts :: "rr_call \<Rightarrow> nat" where
  "attempts (Scanning k) = k"
| "attempts _ = 0"

definition work :: "rr_calls \<Rightarrow> nat" where
  "work st = sum_list (map attempts (snd st))"

lemma work_step: "rr_step h ts st st' \<Longrightarrow> work st' < work st"
proof (induction rule: rr_step.induct)
  case (turn i cs k idx)
  have "sum_list (map attempts (cs[i := x])) = sum_list (map attempts cs) + attempts x - attempts (cs ! i)" for x
    using turn(1) by (simp add: map_update sum_list_update)
  moreover have "attempts (cs ! i) \<le> sum_list (map attempts cs)"
    using turn(1) by (metis length_map nth_map elem_le_sum_list)
  ultimately show ?case using turn(2) by (auto simp: rr_turn_def work_def Let_def)
qed

lemma rr_steps_bound: "rr_steps h ts n st st' \<Longrightarrow> n + work st' \<le> work st"
proof (induction rule: rr_steps.induct)
  case (more n st st1 st2)
  with work_step [OF more.hyps(2)] show ?case by linarith
qed simp

definition call_ok :: "target_heap \<Rightarrow> addr list \<Rightarrow> rr_call \<Rightarrow> bool" where
  "call_ok h ts c = (case c of Scanning k \<Rightarrow> 0 < k | Found a \<Rightarrow> a \<in> set (healthyTargets h ts) | Failed \<Rightarrow> True)"

lemma calls_ok_step:
  assumes "rr_step h ts st st'" and "ts \<noteq> []" and "length ts < 2 ^ 32" and "list_all (call_ok h ts) (snd st)"
  shows "list_all (call_ok h ts) (snd st')"
  using assms
proof (induction rule: rr_step.induct)
  case (turn i cs k idx)
  let ?t = "ts ! unat (idx mod word_of_nat (length ts))"
  have "?t \<in> set ts" using rr_slot_in [OF turn(3,4), of idx] by (simp add: rr_slot_def)
  then have "call_ok h ts (if IsHealthy (h ?t) then Found ?t else if k = 0 then Failed else Scanning k)"
    by (simp add: call_ok_def healthyTargets_def)
  then show ?case using turn by (auto simp: rr_turn_def list_all_iff Let_def dest!: set_update_subset_insert [THEN subsetD])
qed

lemma calls_ok_steps:
  "rr_steps h ts n st st' \<Longrightarrow> ts \<noteq> [] \<Longrightarrow> length ts < 2 ^ 32 \<Longrightarrow> list_all (call_ok h ts) (snd st) \<Longrightarrow> list_all (call_ok h ts) (snd st')"
  by (induction rule: rr_steps.induct) (auto intro: calls_ok_step)

lemma stuck_done:
  assumes "\<nexists>st'. rr_step h ts st st'" and "list_all (call_ok h ts) (snd st)" and "c \<in> set (snd st)"
  shows "\<exists>a. c = Found a \<or> c = Failed"
proof (cases c)
  case (Scanning k)
  obtain i where i: "i < length (snd st)" "snd st ! i = c" using assms(3) by (auto simp: in_set_conv_nth)
  have "0 < k" using assms(2,3) Scanning by (auto simp: list_all_iff call_ok_def)
  then have "rr_step h ts st (rr_turn h ts i st)"
    using rr_step.turn [of i "snd st" "k - 1" h ts "fst st"] i Scanning by simp
  then show ?thesis using assms(1) by blast
qed auto

text \<open>
  C11. Concurrent round robin calls end, and what they return is right: under every interleaving of \<^term>\<open>m\<close> calls on
  \<^term>\<open>n\<close> targets there are at most \<^term>\<open>m * n\<close> rounds; when no round is left to make every call has
  returned, and every target that was returned is a healthy target of the list.
\<close>

theorem concurrent_calls_end:
  assumes "ts \<noteq> []" and "length ts < 2 ^ 32" and "rr_steps h ts n (rr_start idx ts m) st"
  shows "n \<le> m * length ts
    \<and> ((\<nexists>st'. rr_step h ts st st') \<longrightarrow>
        list_all (\<lambda>c. c = Failed \<or> (\<exists>a \<in> set (healthyTargets h ts). c = Found a)) (snd st))"
proof -
  have "work (rr_start idx ts m) = m * length ts"
    by (simp add: work_def rr_start_def sum_list_replicate)
  then have "n \<le> m * length ts" using rr_steps_bound [OF assms(3)] by simp
  moreover have ok: "list_all (call_ok h ts) (snd st)"
    using calls_ok_steps [OF assms(3,1,2)] assms(1) by (simp add: rr_start_def call_ok_def list_all_iff)
  moreover have "list_all (\<lambda>c. c = Failed \<or> (\<exists>a \<in> set (healthyTargets h ts). c = Found a)) (snd st)"
    if "\<nexists>st'. rr_step h ts st st'"
    using stuck_done [OF that ok] ok by (fastforce simp: list_all_iff call_ok_def)
  ultimately show ?thesis by blast
qed

definition two_targets :: target_heap where
  "two_targets = example_heap (\<lambda>a. a = 1) (\<lambda>_. 1) (\<lambda>_. 0)"

lemma one_step: "i < length cs \<Longrightarrow> cs ! i = Scanning (Suc k) \<Longrightarrow> rr_turn h ts i (idx, cs) = st' \<Longrightarrow>
    rr_steps h ts n st (idx, cs) \<Longrightarrow> rr_steps h ts (Suc n) st st'"
  using rr_steps.more rr_step.turn by metis

text \<open>Two calls on two targets of which only the second is healthy, scheduled first, second, first.\<close>

lemma missing_schedule:
  "rr_steps two_targets [0, 1] 3 (rr_start 0 [0, 1] 2) (3, [Failed, Found 1])"
proof -
  let ?s = "rr_steps two_targets [0, 1]" and ?st = "rr_start 0 [0, 1] 2"
  have 0: "?s 0 ?st (0, [Scanning 2, Scanning 2])" using rr_steps.none [of two_targets "[0, 1]" ?st] by (simp add: rr_start_def numeral_2_eq_2)
  have 1: "?s 1 ?st (1, [Scanning 1, Scanning 2])"
    using one_step [OF _ _ refl 0, of 0 1] by (simp add: rr_turn_def two_targets_def numeral_2_eq_2)
  have 2: "?s 2 ?st (2, [Scanning 1, Found 1])"
    using one_step [OF _ _ refl 1, of 1 1] by (simp add: rr_turn_def two_targets_def numeral_2_eq_2)
  show ?thesis
    using one_step [OF _ _ refl 2, of 0 0] by (simp add: rr_turn_def two_targets_def numeral_3_eq_3)
qed

theorem concurrent_calls_end_witness:
  "3 \<le> (2::nat) * 2 \<and> list_all (\<lambda>c. c = Failed \<or> (\<exists>a \<in> set (healthyTargets two_targets [0, 1]). c = Found a)) [Failed, Found 1]"
proof -
  have "\<nexists>st'. rr_step two_targets [0, 1] (3, [Failed, Found 1]) st'"
    by (auto elim!: rr_stepE simp: less_Suc_eq)
  with concurrent_calls_end [OF _ _ missing_schedule] show ?thesis by simp
qed

text \<open>
  C36. An interleaved call can fail although a target is healthy: the increments of another call move the shared
  index past the healthy target, so the positions one call sees do not cover the list. The same call, made alone,
  finds the target.
\<close>

theorem concurrent_rr_misses_healthy:
  "rr_steps two_targets [0, 1] 3 (rr_start 0 [0, 1] 2) (3, [Failed, Found 1])
   \<and> healthyTargets two_targets [0, 1] = [1]
   \<and> snd (rr_Next two_targets \<lparr>rr_serviceName = [], rr_targets = [0, 1], rr_nextIndex = 0\<rparr>) = Inr 1"
  using missing_schedule by (simp add: healthyTargets_def two_targets_def rr_Next_def Let_def numeral_2_eq_2)

section \<open>A call that runs alone\<close>

fun call_result :: "addr option \<Rightarrow> rr_call" where
  "call_result (Some a) = Found a"
| "call_result None = Failed"

lemma rr_turn_done: "cs ! i = call_result r \<Longrightarrow> rr_turn h ts i (idx, cs) = (idx, cs)"
  by (cases r) (simp_all add: rr_turn_def)

lemma rr_turns_done: "cs ! i = call_result r \<Longrightarrow> (rr_turn h ts i ^^ k) (idx, cs) = (idx, cs)"
  by (induction k) (simp_all add: rr_turn_done)

lemma alone_loop:
  "i < length cs \<Longrightarrow> 0 < k \<Longrightarrow> cs ! i = Scanning k \<Longrightarrow>
   (rr_turn h ts i ^^ k) (idx, cs) = (case rr_loop k h ts idx of (idx', r) \<Rightarrow> (idx', cs[i := call_result r]))"
proof (induction k arbitrary: idx cs)
  case (Suc k)
  let ?t = "ts ! unat (idx mod word_of_nat (length ts))"
  have turn: "rr_turn h ts i (idx, cs) = (idx + 1, cs[i := if IsHealthy (h ?t) then Found ?t else if k = 0 then Failed else Scanning k])"
    using Suc.prems(3) by (simp add: rr_turn_def)
  have go: "(rr_turn h ts i ^^ Suc k) (idx, cs) = (rr_turn h ts i ^^ k) (rr_turn h ts i (idx, cs))"
    by (simp add: funpow_swap1)
  consider "IsHealthy (h ?t)" | "\<not> IsHealthy (h ?t)" "k = 0" | "\<not> IsHealthy (h ?t)" "0 < k" by blast
  then show ?case
  proof cases
    case 1
    then show ?thesis unfolding go turn
      using rr_turns_done [of "cs[i := Found ?t]" i "Some ?t" k h ts "idx + 1"] Suc.prems(1) by simp
  next
    case 2
    then show ?thesis unfolding go turn by simp
  next
    case 3
    then show ?thesis unfolding go turn using Suc.IH [of "cs[i := Scanning k]" "idx + 1"] Suc.prems(1)
      by (simp add: case_prod_beta)
  qed
qed simp

text \<open>
  The sequential reading of \<^verbatim>\<open>Next\<close> is the interleaved one without interference: when only call \<^term>\<open>i\<close>
  takes rounds, then after one round per target the shared index and the result are those of \<^const>\<open>rr_Next\<close>.
\<close>

theorem alone_is_Next:
  assumes "rr_targets lb \<noteq> []" and "i < length cs" and "cs ! i = Scanning (length (rr_targets lb))"
  shows "(rr_turn h (rr_targets lb) i ^^ length (rr_targets lb)) (rr_nextIndex lb, cs)
    = (rr_nextIndex (fst (rr_Next h lb)),
       cs[i := case snd (rr_Next h lb) of Inl _ \<Rightarrow> Failed | Inr a \<Rightarrow> Found a])"
  using assms by (simp add: alone_loop rr_Next_def case_prod_beta split: option.split)

theorem alone_is_Next_witness:
  "(rr_turn two_targets [0, 1] 0 ^^ 2) (0, [Scanning 2, Scanning 2]) = (2, [Found 1, Scanning 2])"
  using alone_is_Next [of "\<lparr>rr_serviceName = [], rr_targets = [0, 1], rr_nextIndex = 0\<rparr>" 0 "[Scanning 2, Scanning 2]" two_targets]
  by (simp add: rr_Next_def two_targets_def Let_def numeral_2_eq_2)

section \<open>All targets healthy: the interleaving does not matter\<close>

definition slots :: "addr list \<Rightarrow> 32 word \<Rightarrow> nat \<Rightarrow> addr list" where
  "slots ts idx n = map (\<lambda>j. rr_slot ts (idx + word_of_nat j)) [0..<n]"

lemma healthy_run:
  assumes "rr_steps h ts n (rr_start idx ts m) st" and "ts \<noteq> []" and "length ts < 2 ^ 32" and "list_all (\<lambda>a. IsHealthy (h a)) ts"
  shows "n \<le> m \<and> fst st = idx + word_of_nat n
    \<and> mset (snd st) = image_mset Found (mset (slots ts idx n)) + replicate_mset (m - n) (Scanning (length ts))"
  using assms(1)
proof (induction n "rr_start idx ts m" st rule: rr_steps.induct)
  case none
  show ?case by (simp add: rr_start_def slots_def)
next
  case (more n st1 st2)
  from more.hyps(3) show ?case
  proof (cases rule: rr_step.cases)
    case (turn i cs k idx')
    let ?t = "rr_slot ts (idx + word_of_nat n)"
    have mem: "Scanning (Suc k) \<in># mset (snd st1)" using turn by (metis nth_mem_mset snd_conv)
    then have k: "Suc k = length ts" "n < m" using more.hyps(2) by (auto split: if_splits)
    have "IsHealthy (h ?t)" using rr_slot_in [OF assms(2,3)] assms(4) by (auto simp: list_all_iff)
    then have st2: "st2 = (idx + word_of_nat n + 1, cs[i := Found ?t])"
      using turn more.hyps(2) by (simp add: rr_turn_def rr_slot_def)
    have "mset (cs[i := Found ?t]) = add_mset (Found ?t) (mset cs - {#Scanning (length ts)#})"
      using turn k by (simp add: mset_update)
    also have "mset cs = image_mset Found (mset (slots ts idx n)) + replicate_mset (Suc (m - Suc n)) (Scanning (length ts))"
      using more.hyps(2) turn(1) k(2) by (simp add: Suc_diff_Suc)
    finally show ?thesis using k(2) by (simp add: st2 slots_def add.assoc)
  qed
qed

text \<open>
  C18. With all targets healthy the interleaving does not matter: when \<^term>\<open>m\<close> concurrent calls have all taken their
  rounds, exactly \<^term>\<open>m\<close> rounds were made, the index has advanced by \<^term>\<open>m\<close> (modulo the 32-bit wrap), and the
  targets handed out are, as a multiset, the next \<^term>\<open>m\<close> positions of the cycle.
\<close>

theorem concurrent_fair:
  assumes "ts \<noteq> []" and "length ts < 2 ^ 32" and "list_all (\<lambda>a. IsHealthy (h a)) ts"
    and "rr_steps h ts n (rr_start idx ts m) st" and "\<nexists>st'. rr_step h ts st st'"
  shows "n = m \<and> fst st = idx + word_of_nat m
    \<and> mset (snd st) = image_mset Found (mset (map (\<lambda>j. rr_slot ts (idx + word_of_nat j)) [0..<m]))"
proof -
  note run = healthy_run [OF assms(4,1,2,3)]
  have "n = m"
  proof (rule ccontr)
    assume "n \<noteq> m"
    then have "Scanning (length ts) \<in> set (snd st)" using run by (auto simp flip: set_mset_mset)
    then obtain i where "i < length (snd st)" "snd st ! i = Scanning (Suc (length ts - 1))"
      using assms(1) by (auto simp: in_set_conv_nth)
    then have "rr_step h ts st (rr_turn h ts i st)" using rr_step.turn [of i "snd st" _ h ts "fst st"] by simp
    with assms(5) show False by blast
  qed
  with run show ?thesis by (simp add: slots_def)
qed

theorem concurrent_fair_witness:
  "mset [Found 7, Found 8] = image_mset Found (mset (map (\<lambda>j. rr_slot [7, 8] (1 + word_of_nat j)) [0..<2]))"
proof -
  let ?h = "example_heap (\<lambda>_. True) (\<lambda>_. 1) (\<lambda>_. 0)" and ?st = "rr_start 1 [7, 8] 2"
  let ?s = "rr_steps ?h [7, 8]"
  have 0: "?s 0 ?st (1, [Scanning 2, Scanning 2])"
    using rr_steps.none [of ?h "[7, 8]" ?st] by (simp add: rr_start_def numeral_2_eq_2)
  have 1: "?s 1 ?st (2, [Scanning 2, Found 8])"
    using one_step [OF _ _ refl 0, of 1 1] by (simp add: rr_turn_def numeral_2_eq_2)
  have 2: "?s 2 ?st (3, [Found 7, Found 8])"
    using one_step [OF _ _ refl 1, of 0 1] by (simp add: rr_turn_def numeral_2_eq_2)
  have "\<nexists>st'. rr_step ?h [7, 8] (3, [Found 7, Found 8]) st'"
    by (auto elim!: rr_stepE simp: less_Suc_eq)
  with concurrent_fair [OF _ _ _ 2] show ?thesis by simp
qed

end
