(* ===== verification/RateLimitConcurrent.thy ===== *)
theory RateLimitConcurrent
  imports RateLimiting
begin

text \<open>
  Concurrent requests in the rate limiting plugin (\<^verbatim>\<open>src/app/plugins/ratelimiting.go\<close>). \<^verbatim>\<open>Handle\<close> takes the lock of
  the store to find or create the client's log, releases it, and then takes the lock of the log to decide; the
  cleanup deletes logs under the lock of the store. The critical sections are the actions of this theory, the logs
  live behind pointers, and a request keeps its pointer between its actions. As long as the cleanup does not delete
  the log of a client with a request in between, every interleaving is the sliding window limiter of theory
  \<^verbatim>\<open>RateLimiting\<close>; otherwise the limit can be exceeded.
\<close>

section \<open>State and actions\<close>

text \<open>A request that has found no log, one that holds a pointer to a log, one that is decided.\<close>

datatype rl_call = Creating string | Deciding string nat | Decided bool

record rl_shared =
  sh_limit :: int
  sh_window :: duration
  sh_store :: "(string, nat) gomap"
  sh_logs :: "nat \<Rightarrow> instant list"
  sh_next :: nat
  sh_calls :: "rl_call list"
  sh_decided :: "rl_event list"
  sh_admitted :: history

text \<open>The section under the read lock: look the client up.\<close>

definition rl_lookup :: "string \<Rightarrow> rl_shared \<Rightarrow> rl_shared" where
  "rl_lookup clientID s =
     s\<lparr>sh_calls := sh_calls s @ [case map_of (sh_store s) clientID of
                                  Some log \<Rightarrow> Deciding clientID log | None \<Rightarrow> Creating clientID]\<rparr>"

text \<open>The section under the write lock: check again, create the log if it is still missing.\<close>

definition rl_create :: "nat \<Rightarrow> rl_shared \<Rightarrow> rl_shared" where
  "rl_create i s =
     (case sh_calls s ! i of
        Creating clientID \<Rightarrow>
          (case map_of (sh_store s) clientID of
             Some log \<Rightarrow> s\<lparr>sh_calls := (sh_calls s)[i := Deciding clientID log]\<rparr>
           | None \<Rightarrow> s\<lparr>sh_store := AList.update clientID (sh_next s) (sh_store s),
                       sh_logs := (sh_logs s)(sh_next s := []),
                       sh_next := Suc (sh_next s),
                       sh_calls := (sh_calls s)[i := Deciding clientID (sh_next s)]\<rparr>)
      | _ \<Rightarrow> s)"

text \<open>The section under the lock of the log: prune, decide, add the timestamp.\<close>

definition rl_decide :: "nat \<Rightarrow> instant \<Rightarrow> rl_shared \<Rightarrow> rl_shared" where
  "rl_decide i now s =
     (case sh_calls s ! i of
        Deciding clientID log \<Rightarrow>
          (let validTimestamps = prune now (sh_window s) (sh_logs s log);
               allowed = int (length validTimestamps) < sh_limit s
           in s\<lparr>sh_logs := (sh_logs s)(log := validTimestamps @ (if allowed then [now] else [])),
                sh_calls := (sh_calls s)[i := Decided allowed],
                sh_decided := sh_decided s @ [Request now clientID],
                sh_admitted := sh_admitted s @ (if allowed then [(now, clientID)] else [])\<rparr>)
      | _ \<Rightarrow> s)"

text \<open>One round of the cleanup loop, with the time at which the loop started.\<close>

definition sweeps :: "instant \<Rightarrow> string \<Rightarrow> rl_shared \<Rightarrow> bool" where
  "sweeps now clientID s =
     (case map_of (sh_store s) clientID of
        None \<Rightarrow> False
      | Some log \<Rightarrow> sh_logs s log \<noteq> [] \<and> now - last (sh_logs s log) > 10 * sh_window s)"

definition rl_sweep :: "instant \<Rightarrow> string \<Rightarrow> rl_shared \<Rightarrow> rl_shared" where
  "rl_sweep now clientID s =
     (if sweeps now clientID s then s\<lparr>sh_store := AList.delete clientID (sh_store s)\<rparr> else s)"

datatype rl_action = Lookup string | Create nat | Decide nat instant | Sweep instant string

fun rl_act :: "rl_action \<Rightarrow> rl_shared \<Rightarrow> rl_shared" where
  "rl_act (Lookup c) s = rl_lookup c s"
| "rl_act (Create i) s = rl_create i s"
| "rl_act (Decide i now) s = rl_decide i now s"
| "rl_act (Sweep now c) s = rl_sweep now c s"

definition rl_shared_start :: "int \<Rightarrow> duration \<Rightarrow> rl_shared" where
  "rl_shared_start limit window = \<lparr>sh_limit = limit, sh_window = window, sh_store = [], sh_logs = (\<lambda>_. []), sh_next = 0,
     sh_calls = [], sh_decided = [], sh_admitted = []\<rparr>"

section \<open>Schedules\<close>

text \<open>
  Decisions happen in the order of the clock and name requests that exist; a sweep uses a time that is not in the
  future.
\<close>

fun timely :: "instant \<Rightarrow> rl_action list \<Rightarrow> rl_shared \<Rightarrow> bool" where
  "timely t [] s = True"
| "timely t (a # as) s =
     ((case a of Decide i now \<Rightarrow> i < length (sh_calls s) \<and> t \<le> now | Create i \<Rightarrow> i < length (sh_calls s)
       | Sweep now c \<Rightarrow> now \<le> t | Lookup c \<Rightarrow> True)
      \<and> timely (case a of Decide i now \<Rightarrow> now | _ \<Rightarrow> t) as (rl_act a s))"

text \<open>No sweep deletes the log of a client one of whose requests holds a pointer to it.\<close>

fun holds_log :: "string \<Rightarrow> rl_call \<Rightarrow> bool" where
  "holds_log c (Deciding d log) = (c = d)"
| "holds_log c _ = False"

fun undisturbed :: "rl_action list \<Rightarrow> rl_shared \<Rightarrow> bool" where
  "undisturbed [] s = True"
| "undisturbed (a # as) s =
     ((case a of Sweep now c \<Rightarrow> sweeps now c s \<longrightarrow> \<not> list_ex (holds_log c) (sh_calls s) | _ \<Rightarrow> True)
      \<and> undisturbed as (rl_act a s))"

section \<open>The sequential limiter as abstraction\<close>

definition rl_abs :: "rl_shared \<Rightarrow> RateLimitingPlugin" where
  "rl_abs s = \<lparr>requestsPerWindow = sh_limit s, rl_window = sh_window s, rl_strategy = ''ip-address'',
     clientStore = map (\<lambda>(c, log). (c, sh_logs s log)) (sh_store s)\<rparr>"

definition log_of :: "rl_shared \<Rightarrow> string \<Rightarrow> instant list" where
  "log_of s c = (case map_of (sh_store s) c of None \<Rightarrow> [] | Some log \<Rightarrow> sh_logs s log)"

lemma rl_abs_sel [simp]: "requestsPerWindow (rl_abs s) = sh_limit s" "rl_window (rl_abs s) = sh_window s"
  by (simp_all add: rl_abs_def)

lemma client_log_abs [simp]: "client_log (rl_abs s) c = log_of s c"
  by (simp add: rl_abs_def client_log_def log_of_def map_of_map split: option.split)

text \<open>Every pointer is current, and different clients have different logs.\<close>

definition pointers_ok :: "rl_shared \<Rightarrow> bool" where
  "pointers_ok s \<longleftrightarrow> wf_gomap (sh_store s)
     \<and> (\<forall>c log. map_of (sh_store s) c = Some log \<longrightarrow> log < sh_next s)
     \<and> (\<forall>c d log. map_of (sh_store s) c = Some log \<and> map_of (sh_store s) d = Some log \<longrightarrow> c = d)
     \<and> (\<forall>c log. Deciding c log \<in> set (sh_calls s) \<longrightarrow> map_of (sh_store s) c = Some log)"

definition shared_inv :: "instant \<Rightarrow> rl_shared \<Rightarrow> bool" where
  "shared_inv t s \<longleftrightarrow> pointers_ok s \<and> rl_inv t (rl_abs s, sh_admitted s)
     \<and> sh_admitted s = fold (spec_exec (sh_limit s) (sh_window s)) (sh_decided s) []"

lemma log_of_eq: "map_of (sh_store s) c = Some log \<Longrightarrow> log_of s c = sh_logs s log"
  by (simp add: log_of_def)

lemma wf_abs [simp]: "wf_gomap (clientStore (rl_abs s)) = wf_gomap (sh_store s)"
  by (simp add: wf_gomap_def rl_abs_def comp_def case_prod_beta)

lemma act_frame [simp]: "sh_limit (rl_act a s) = sh_limit s" "sh_window (rl_act a s) = sh_window s"
  by (cases a; simp add: rl_lookup_def rl_create_def rl_decide_def rl_sweep_def Let_def
        split: rl_call.split option.split)+

section \<open>The invariant is kept\<close>

lemma shared_invI: "pointers_ok s \<Longrightarrow> rl_inv t (rl_abs s, sh_admitted s) \<Longrightarrow>
    sh_admitted s = fold (spec_exec (sh_limit s) (sh_window s)) (sh_decided s) [] \<Longrightarrow> shared_inv t s"
  by (simp add: shared_inv_def)

lemma shared_invD:
  assumes "shared_inv t s"
  shows "pointers_ok s" "rl_inv t (rl_abs s, sh_admitted s)"
    "sh_admitted s = fold (spec_exec (sh_limit s) (sh_window s)) (sh_decided s) []"
  using assms unfolding shared_inv_def by blast+

lemma shared_inv_later: "shared_inv t s \<Longrightarrow> t \<le> t' \<Longrightarrow> shared_inv t' s"
  unfolding shared_inv_def using rl_inv_later by blast

lemma pointers_ok_wf: "pointers_ok s \<Longrightarrow> wf_gomap (clientStore (rl_abs s))"
  by (simp add: pointers_ok_def)

lemma set_list_update_cases: "x \<in> set (xs[i := y]) \<Longrightarrow> x = y \<or> x \<in> set xs"
  using set_update_subset_insert by fastforce

lemma shared_inv_same_logs:
  assumes "shared_inv t s" and "pointers_ok s'" and "\<And>c. log_of s' c = log_of s c"
    and "sh_admitted s' = sh_admitted s" and "sh_decided s' = sh_decided s" and "sh_limit s' = sh_limit s" and "sh_window s' = sh_window s"
  shows "shared_inv t s'"
proof -
  have "rl_inv t (rl_abs s', sh_admitted s)"
    using shared_invD(2) [OF assms(1)] pointers_ok_wf [OF assms(2)] by (rule rl_inv_forget) (simp_all add: assms(3,7))
  then show ?thesis
    using shared_invD(3) [OF assms(1)] assms(2) by (intro shared_invI) (simp_all only: assms(4-7))
qed

lemma rl_lookup_ok: "pointers_ok s \<Longrightarrow> pointers_ok (rl_lookup c s)"
  by (auto simp: rl_lookup_def pointers_ok_def split: option.splits)

lemma rl_lookup_log [simp]: "log_of (rl_lookup c s) d = log_of s d"
  by (simp add: rl_lookup_def log_of_def cong: option.case_cong)

lemma rl_create_ok:
  assumes "pointers_ok s"
  shows "pointers_ok (rl_create i s)"
  using assms by (fastforce simp: rl_create_def pointers_ok_def lookup_update less_Suc_eq
      split: rl_call.split option.split dest!: set_list_update_cases)

lemma rl_create_log: "pointers_ok s \<Longrightarrow> log_of (rl_create i s) d = log_of s d"
  by (auto simp: rl_create_def log_of_def lookup_update pointers_ok_def split: rl_call.split option.split)

text \<open>The decision on a current pointer is the one of the sequential plugin.\<close>

lemma rl_decide_check:
  assumes "pointers_ok s" and "i < length (sh_calls s)" and "sh_calls s ! i = Deciding c log"
  shows "log_of (rl_decide i now s) d = client_log (fst (rl_check now c (rl_abs s))) d"
    and "sh_calls (rl_decide i now s) ! i = Decided (fst (snd (rl_check now c (rl_abs s))))"
    and "rl_exec (Request now c) (rl_abs s, sh_admitted s) = (fst (rl_check now c (rl_abs s)), sh_admitted (rl_decide i now s))"
proof -
  have st: "map_of (sh_store s) c = Some log"
    using assms(1,3) nth_mem [OF assms(2)] by (auto simp: pointers_ok_def)
  have other: "map_of (sh_store s) d = Some log \<longleftrightarrow> d = c" for d
    using assms(1) st by (auto simp: pointers_ok_def)
  have allowed: "fst (snd (rl_check now c (rl_abs s))) \<longleftrightarrow> int (length (prune now (sh_window s) (sh_logs s log))) < sh_limit s"
    by (simp add: rl_check_allowed log_of_eq [OF st])
  show "log_of (rl_decide i now s) d = client_log (fst (rl_check now c (rl_abs s))) d"
    using assms(3) st other [of d] by (auto simp: rl_check_log allowed rl_decide_def log_of_def Let_def split: option.split)
  show "sh_calls (rl_decide i now s) ! i = Decided (fst (snd (rl_check now c (rl_abs s))))"
    using assms(2,3) by (simp add: allowed rl_decide_def Let_def)
  show "rl_exec (Request now c) (rl_abs s, sh_admitted s) = (fst (rl_check now c (rl_abs s)), sh_admitted (rl_decide i now s))"
    using assms(3) allowed by (auto simp: rl_decide_def Let_def case_prod_beta)
qed

lemma shared_inv_lookup:
  assumes "shared_inv t s"
  shows "shared_inv t (rl_lookup c s)"
  by (rule shared_inv_same_logs [OF assms rl_lookup_ok [OF shared_invD(1) [OF assms]]]) (simp, simp_all add: rl_lookup_def)

lemma shared_inv_create:
  assumes "shared_inv t s"
  shows "shared_inv t (rl_create i s)"
proof -
  note ok = shared_invD(1) [OF assms]
  show ?thesis
    by (rule shared_inv_same_logs [OF assms rl_create_ok [OF ok] rl_create_log [OF ok]])
      (simp_all add: rl_create_def split: rl_call.split option.split)
qed

lemma shared_inv_decide:
  assumes "shared_inv t s" and "t \<le> now" and "i < length (sh_calls s)"
  shows "shared_inv now (rl_decide i now s)"
proof (cases "sh_calls s ! i")
  case (Deciding c log)
  let ?s = "rl_decide i now s" and ?chk = "rl_check now c (rl_abs s)"
  have ok: "pointers_ok s" and inv: "rl_inv now (rl_abs s, sh_admitted s)"
    using shared_invD(1,2) [OF assms(1)] rl_inv_later [OF _ assms(2)] by blast+
  have ok': "pointers_ok ?s"
    using ok Deciding by (auto simp: rl_decide_def pointers_ok_def Let_def dest!: set_list_update_cases)
  have fr: "sh_decided ?s = sh_decided s @ [Request now c]" "sh_window ?s = sh_window s" "sh_limit ?s = sh_limit s"
    using Deciding by (simp_all add: rl_decide_def Let_def)
  note dec = rl_decide_check [OF ok assms(3) Deciding]
  note chk = rl_inv_check [OF inv, of c, unfolded dec(3)]
  have "rl_inv now (rl_abs ?s, sh_admitted ?s)"
    using chk [THEN conjunct1] pointers_ok_wf [OF ok'] by (rule rl_inv_forget) (simp_all add: dec(1) fr)
  moreover have "sh_admitted ?s = fold (spec_exec (sh_limit ?s) (sh_window ?s)) (sh_decided ?s) []"
    using chk shared_invD(3) [OF assms(1)] fr by (simp del: spec_exec.simps)
  ultimately show ?thesis using ok' by (intro shared_invI)
qed (simp_all add: rl_decide_def shared_inv_later [OF assms(1,2)])

lemma shared_inv_sweep:
  assumes "shared_inv t s" and "now \<le> t" and "sweeps now c s \<Longrightarrow> \<not> list_ex (holds_log c) (sh_calls s)"
  shows "shared_inv t (rl_sweep now c s)"
proof (cases "sweeps now c s")
  case True
  let ?s = "rl_sweep now c s"
  have ok: "pointers_ok s" and inv: "rl_inv t (rl_abs s, sh_admitted s)" using shared_invD [OF assms(1)] by blast+
  have "Deciding c log \<notin> set (sh_calls s)" for log
    using assms(3) [OF True] by (auto simp: list_ex_iff)
  then have ok': "pointers_ok ?s"
    using ok True by (auto simp: rl_sweep_def pointers_ok_def lookup_delete)
  have old: "\<forall>x \<in> set (log_of s c). sh_window s < t - x"
    using rl_inv_last_old [OF inv, of c now] True assms(2) by (auto simp: sweeps_def log_of_def split: option.splits)
  have "log_of ?s d = (if d = c then [] else log_of s d)" for d
    using True by (simp add: rl_sweep_def log_of_def lookup_delete split: option.split)
  then have "rl_inv t (rl_abs ?s, sh_admitted s)"
    using ok' old by (intro rl_inv_forget [OF inv]) (auto simp: pointers_ok_def act_frame(2) [of "Sweep now c", simplified])
  then show ?thesis using shared_invD(3) [OF assms(1)] ok' True
    by (intro shared_invI) (simp_all add: rl_sweep_def)
qed (use assms in \<open>simp add: rl_sweep_def\<close>)

lemma run_inv:
  "shared_inv t s \<Longrightarrow> timely t as s \<Longrightarrow> undisturbed as s \<Longrightarrow> \<exists>t'. shared_inv t' (fold rl_act as s)"
proof (induction as arbitrary: t s)
  case (Cons a as)
  have "shared_inv (case a of Decide i now \<Rightarrow> now | _ \<Rightarrow> t) (rl_act a s)"
    using Cons.prems
    by (cases a) (auto intro: shared_inv_lookup shared_inv_create shared_inv_decide shared_inv_sweep)
  then show ?case using Cons.IH Cons.prems by simp
qed auto

lemma run_frame: "sh_limit (fold rl_act as s) = sh_limit s \<and> sh_window (fold rl_act as s) = sh_window s"
  by (induction as arbitrary: s) simp_all

lemma shared_inv_start: "0 \<le> window \<Longrightarrow> shared_inv t (rl_shared_start limit window)"
  using rl_inv_start [of "rl_abs (rl_shared_start limit window)" t]
  by (simp add: shared_inv_def pointers_ok_def rl_shared_start_def rl_abs_def)

text \<open>A request that runs its three sections without interruption is one \<^const>\<open>rl_check\<close> of the sequential plugin.\<close>

lemma uninterrupted_request:
  fixes s c now
  defines "n \<equiv> length (sh_calls s)" and "chk \<equiv> rl_check now c (rl_abs s)"
  assumes "pointers_ok s"
  shows "log_of (rl_decide n now (rl_create n (rl_lookup c s))) d = client_log (fst chk) d"
    and "sh_calls (rl_decide n now (rl_create n (rl_lookup c s))) ! n = Decided (fst (snd chk))"
proof -
  let ?s1 = "rl_lookup c s" and ?s2 = "rl_create n (rl_lookup c s)"
  have ok1: "pointers_ok ?s1" and ok2: "pointers_ok ?s2" using assms(3) by (auto intro: rl_lookup_ok rl_create_ok)
  have fr: "sh_window ?s2 = sh_window s" "sh_limit ?s2 = sh_limit s"
    by (simp_all add: rl_create_def rl_lookup_def split: rl_call.split option.split)
  have n: "n < length (sh_calls ?s2)"
    by (simp add: n_def rl_create_def rl_lookup_def split: rl_call.split option.split)
  obtain log where call: "sh_calls ?s2 ! n = Deciding c log"
    by (cases "map_of (sh_store s) c") (simp_all add: n_def rl_create_def rl_lookup_def)
  have same: "client_log (rl_abs ?s2) d = client_log (rl_abs s) d" for d using rl_create_log [OF ok1] by simp
  have allowed: "fst (snd (rl_check now c (rl_abs ?s2))) = fst (snd chk)"
    unfolding chk_def rl_check_allowed same by (simp add: fr)
  have logs: "client_log (fst (rl_check now c (rl_abs ?s2))) d = client_log (fst chk) d"
    unfolding chk_def rl_check_log same allowed [unfolded chk_def] by (simp add: fr)
  note dec = rl_decide_check [OF ok2 n call, of now]
  show "log_of (rl_decide n now ?s2) d = client_log (fst chk) d" using dec(1) [of d] logs by simp
  show "sh_calls (rl_decide n now ?s2) ! n = Decided (fst (snd chk))" using dec(2) allowed by simp
qed

text \<open>
  C9. Concurrent requests are limited exactly: under every interleaving of the critical sections in which no cleanup
  deletes a log that a request holds, the admitted requests are those the sliding window specification admits from
  the decisions in their order, and no client exceeds the limit in any window.
\<close>

theorem concurrent_limit_exact:
  assumes "0 \<le> limit" and "0 \<le> window" and "timely t as (rl_shared_start limit window)" and "undisturbed as (rl_shared_start limit window)"
  shows "let s = fold rl_act as (rl_shared_start limit window)
    in sh_admitted s = fold (spec_exec limit window) (sh_decided s) [] \<and> within_limit limit window (sh_admitted s)"
proof -
  let ?s = "fold rl_act as (rl_shared_start limit window)"
  have "sh_admitted ?s = fold (spec_exec limit window) (sh_decided ?s) []"
    using run_inv [OF shared_inv_start [OF assms(2)] assms(3,4)] run_frame [of as "rl_shared_start limit window"]
    by (auto simp: shared_inv_def rl_shared_start_def)
  moreover have "within_limit limit window []" using assms(1) by (simp add: within_limit_def admitted_times_def)
  ultimately show ?thesis by (simp add: spec_run_limit Let_def)
qed

text \<open>Two requests of one client race to create the log; the second is refused.\<close>

definition two_requests :: "rl_action list" where
  "two_requests = [Lookup ''a'', Lookup ''a'', Create 1, Create 0, Decide 1 5, Sweep 5 ''a'', Decide 0 6]"

theorem concurrent_limit_exact_witness:
  "sh_admitted (fold rl_act two_requests (rl_shared_start 1 Second)) = [(5, ''a'')]
   \<and> within_limit 1 Second (sh_admitted (fold rl_act two_requests (rl_shared_start 1 Second)))"
  using concurrent_limit_exact [of 1 Second 0 two_requests]
  by (simp add: two_requests_def rl_shared_start_def rl_lookup_def rl_create_def rl_decide_def rl_sweep_def sweeps_def prune_def Let_def)

text \<open>The first request of a client, eleven seconds later a second one that has found the log when the cleanup deletes it, and a third.\<close>

definition swept_while_held :: "rl_action list" where
  "swept_while_held = [Lookup ''a'', Create 0, Decide 0 0, Lookup ''a'', Sweep 11000000000 ''a'', Decide 1 11000000000,
     Lookup ''a'', Create 2, Decide 2 11000000001]"

text \<open>
  C35. A cleanup between the two locks of \<^verbatim>\<open>Handle\<close> breaks the limit: with a limit of one request per second, a request
  that found the log before the cleanup deleted it is admitted on the orphaned log, and the next one, one nanosecond
  later, is admitted on a new log.
\<close>

theorem cleanup_race_exceeds_limit:
  "sh_admitted (fold rl_act swept_while_held (rl_shared_start 1 Second))
     = [(0, ''a''), (11000000000, ''a''), (11000000001, ''a'')]
   \<and> \<not> within_limit 1 Second (sh_admitted (fold rl_act swept_while_held (rl_shared_start 1 Second)))"
proof -
  have run: "sh_admitted (fold rl_act swept_while_held (rl_shared_start 1 Second))
      = [(0, ''a''), (11000000000, ''a''), (11000000001, ''a'')]"
    by (simp add: swept_while_held_def rl_shared_start_def rl_lookup_def rl_create_def rl_decide_def rl_sweep_def sweeps_def prune_def Let_def)
  have "length (filter (in_window 11000000000 Second) (admitted_times ''a'' [(0, ''a''), (11000000000, ''a''), (11000000001, ''a'')])) = 2"
    by (simp add: admitted_times_def in_window_def)
  then have "\<not> within_limit 1 Second [(0, ''a''), (11000000000, ''a''), (11000000001, ''a'')]"
    unfolding within_limit_def not_all by (intro exI [of _ "''a''"] exI [of _ 11000000000]) simp
  with run show ?thesis by simp
qed

end
