(* ===== verification/Connections.thy ===== *)
theory Connections
  imports Proxy
begin

text \<open>
  Requests in flight at the same time. \<^verbatim>\<open>Proxy.ServeHTTP\<close> (\<^verbatim>\<open>src/app/proxy/proxy.go\<close>) picks a target, increments its
  connection count and hands the request to the reverse proxy, which either refuses it or calls the counting round
  tripper; other requests and the health checker run in between. The parts of \<^const>\<open>Proxy_ServeHTTP\<close> that one
  request runs without touching shared state elsewhere are the phases below; run without interruption they are
  \<^const>\<open>Proxy_ServeHTTP\<close>. Under every interleaving the connection count of a target is the number of its round trips
  in flight plus the number of requests refused before their round trip, whose increment is never undone.
\<close>

section \<open>The phases of a request\<close>

text \<open>A request with a target, one whose round trip is under way, one refused before it, one whose round trip has returned.\<close>

datatype flight = Picked addr request | InFlight addr request | Refused addr | Landed addr "response option"

definition flight_pick :: "(int \<Rightarrow> int) \<Rightarrow> string \<Rightarrow> Proxy \<Rightarrow> Proxy \<times> addr option" where
  "flight_pick intn serviceName p =
     (case serviceLBs p serviceName of
        None \<Rightarrow> (p, None)
      | Some lb \<Rightarrow>
          (let (lb', res) = Next intn (px_heap p) lb
           in (p\<lparr>serviceLBs := (serviceLBs p)(serviceName \<mapsto> lb')\<rparr>,
               case res of Inl _ \<Rightarrow> None | Inr target \<Rightarrow> Some target)))"

definition flight_enter :: "addr \<Rightarrow> request \<Rightarrow> Proxy \<Rightarrow> Proxy \<times> flight" where
  "flight_enter target r p =
     (update_target target IncrementActiveConnections p,
      case outgoing (Director (px_global p) (ut_URL (px_heap p target)) r) r of
        None \<Rightarrow> Refused target
      | Some q \<Rightarrow> InFlight target q)"

definition flight_land :: "(request \<Rightarrow> response option) \<Rightarrow> addr \<Rightarrow> request \<Rightarrow> Proxy \<Rightarrow> Proxy \<times> flight" where
  "flight_land proxied target q p = map_prod id (Landed target) (counting_RoundTrip proxied target q p)"

text \<open>A request that nothing interrupts.\<close>

definition flight_alone :: "upstream_env \<Rightarrow> string \<Rightarrow> request \<Rightarrow> Proxy \<Rightarrow> Proxy" where
  "flight_alone e serviceName r p =
     (case flight_pick (ue_Intn e) serviceName p of
        (p, None) \<Rightarrow> p
      | (p, Some target) \<Rightarrow>
          (case flight_enter target r p of
             (p, InFlight a q) \<Rightarrow> fst (flight_land (ue_RoundTrip e) a q p)
           | (p, _) \<Rightarrow> p))"

lemma flight_alone_serves:
  assumes "ctxMatchedRoute r = Some info"
  shows "fst (Proxy_ServeHTTP e p w r) = flight_alone e (svc_Name (mi_ServiceConfig info)) r p"
proof (cases "serviceLBs p (svc_Name (mi_ServiceConfig info))")
  case None
  then show ?thesis using assms by (simp add: Proxy_ServeHTTP_def flight_alone_def flight_pick_def Let_def)
next
  case (Some lb)
  obtain lb' res where nx: "Next (ue_Intn e) (px_heap p) lb = (lb', res)" by fastforce
  show ?thesis
  proof (cases res)
    case (Inl err)
    then show ?thesis using assms Some nx by (simp add: Proxy_ServeHTTP_def flight_alone_def flight_pick_def Let_def)
  next
    case (Inr a)
    then have sel: "selects e p r (svc_Name (mi_ServiceConfig info)) lb' a" using assms Some nx by (simp add: selects_def)
    show ?thesis using Some nx Inr
      by (simp add: serve_selected [OF sel] flight_alone_def flight_pick_def flight_enter_def flight_land_def
          ReverseProxy_ServeHTTP_def counting_RoundTrip_def split: option.split)
  qed
qed

section \<open>Interleaved requests\<close>

record traffic =
  tr_proxy :: Proxy
  tr_flights :: "flight list"

inductive tr_step :: "traffic \<Rightarrow> traffic \<Rightarrow> bool" where
  pick: "flight_pick intn name (tr_proxy s) = (p, res) \<Longrightarrow>
    tr_step s (s\<lparr>tr_proxy := p, tr_flights := tr_flights s @ (case res of None \<Rightarrow> [] | Some a \<Rightarrow> [Picked a r])\<rparr>)"
| enter: "i < length (tr_flights s) \<Longrightarrow> tr_flights s ! i = Picked a r \<Longrightarrow> flight_enter a r (tr_proxy s) = (p, f) \<Longrightarrow>
    tr_step s (s\<lparr>tr_proxy := p, tr_flights := (tr_flights s)[i := f]\<rparr>)"
| land: "i < length (tr_flights s) \<Longrightarrow> tr_flights s ! i = InFlight a q \<Longrightarrow> flight_land proxied a q (tr_proxy s) = (p, f) \<Longrightarrow>
    tr_step s (s\<lparr>tr_proxy := p, tr_flights := (tr_flights s)[i := f]\<rparr>)"
| health: "tr_step s (s\<lparr>tr_proxy := UpdateTargetHealth us name u up (tr_proxy s)\<rparr>)"

inductive tr_steps :: "traffic \<Rightarrow> traffic \<Rightarrow> bool" where
  none: "tr_steps s s"
| more: "tr_steps s s1 \<Longrightarrow> tr_step s1 s2 \<Longrightarrow> tr_steps s s2"

definition idle :: "traffic \<Rightarrow> bool" where
  "idle s \<longleftrightarrow> tr_flights s = [] \<and> (\<forall>a. activeConnections (px_heap (tr_proxy s) a) = 0)"

definition in_flight :: "addr \<Rightarrow> traffic \<Rightarrow> nat" where
  "in_flight a s = length (filter (\<lambda>f. \<exists>q. f = InFlight a q) (tr_flights s))"

definition refused :: "addr \<Rightarrow> traffic \<Rightarrow> nat" where
  "refused a s = length (filter (\<lambda>f. f = Refused a) (tr_flights s))"

section \<open>What the counts count\<close>

fun occupies :: "addr \<Rightarrow> flight \<Rightarrow> nat" where
  "occupies a (InFlight b q) = of_bool (a = b)"
| "occupies a (Refused b) = of_bool (a = b)"
| "occupies a _ = 0"

definition load :: "addr \<Rightarrow> traffic \<Rightarrow> nat" where
  "load a s = sum_list (map (occupies a) (tr_flights s))"

lemma occupies_sum:
  "sum_list (map (occupies a) fs) = length (filter (\<lambda>f. \<exists>q. f = InFlight a q) fs) + length (filter (\<lambda>f. f = Refused a) fs)"
proof (induction fs)
  case (Cons f fs)
  then show ?case by (cases f) auto
qed simp

lemma load_eq: "load a s = in_flight a s + refused a s"
  by (simp add: load_def in_flight_def refused_def occupies_sum)

lemma load_update:
  assumes "i < length fs"
  shows "int (sum_list (map (occupies a) (fs[i := f]))) =
    int (sum_list (map (occupies a) fs)) + int (occupies a f) - int (occupies a (fs ! i))"
proof -
  have "occupies a (fs ! i) \<le> sum_list (map (occupies a) fs)" using assms by (metis elem_le_sum_list length_map nth_map)
  then show ?thesis using assms by (simp add: map_update sum_list_update)
qed

lemma load_small: "load a s \<le> length (tr_flights s)"
proof -
  have "occupies a f \<le> 1" for f by (cases f) auto
  then have "sum_list (map (occupies a) fs) \<le> length fs" for fs
    by (induction fs) (auto simp: add_mono [where a = "occupies _ _" and b = 1, simplified])
  then show ?thesis by (simp add: load_def)
qed

lemma i64_add_left: "i64 (i64 x + y) = i64 (x + y)"
  using mod_add_left_eq [of "x + 2 ^ 63" "2 ^ 64" y] by (simp add: i64_def algebra_simps)

lemma UpdateTargetHealth_connections [simp]:
  "activeConnections (px_heap (UpdateTargetHealth us n u b p) a) = activeConnections (px_heap p a)"
  by (simp add: UpdateTargetHealth_eq set_health_first_find SetHealth_def split: option.split)

lemma flight_pick_heap: "flight_pick intn name p = (p', res) \<Longrightarrow> px_heap p' = px_heap p"
  by (auto simp: flight_pick_def Let_def split: option.splits prod.splits)

lemma tr_steps_counts:
  "tr_steps s s' \<Longrightarrow> idle s \<Longrightarrow> activeConnections (px_heap (tr_proxy s') a) = i64 (int (load a s'))"
proof (induction rule: tr_steps.induct)
  case (none s)
  then show ?case by (simp add: idle_def load_def i64_def)
next
  case (more s s1 s2)
  have IH: "activeConnections (px_heap (tr_proxy s1) a) = i64 (int (load a s1))" using more by simp
  from more.hyps(2) show ?case
  proof cases
    case (pick intn name p res r)
    then show ?thesis using IH by (simp add: flight_pick_heap load_def split: option.split)
  next
    case (enter i b r p f)
    have f: "occupies a f = of_bool (a = b)" "px_heap p a = (if a = b then IncrementActiveConnections else id) (px_heap (tr_proxy s1) a)"
      using enter(4) by (auto simp: flight_enter_def split: option.splits)
    have "int (load a s2) = int (load a s1) + of_bool (a = b)"
      using load_update [OF enter(2), of a f] enter(1,3) f(1) by (simp add: load_def)
    then show ?thesis using enter(1) IH f(2) i64_add_left [of "int (load a s1)" 1]
      by (auto simp: IncrementActiveConnections_def)
  next
    case (land i b q proxied p f)
    have f: "occupies a f = 0" "px_heap p a = (if a = b then DecrementActiveConnections else id) (px_heap (tr_proxy s1) a)"
      using land(4) by (auto simp: flight_land_def counting_RoundTrip_def Let_def)
    have "int (load a s2) = int (load a s1) - of_bool (a = b)"
      using load_update [OF land(2), of a f] land(1,3) f(1) by (simp add: load_def)
    then show ?thesis using land(1) IH f(2) i64_add_left [of "int (load a s1)" "-1"]
      by (auto simp: DecrementActiveConnections_def)
  next
    case (health us name u up)
    then show ?thesis using IH by (simp add: load_def)
  qed
qed

text \<open>
  C17. Under every interleaving of requests and health updates the connection count of a target is the number of
  requests whose round trip to it is in flight plus the number of those refused before their round trip (an
  unprintable upgrade), whose increment is never undone. So a target that least connections picks is healthy, and no
  healthy target of the list has a smaller such sum; as long as no request has been refused, none has fewer requests
  in flight.
\<close>

theorem picks_fewest_in_flight:
  assumes "idle s" and "tr_steps s s'" and "length (tr_flights s') < 2 ^ 63"
  shows "GetActiveConnections (px_heap (tr_proxy s') a) = int (in_flight a s' + refused a s')
    \<and> (case snd (lc_Next (px_heap (tr_proxy s')) lb) of
         Inl _ \<Rightarrow> healthyTargets (px_heap (tr_proxy s')) (lc_targets lb) = []
       | Inr b \<Rightarrow> b \<in> set (healthyTargets (px_heap (tr_proxy s')) (lc_targets lb))
           \<and> (\<forall>c \<in> set (healthyTargets (px_heap (tr_proxy s')) (lc_targets lb)).
                in_flight b s' + refused b s' \<le> in_flight c s' + refused c s'
                \<and> ((\<forall>d. refused d s' = 0) \<longrightarrow> in_flight b s' \<le> in_flight c s')))"
proof -
  have conns: "activeConnections (px_heap (tr_proxy s') b) = int (load b s')" for b
    using tr_steps_counts [OF assms(2,1), of b] load_small [of b s'] assms(3) by (simp add: i64_id in_i64_def)
  show ?thesis
    using lc_Next_best [of "px_heap (tr_proxy s')" lb] unfolding lc_best_def conns load_eq
    by (auto simp: GetActiveConnections_def conns load_eq set_healthyTargets split: sum.splits)
qed

text \<open>Two requests on two idle targets: while the first is in flight to target 0, the second is sent to target 1.\<close>

theorem picks_fewest_in_flight_witness:
  "\<exists>s'. tr_steps \<lparr>tr_proxy = example_proxy (\<lambda>_. True) example_lc, tr_flights = []\<rparr> s'
     \<and> in_flight 0 s' = 1 \<and> refused 0 s' = 0 \<and> GetActiveConnections (px_heap (tr_proxy s') 0) = 1
     \<and> snd (lc_Next (px_heap (tr_proxy s')) (newLeastConnectionsLoadBalancer ''my-backend-service-1'' [0, 1])) = Inr 1
     \<and> in_flight 1 s' + refused 1 s' \<le> in_flight 0 s' + refused 0 s'"
proof -
  let ?p = "example_proxy (\<lambda>_. True) example_lc" and ?lb = "newLeastConnectionsLoadBalancer ''my-backend-service-1'' [0, 1]"
  let ?s = "\<lparr>tr_proxy = ?p, tr_flights = []\<rparr>" and ?r = "example_request []"
  let ?s1 = "\<lparr>tr_proxy = ?p, tr_flights = [Picked 0 ?r]\<rparr>"
  have "flight_pick (\<lambda>_. 0) ''my-backend-service-1'' ?p = (?p, Some 0)"
    by (simp add: flight_pick_def example_defs lc_Next_def GetActiveConnections_def)
  then have s1: "tr_step ?s ?s1" using tr_step.pick [of "\<lambda>_. 0" "''my-backend-service-1''" ?s ?p "Some 0" ?r] by simp
  obtain q where q: "outgoing (Director (px_global ?p) (ut_URL (px_heap ?p 0)) ?r) ?r = Some q"
    using example_outgoing [of "ut_URL (px_heap ?p 0)"] by (auto simp: example_proxy_def)
  define p2 where "p2 = update_target 0 IncrementActiveConnections ?p"
  let ?s2 = "\<lparr>tr_proxy = p2, tr_flights = [InFlight 0 q]\<rparr>"
  have s2: "tr_step ?s1 ?s2" using tr_step.enter [of 0 ?s1 0 ?r p2 "InFlight 0 q"] q by (simp add: flight_enter_def p2_def)
  have run: "tr_steps ?s ?s2" by (rule tr_steps.more [OF tr_steps.more [OF tr_steps.none s1] s2])
  have idle: "idle ?s" by (simp add: idle_def example_proxy_def)
  have heap: "px_heap p2 = (px_heap ?p)(0 := IncrementActiveConnections (px_heap ?p 0))" by (simp add: p2_def)
  have nxt: "snd (lc_Next (px_heap p2) ?lb) = Inr 1" and mem: "0 \<in> set (healthyTargets (px_heap p2) (lc_targets ?lb))"
    by (simp_all add: heap lc_Next_def newLeastConnectionsLoadBalancer_def GetActiveConnections_def IncrementActiveConnections_def
        i64_def example_proxy_def example_heap_def IsHealthy_def set_healthyTargets)
  have "GetActiveConnections (px_heap p2 0) = int (in_flight 0 ?s2 + refused 0 ?s2)
      \<and> in_flight 1 ?s2 + refused 1 ?s2 \<le> in_flight 0 ?s2 + refused 0 ?s2"
    using picks_fewest_in_flight [OF idle run, of 0 ?lb] nxt mem by simp
  moreover have "in_flight 0 ?s2 = 1" "refused 0 ?s2 = 0" by (simp_all add: in_flight_def refused_def)
  ultimately show ?thesis using run nxt by (intro exI [of _ ?s2]) simp
qed

end
