(* ===== verification/Spec2Isabelle.thy ===== *)
theory Spec2Isabelle
  imports Shutdown RoundRobinConcurrent RateLimitConcurrent Connections
begin

text \<open>
  Corridor is an API gateway written in Go (\<^verbatim>\<open>src/app\<close>). It reads a YAML configuration, validates it, builds one
  load balancer per service, starts health checks of the targets, builds a chain of plugins per route, and
  serves HTTP requests: the router finds the first route that matches host, method and path, the route's plugins
  run in the configured order, and the reverse proxy sends the request to a healthy target of the service. On
  SIGINT or SIGTERM the server and the health checker stop. This library models these parts and proves what
  makes them correct. Where the code deviates from its comments or its documentation, the deviation is itself a
  theorem.

  \<^bold>\<open>Theories and the code they model.\<close>

  \<^item> \<^verbatim>\<open>Prelude\<close>: Go's integers at their width (\<^const>\<open>i64\<close>), durations, strings and the functions of package
    \<^verbatim>\<open>strings\<close> (\<^verbatim>\<open>go_str\<close>), maps as association lists with distinct keys (\<^verbatim>\<open>go_map\<close>), outcomes of calls that
    may return an error or panic.
  \<^item> \<^verbatim>\<open>Config\<close> (\<^verbatim>\<open>config/config.go\<close>): the decoded configuration as records, \<^const>\<open>LoadConfig\<close>,
    \<^const>\<open>validateAndSetDefaults\<close> step by step. The specification \<^const>\<open>valid_config\<close> is declarative; validation is
    sound for it and stable on its own output.
  \<^item> \<^verbatim>\<open>Http\<close>: what the gateway uses of \<^verbatim>\<open>net/http\<close> and \<^verbatim>\<open>net/url\<close>: headers with canonical keys, requests,
    response writers and recorders, \<^verbatim>\<open>RequestURI\<close>. \<^verbatim>\<open>Fmt\<close>: \<^verbatim>\<open>fmt.Sprint\<close> of configuration values.
    \<^verbatim>\<open>Sha256\<close>: the hash function itself, checked on published test vectors.
  \<^item> \<^verbatim>\<open>LoadBalancer\<close> (\<^verbatim>\<open>proxy/loadbalancer.go\<close>): targets behind pointers (a heap of records), the four
    strategies, \<^const>\<open>NewLoadBalancer\<close>. The locale \<^verbatim>\<open>balancer\<close> is the interface of the four strategies; it is
    interpreted on each and on their sum. \<^verbatim>\<open>RoundRobinConcurrent\<close>: the scans of concurrent \<^verbatim>\<open>Next\<close> calls
    interleaved at the atomic increment.
  \<^item> \<^verbatim>\<open>Proxy\<close>, \<^verbatim>\<open>ProxyInit\<close> (\<^verbatim>\<open>proxy/proxy.go\<close>): \<^const>\<open>NewProxy\<close> with the transport settings, \<^const>\<open>Proxy_ServeHTTP\<close>
    with the director, the counting round tripper and the error handler, around a model of
    \<^verbatim>\<open>httputil.ReverseProxy\<close>; \<^const>\<open>UpdateTargetHealth\<close>. \<^verbatim>\<open>Connections\<close>: the phases of \<^const>\<open>Proxy_ServeHTTP\<close>
    (shown to be it when uninterrupted) interleaved for requests in flight at the same time.
  \<^item> \<^verbatim>\<open>HealthChecker\<close> (\<^verbatim>\<open>healthchecker/healthchecker.go\<close>): one check, its evaluation against the thresholds, and
    the goroutines as the step relation \<^const>\<open>hc_step\<close>. The locale \<^verbatim>\<open>health_sink\<close> is what the checker relies on of
    the proxy, interpreted on \<^const>\<open>UpdateTargetHealth\<close>.
  \<^item> \<^verbatim>\<open>RateLimiting\<close>, \<^verbatim>\<open>RateLimitConcurrent\<close> (\<^verbatim>\<open>plugins/ratelimiting.go\<close>): initialisation, the decision and the
    cleanup, first as one step each, then at the granularity of the locks with the logs behind pointers.
  \<^item> \<^verbatim>\<open>Caching\<close>, \<^verbatim>\<open>CacheRuns\<close> (\<^verbatim>\<open>plugins/caching.go\<close>): entries, keys, expiry, cleanup, and runs of requests
    through the plugin.
  \<^item> \<^verbatim>\<open>Authentication\<close> (\<^verbatim>\<open>plugins/authentication.go\<close>, \<^verbatim>\<open>utils/keygen.go\<close>): configuration, API keys from YAML and
    MongoDB, JWT, the decision on a request, the refresh, \<^verbatim>\<open>Shutdown\<close>, the key generator.
  \<^item> \<^verbatim>\<open>Middleware\<close>, \<^verbatim>\<open>Chain\<close> (\<^verbatim>\<open>plugins/plugin.go\<close>, \<^verbatim>\<open>requestid.go\<close>, \<^verbatim>\<open>pathrewrite.go\<close> and the \<^verbatim>\<open>Handle\<close> methods): a
    handler is a function on the process state \<^typ>\<open>world\<close>; the registry and \<^const>\<open>ChainPlugins\<close>. The locale
    \<^verbatim>\<open>middleware\<close> states what every \<^verbatim>\<open>Handle\<close> promises (it answers or calls the next handler at most once, keeps
    the proxy and the other instances); its lemmas lift this to chains. The interpretation \<^verbatim>\<open>gateway\<close> discharges
    it for the five plugins.
  \<^item> \<^verbatim>\<open>Router\<close> (\<^verbatim>\<open>router/router.go\<close>): matching, the route loop, construction of the chains.
  \<^item> \<^verbatim>\<open>Logging\<close> (\<^verbatim>\<open>logging/logger.go\<close>), \<^verbatim>\<open>Server\<close> (\<^verbatim>\<open>server/server.go\<close>), \<^verbatim>\<open>Gateway\<close> (\<^verbatim>\<open>main.go\<close>): the logger, the HTTP
    server's start and shutdown, and the process: \<^const>\<open>main\<close> builds the parts in order, \<^const>\<open>gw_step\<close> interleaves
    requests, checks, cleanups, key refreshes and the stop, \<^const>\<open>main_end\<close> is what follows the signal.
  \<^item> \<^verbatim>\<open>Locks\<close>, \<^verbatim>\<open>Shutdown\<close>: goroutines as the locking operations they still have to make. The locale \<^verbatim>\<open>lock_order\<close> is the
    discipline of taking locks in increasing rank; it is interpreted on the mutexes of status, proxy, balancer,
    target and logger. The operations of \<^verbatim>\<open>performCheck\<close>, \<^verbatim>\<open>processCheckResult\<close>, \<^verbatim>\<open>UpdateTargetHealth\<close> and the proxy's
    selection follow the branches of the code; the wait of \<^verbatim>\<open>HealthChecker.Stop\<close> is analysed on them.

  \<^bold>\<open>What the lemmas show.\<close> Configuration: soundness and stability of validation. Selection: every balancer in a ready
  state (the index does not wrap during the scan) returns a healthy target exactly when there is one; round robin goes
  through the targets in turn while all are healthy; the weighted choice is proportional to positive weights; least
  connections picks the smallest number of requests in flight and refused; concurrent round robin calls end.
  Proxying: to which address requests go and what the client gets, 503 without a healthy target, connection
  accounting with the one case that leaks. Health: flags follow the thresholds and agree with the checker in every
  reachable state, for the strategies that accept updates and statuses about different targets. Plugins: the rate
  limiter is an exact sliding window, also under concurrency as long as no cleanup hits a held log; the cache returns
  only what the next handler answered within the time to live, but to everybody; only verified tokens and known keys
  pass. Routing: first match, chains as configured where all plugins could be created. The whole process (this theory,
  \<^verbatim>\<open>Gateway\<close> and \<^verbatim>\<open>Shutdown\<close>): every request is answered with at most one upstream call, requests without credentials do
  not reach an upstream where the chain could be built, instances keep their kind and settings, and \<^verbatim>\<open>Stop\<close> can neither
  deadlock nor hang in a check.

  \<^bold>\<open>Parameters.\<close> Code outside the repository is an argument: the YAML decoder and the file system, \<^verbatim>\<open>url.Parse\<close> and
  \<^verbatim>\<open>URL.String\<close>, \<^verbatim>\<open>rand.Intn\<close> (\<^const>\<open>good_intn\<close>: its result is in range), the upstream's answers, \<^verbatim>\<open>regexp\<close>,
  \<^verbatim>\<open>google/uuid\<close>, \<^verbatim>\<open>bcrypt\<close> (\<^const>\<open>bcrypt_contract\<close>), \<^verbatim>\<open>golang-jwt\<close> (\<^const>\<open>jwt_contract\<close>), the MongoDB driver, the
  certificate loader, listening, the clock. Every theorem that assumes a contract has a witness with a concrete
  instance of it.

  \<^bold>\<open>Bounds.\<close> No definition uses fuel: loops are structural recursions over the data they range over, and the
  running process is a relation. The bound of 17 in \<^verbatim>\<open>Shutdown\<close> is the length of the longest check. \<^verbatim>\<open>uint32\<close> indices and \<^verbatim>\<open>int64\<close> counts are kept at their width; lists have fewer
  than \<^term>\<open>2 ^ 32 :: nat\<close> targets where the code converts a length. The counters of consecutive check results are
  unbounded: the flag flips at a threshold long before they could wrap.

  \<^bold>\<open>Not modelled.\<close> What the log calls inside the components write (the logger itself is modelled, its mutex is part of
  \<^verbatim>\<open>Shutdown\<close>, and a log call changes nothing else); output that blocks; the unsynchronised \<^verbatim>\<open>rand.Rand\<close> of the two random
  balancers, whose \<^verbatim>\<open>Intn\<close> is a parameter; sockets, TLS and the copying of bodies; trailers and informational responses of the reverse proxy; the
  deadline of the request context, which appears as a transport error; the build files and the sample
  configuration, which hold no logic.
\<close>

section \<open>Properties of the whole gateway\<close>

text \<open>The chain of a route all of whose plugins could be created, and its instances in a reachable state.\<close>

lemma reachable_chain:
  assumes "main be args path st = Running gw"
    and "gw_steps (be_urlString be) (be_plugins be) (gw_router gw) (gw_hc gw, gw_world gw) (hc, w)"
    and "route \<in> set (Routes (gw_config gw))"
    and "list_all (\<lambda>ic. \<exists>q. configured (be_plugins be) (Plugins (gw_config gw)) ic = Ok q) (rt_Plugins route)"
  shows "\<exists>as. routeHandlers (gw_router gw) (ID route) = Some (ChainPlugins (be_plugins be) as (proxyHandler (be_plugins be)))
    \<and> list_all2 (\<lambda>ic a. \<exists>q. configured (be_plugins be) (Plugins (gw_config gw)) ic = Ok q \<and> cell_follows q (wPlugins w a))
        (rt_Plugins route) as"
proof (rule main_Running [OF assms(1)])
  let ?env = "be_plugins be" and ?cfg = "gw_config gw" and ?rt = "gw_router gw"
  fix cfg0
  assume valid: "validateAndSetDefaults cfg0 = Inr ?cfg" and ok: "router_ok ?env ?rt"
    and nr: "NewRouter ?env ?cfg (proxyHandler ?env) (initial_world (wProxy (gw_world gw))) = Ok (gw_world gw, ?rt)"
  have "\<not> chain_failed ?env (Plugins ?cfg) ?rt route" using assms(4) by (force simp: chain_failed_def list_all_iff)
  then obtain as where as: "routeHandlers ?rt (ID route) = Some (ChainPlugins ?env as (proxyHandler ?env))"
    "instances_at ?env (Plugins ?cfg) (gw_world gw) (rt_Plugins route) as"
    using NewRouter_chains [OF nr valid_distinct_IDs [OF valid] assms(3)] by (auto simp: chain_built_def)
  have "follows (gw_world gw) w" using gw_steps_follows [OF assms(2) ok] by simp
  then have "list_all2 (\<lambda>ic a. \<exists>q. configured ?env (Plugins ?cfg) ic = Ok q \<and> cell_follows q (wPlugins w a)) (rt_Plugins route) as"
    using as(2) unfolding instances_at_def by (auto simp: follows_def elim!: list_all2_mono)
  with as(1) show ?thesis by blast
qed

lemma demands_follows: "cell_follows (AuthenticationP p) q \<Longrightarrow> demands p h \<Longrightarrow> \<exists>p'. q = AuthenticationP p' \<and> demands p' h"
  by (cases q) (auto simp: demands_def)

text \<open>
  C1. No credential, no upstream call. Take any state a running gateway can reach, and a request whose first
  matching route lists an authentication plugin with the provider \<^verbatim>\<open>jwt\<close> or \<^verbatim>\<open>api-key\<close>, at any place in a chain
  all of whose plugins could be created. If the request lacks the header the plugin takes the
  credential from (and this is not the request id header), serving it does not call the proxy.
\<close>

theorem unauthenticated_never_proxied:
  assumes "main be args path st = Running gw"
    and "gw_steps (be_urlString be) (be_plugins be) (gw_router gw) (gw_hc gw, gw_world gw) (hc, w)"
    and "List.find (route_matches r) (Routes (gw_config gw)) = Some route"
    and "list_all (\<lambda>ic. \<exists>q. configured (be_plugins be) (Plugins (gw_config gw)) ic = Ok q) (rt_Plugins route)"
    and "ic \<in> set (rt_Plugins route)" and "configured (be_plugins be) (Plugins (gw_config gw)) ic = Ok (AuthenticationP p)"
    and "demands p h" and "CanonicalKey h \<noteq> CanonicalKey requestIDHeader" and "hGet (Header r) h = []"
  shows "wCalls (fst (Router_ServeHTTP (gw_router gw) w rw r)) = wCalls w"
proof (rule main_Running [OF assms(1)])
  let ?env = "be_plugins be" and ?cfg = "gw_config gw" and ?rt = "gw_router gw"
  fix cfg0
  assume valid: "validateAndSetDefaults cfg0 = Inr ?cfg"
    and nr: "NewRouter ?env ?cfg (proxyHandler ?env) (initial_world (wProxy (gw_world gw))) = Ok (gw_world gw, ?rt)"
  have "route \<in> set (Routes ?cfg)" using assms(3) by (auto simp: find_Some_iff)
  from reachable_chain [OF assms(1,2) this assms(4)] obtain as
    where as: "routeHandlers ?rt (ID route) = Some (ChainPlugins ?env as (proxyHandler ?env))"
      "list_all2 (\<lambda>ic a. \<exists>q. configured ?env (Plugins ?cfg) ic = Ok q \<and> cell_follows q (wPlugins w a)) (rt_Plugins route) as" by blast
  obtain g where "g \<in> set as" "cell_follows (AuthenticationP p) (wPlugins w g)"
    using as(2) assms(5,6) by (fastforce simp: in_set_conv_nth list_all2_conv_all_nth)
  then have g: "g \<in> set as" "guards g h w" using demands_follows [OF _ assms(7)] by (auto simp: guards_def)
  have "Router_ServeHTTP ?rt w rw r = dispatch ?rt route (the (service_map (Services ?cfg) (Service route))) w rw r"
    using valid_routable [OF validate_sound_aux [OF valid] nr] assms(3)
    by (simp add: Router_ServeHTTP_def routable_def serve_routes_find NewRouter_frame [OF nr])
  then show ?thesis using as(1) chain_guarded [OF g _ assms(8)] assms(9) by (simp add: dispatch_def)
qed

theorem unauthenticated_never_proxied_witness:
  "\<exists>gw. main example_boot [''corridor''] ''config.yaml'' empty_store = Running gw
    \<and> wCalls (fst (Router_ServeHTTP (gw_router gw) (gw_world gw) new_writer (info_request []))) = wCalls (gw_world gw)"
proof -
  obtain gw where gw: "main example_boot [''corridor''] ''config.yaml'' empty_store = Running gw" "gw_config gw = guarded_config []"
    using example_runs by blast
  have env: "be_plugins example_boot = example_penv" by (simp add: example_boot_def)
  have d: "demands api_key_plugin ''X-API-Key''" by (simp add: demands_def api_key_plugin_def auth_defaults_def)
  have "CanonicalKey ''X-API-Key'' \<noteq> CanonicalKey requestIDHeader"
    by (simp add: CanonicalKey_def requestIDHeader_def is_token_char_def is_alnum_def upper_char_def lower_char_def Let_def)
  moreover have "hGet (Header (info_request [])) ''X-API-Key'' = []"
    by (simp add: info_request_def hGet_def hValues_def)
  ultimately show ?thesis
    using unauthenticated_never_proxied [OF gw(1) gw_steps.refl, of "info_request []"
        "sample_route\<lparr>rt_Plugins := [api_key_instance]\<rparr>" api_key_instance api_key_plugin "''X-API-Key''" new_writer] gw d
    by (simp add: env guarded_matches configured_api_key)
qed

text \<open>
  C19. Instances keep their type and settings: in every state a running gateway reaches, the handler of a route still
  consists of one instance per configured plugin, each of the kind its name is registered for and with the settings
  its \<^verbatim>\<open>Init\<close> chose; only the loaded API keys, the request logs and the cache entries have changed.
\<close>

theorem instances_keep_settings:
  assumes "main be args path st = Running gw"
    and "gw_steps (be_urlString be) (be_plugins be) (gw_router gw) (gw_hc gw, gw_world gw) (hc, w)"
    and "route \<in> set (Routes (gw_config gw))"
    and "list_all (\<lambda>ic. \<exists>q. configured (be_plugins be) (Plugins (gw_config gw)) ic = Ok q) (rt_Plugins route)"
  shows "\<exists>as. routeHandlers (gw_router gw) (ID route) = Some (ChainPlugins (be_plugins be) as (proxyHandler (be_plugins be)))
    \<and> list_all2 (\<lambda>ic a. \<exists>q. configured (be_plugins be) (Plugins (gw_config gw)) ic = Ok q \<and> cell_follows q (wPlugins w a))
        (rt_Plugins route) as"
  by (rule reachable_chain [OF assms])

theorem instances_keep_settings_witness:
  "\<exists>gw a p. main example_boot [''corridor''] ''config.yaml'' empty_store = Running gw
    \<and> wPlugins (fst (Router_ServeHTTP (gw_router gw) (gw_world gw) new_writer (info_request []))) a = AuthenticationP p
    \<and> Provider p = ''api-key''"
proof -
  let ?route = "sample_route\<lparr>rt_Plugins := [api_key_instance]\<rparr>"
  obtain gw where gw: "main example_boot [''corridor''] ''config.yaml'' empty_store = Running gw" "gw_config gw = guarded_config []"
    using example_runs by blast
  let ?w = "fst (Router_ServeHTTP (gw_router gw) (gw_world gw) new_writer (info_request []))"
  have env: "be_plugins example_boot = example_penv" by (simp add: example_boot_def)
  have mem: "?route \<in> set (Routes (gw_config gw))" by (simp add: gw(2) guarded_config_def)
  have run: "gw_steps (be_urlString example_boot) (be_plugins example_boot) (gw_router gw) (gw_hc gw, gw_world gw) (gw_hc gw, ?w)"
    by (rule gw_steps.step [OF gw_steps.refl gw_step.request])
  obtain a where "cell_follows (AuthenticationP api_key_plugin) (wPlugins ?w a)"
    using instances_keep_settings [OF gw(1) run mem] gw(2)
    by (auto simp: env configured_api_key list_all2_Cons1)
  then have "\<exists>p. wPlugins ?w a = AuthenticationP p \<and> Provider p = Provider api_key_plugin" by (cases "wPlugins ?w a") auto
  moreover have "Provider api_key_plugin = ''api-key''" by (simp add: api_key_plugin_def)
  ultimately show ?thesis using gw(1) by auto
qed

end
